(* ===== verification/Prelude.thy ===== *)
theory Prelude
  imports Complex_Main "HOL-Library.AList"
begin

text \<open>
  Shared vocabulary of the development: the Python string operations the sources use (ASCII
  lower-casing, \<open>strip\<close>, \<open>startswith\<close>, substring search), dictionaries that keep insertion
  order, fallible results, and SQL-style tables (a table is the list of its rows, an \<open>UPDATE\<close>
  with a \<open>WHERE\<close> is \<open>update_where\<close>).

  Python floats and the decimals of the database are exact rationals (type \<open>rat\<close>): the sources
  only add, scale and compare them, and the rounding of IEEE arithmetic is not modelled. Times
  are whole seconds since the epoch in UTC, as \<open>int\<close>.
\<close>

named_theorems py_simps \<open>unfolding rules of the Python helper functions\<close>
named_theorems table_simps \<open>laws of rows, tables and updates\<close>

type_synonym secs = int
type_synonym num_value = rat

subsection \<open>Characters and strings\<close>

definition ch_code :: "char \<Rightarrow> int" where
  "ch_code c = of_char c"

definition is_lower_ch :: "char \<Rightarrow> bool" where
  "is_lower_ch c \<longleftrightarrow> 97 \<le> ch_code c \<and> ch_code c \<le> 122"

definition is_upper_ch :: "char \<Rightarrow> bool" where
  "is_upper_ch c \<longleftrightarrow> 65 \<le> ch_code c \<and> ch_code c \<le> 90"

definition is_digit_ch :: "char \<Rightarrow> bool" where
  "is_digit_ch c \<longleftrightarrow> 48 \<le> ch_code c \<and> ch_code c \<le> 57"

definition is_space_ch :: "char \<Rightarrow> bool" where
  "is_space_ch c \<longleftrightarrow> ch_code c = 32 \<or> (9 \<le> ch_code c \<and> ch_code c \<le> 13)"

definition lower_ch :: "char \<Rightarrow> char" where
  "lower_ch c = (if is_upper_ch c then char_of (ch_code c + 32) else c)"

definition upper_ch :: "char \<Rightarrow> char" where
  "upper_ch c = (if is_lower_ch c then char_of (ch_code c - 32) else c)"

definition lower :: "string \<Rightarrow> string" where
  "lower s = map lower_ch s"

definition upper :: "string \<Rightarrow> string" where
  "upper s = map upper_ch s"

definition strip :: "string \<Rightarrow> string" where
  "strip s = rev (dropWhile is_space_ch (rev (dropWhile is_space_ch s)))"

fun startswith :: "string \<Rightarrow> string \<Rightarrow> bool" where
  "startswith s [] = True"
| "startswith [] (p # ps) = False"
| "startswith (c # cs) (p # ps) = (c = p \<and> startswith cs ps)"

fun contains_str :: "string \<Rightarrow> string \<Rightarrow> bool" where
  "contains_str [] p = (p = [])"
| "contains_str (c # cs) p = (startswith (c # cs) p \<or> contains_str cs p)"

text \<open>A text in single quotes.\<close>

definition quoted :: "string \<Rightarrow> string" where
  "quoted s = [CHR 0x27] @ s @ [CHR 0x27]"

text \<open>Python truth of an optional text.\<close>

definition truthy_str :: "string option \<Rightarrow> bool" where
  "truthy_str s = (case s of None \<Rightarrow> False | Some t \<Rightarrow> t \<noteq> [])"

text \<open>\<open>sep.join(parts)\<close>.\<close>

fun py_join :: "string \<Rightarrow> string list \<Rightarrow> string" where
  "py_join sep [] = []"
| "py_join sep [p] = p"
| "py_join sep (p # ps) = p @ sep @ py_join sep ps"

text \<open>\<open>str.split\<close> at a character.\<close>

fun split_ch :: "char \<Rightarrow> string \<Rightarrow> string list" where
  "split_ch c [] = [[]]"
| "split_ch c (x # xs) =
     (if x = c then [] # split_ch c xs
      else (case split_ch c xs of [] \<Rightarrow> [[x]] | w # ws \<Rightarrow> (x # w) # ws))"

text \<open>\<open>str(n)\<close> of an integer.\<close>

definition digit_ch :: "nat \<Rightarrow> char" where
  "digit_ch d = char_of (48 + d)"

fun nat_digits :: "nat \<Rightarrow> string \<Rightarrow> string" where
  "nat_digits n acc =
     (if n < 10 then digit_ch n # acc else nat_digits (n div 10) (digit_ch (n mod 10) # acc))"

declare nat_digits.simps [simp del]

definition nat_text :: "nat \<Rightarrow> string" where
  "nat_text n = nat_digits n []"

definition int_text :: "int \<Rightarrow> string" where
  "int_text i = (if i < 0 then CHR ''-'' # nat_text (nat (- i)) else nat_text (nat i))"

text \<open>
  \<open>int(s)\<close> of a text: white space around it, a sign, digits with single underscores between
  them; \<open>None\<close> where Python raises \<open>ValueError\<close>.
\<close>

definition digit_val :: "char \<Rightarrow> int" where
  "digit_val c = ch_code c - 48"

fun read_digits :: "int \<Rightarrow> string \<Rightarrow> int option" where
  "read_digits acc [] = None"
| "read_digits acc (c # cs) =
     (if \<not> is_digit_ch c then None
      else
        (case cs of
           [] \<Rightarrow> Some (acc * 10 + digit_val c)
         | d # ds \<Rightarrow> if d = CHR ''_'' then read_digits (acc * 10 + digit_val c) ds
                     else read_digits (acc * 10 + digit_val c) cs))"

definition py_int :: "string \<Rightarrow> int option" where
  "py_int s =
     (case strip s of
        [] \<Rightarrow> None
      | c # cs \<Rightarrow>
          if c = CHR ''-'' then map_option uminus (read_digits 0 cs)
          else if c = CHR ''+'' then read_digits 0 cs
          else read_digits 0 (c # cs))"

text \<open>
  The same tests on the bits of a character, for evaluation. Bit 5 is what distinguishes the
  two cases of a letter.
\<close>

lemma is_upper_ch_bits [code]:
  "is_upper_ch (Char b0 b1 b2 b3 b4 b5 b6 b7) \<longleftrightarrow>
     \<not> b7 \<and> b6 \<and> \<not> b5 \<and> (b0 \<or> b1 \<or> b2 \<or> b3 \<or> b4) \<and>
     (b4 \<longrightarrow> b3 \<longrightarrow> \<not> b2 \<and> (b1 \<longrightarrow> \<not> b0))"
  by (simp add: is_upper_ch_def ch_code_def split: if_splits)

lemma is_lower_ch_bits [code]:
  "is_lower_ch (Char b0 b1 b2 b3 b4 b5 b6 b7) \<longleftrightarrow>
     \<not> b7 \<and> b6 \<and> b5 \<and> (b0 \<or> b1 \<or> b2 \<or> b3 \<or> b4) \<and>
     (b4 \<longrightarrow> b3 \<longrightarrow> \<not> b2 \<and> (b1 \<longrightarrow> \<not> b0))"
  by (simp add: is_lower_ch_def ch_code_def split: if_splits)

lemma is_digit_ch_bits [code]:
  "is_digit_ch (Char b0 b1 b2 b3 b4 b5 b6 b7) \<longleftrightarrow>
     \<not> b7 \<and> \<not> b6 \<and> b5 \<and> b4 \<and> (b3 \<longrightarrow> \<not> b2 \<and> \<not> b1)"
  by (simp add: is_digit_ch_def ch_code_def split: if_splits)

lemma is_space_ch_bits [code]:
  "is_space_ch (Char b0 b1 b2 b3 b4 b5 b6 b7) \<longleftrightarrow>
     \<not> b7 \<and> \<not> b6 \<and> \<not> b4 \<and>
     (if b5 then \<not> b3 \<and> \<not> b2 \<and> \<not> b1 \<and> \<not> b0
      else b3 \<and> (b0 \<or> b1 \<or> b2) \<and> (b2 \<longrightarrow> \<not> b1))"
  by (simp add: is_space_ch_def ch_code_def split: if_splits)

lemma lower_ch_bits [code]:
  "lower_ch (Char b0 b1 b2 b3 b4 b5 b6 b7) =
     (if is_upper_ch (Char b0 b1 b2 b3 b4 b5 b6 b7) then Char b0 b1 b2 b3 b4 True b6 b7
      else Char b0 b1 b2 b3 b4 b5 b6 b7)"
proof (cases "is_upper_ch (Char b0 b1 b2 b3 b4 b5 b6 b7)")
  case True
  then have "\<not> b5" by (simp add: is_upper_ch_bits)
  then have "ch_code (Char b0 b1 b2 b3 b4 b5 b6 b7) + 32 = of_char (Char b0 b1 b2 b3 b4 True b6 b7)"
    by (simp add: ch_code_def)
  with True show ?thesis by (simp only: lower_ch_def if_True char_of_char)
qed (simp add: lower_ch_def)

lemma ch_code_char_of: "0 \<le> n \<Longrightarrow> n < 256 \<Longrightarrow> ch_code (char_of n) = n"
  by (simp add: ch_code_def)

lemma lower_ch_idem [simp]: "lower_ch (lower_ch c) = lower_ch c"
  by (auto simp: lower_ch_def is_upper_ch_def ch_code_char_of)

lemma lower_idem [simp]: "lower (lower s) = lower s"
  by (simp add: lower_def)

lemma length_lower [simp]: "length (lower s) = length s"
  by (simp add: lower_def)

lemma lower_append [simp]: "lower (s @ t) = lower s @ lower t"
  by (simp add: lower_def)

lemma lower_Nil [simp]: "lower [] = []"
  by (simp add: lower_def)

lemma is_space_lower_ch [simp]: "is_space_ch (lower_ch c) = is_space_ch c"
  by (auto simp: lower_ch_def is_upper_ch_def is_space_ch_def ch_code_char_of)

lemma is_digit_lower_ch [simp]: "is_digit_ch (lower_ch c) = is_digit_ch c"
  by (auto simp: lower_ch_def is_upper_ch_def is_digit_ch_def ch_code_char_of)

lemma lower_strip: "lower (strip s) = strip (lower s)"
proof -
  have d: "map lower_ch (dropWhile is_space_ch t) = dropWhile is_space_ch (map lower_ch t)" for t
    by (induction t) auto
  show ?thesis
    by (simp add: strip_def lower_def d flip: rev_map)
qed

lemma startswith_iff: "startswith s p \<longleftrightarrow> (\<exists>t. s = p @ t)"
  by (induction s p rule: startswith.induct) auto

text \<open>Splitting undoes joining, and the pieces are free of the separator.\<close>

lemma split_ch_not_Nil [simp]: "split_ch c s \<noteq> []"
  by (induction s) (auto split: list.split)

lemma split_ch_no: "c \<notin> set s \<Longrightarrow> split_ch c s = [s]"
  by (induction s) auto

lemma split_ch_append: "c \<notin> set w \<Longrightarrow> split_ch c (w @ c # s) = w # split_ch c s"
  by (induction w) auto

lemma split_ch_join:
  "ws \<noteq> [] \<Longrightarrow> \<forall>w\<in>set ws. c \<notin> set w \<Longrightarrow> split_ch c (py_join [c] ws) = ws"
proof (induction ws)
  case (Cons w ws)
  then show ?case by (cases ws) (simp_all add: split_ch_no split_ch_append)
qed simp

lemma split_ch_pieces: "w \<in> set (split_ch c s) \<Longrightarrow> c \<notin> set w"
proof (induction s arbitrary: w)
  case (Cons x xs)
  then show ?case by (cases "split_ch c xs") (auto split: if_splits)
qed simp

text \<open>A printed integer reads back.\<close>

lemma nat_digits_append: "nat_digits n (acc @ acc') = nat_digits n acc @ acc'"
proof (induction n acc rule: nat_digits.induct)
  case (1 n acc)
  then show ?case by (simp add: nat_digits.simps [of n])
qed

lemma nat_text_simps: "nat_text n = (if n < 10 then [digit_ch n] else nat_text (n div 10) @ [digit_ch (n mod 10)])"
  using nat_digits_append [of "n div 10" "[]" "[digit_ch (n mod 10)]"]
  by (simp add: nat_text_def nat_digits.simps [of n])

lemma digit_ch_code: "d < 10 \<Longrightarrow> ch_code (digit_ch d) = 48 + int d"
proof -
  have "digit_ch d = char_of (int (48 + d))" by (simp only: digit_ch_def char_of_nat)
  then show "d < 10 \<Longrightarrow> ?thesis" by (simp add: ch_code_char_of del: char_of_nat)
qed

lemma digit_ch_facts: "d < 10 \<Longrightarrow> is_digit_ch (digit_ch d) \<and> digit_val (digit_ch d) = int d"
  by (simp add: is_digit_ch_def digit_val_def digit_ch_code)

lemma nat_text_digits: "nat_text n \<noteq> [] \<and> list_all is_digit_ch (nat_text n)"
proof (induction n rule: less_induct)
  case (less n)
  show ?case using less [of "n div 10"] digit_ch_facts by (subst (1 2) nat_text_simps) auto
qed

lemma nat_text_value: "foldl (\<lambda>a c. a * 10 + digit_val c) 0 (nat_text n) = int n"
proof (induction n rule: less_induct)
  case (less n)
  show ?case
  proof (cases "n < 10")
    case True
    then show ?thesis using digit_ch_facts by (subst nat_text_simps) simp
  next
    case False
    have "int n = int (n div 10) * 10 + int (n mod 10)"
      by (metis div_mult_mod_eq of_nat_add of_nat_mult of_nat_numeral)
    with False less [of "n div 10"] digit_ch_facts [of "n mod 10"] show ?thesis
      by (subst nat_text_simps) simp
  qed
qed

lemma digit_not_underscore: "is_digit_ch c \<Longrightarrow> c \<noteq> CHR ''_''"
  by (auto simp: is_digit_ch_def ch_code_def)

lemma read_digits_all:
  "ds \<noteq> [] \<Longrightarrow> list_all is_digit_ch ds \<Longrightarrow> read_digits a ds = Some (foldl (\<lambda>a c. a * 10 + digit_val c) a ds)"
proof (induction ds arbitrary: a)
  case (Cons c cs)
  then show ?case
    by (cases cs) (auto dest: digit_not_underscore)
qed simp

lemma digit_ch_class: "is_digit_ch c \<Longrightarrow> \<not> is_space_ch c \<and> c \<noteq> CHR ''-'' \<and> c \<noteq> CHR ''+'' \<and> c \<noteq> CHR '':''"
  by (auto simp: is_digit_ch_def is_space_ch_def ch_code_def)

lemma strip_no_space: "list_all (\<lambda>c. \<not> is_space_ch c) s \<Longrightarrow> strip s = s"
proof -
  have d: "list_all (\<lambda>c. \<not> is_space_ch c) t \<Longrightarrow> dropWhile is_space_ch t = t" for t by (cases t) auto
  show "list_all (\<lambda>c. \<not> is_space_ch c) s \<Longrightarrow> strip s = s" by (simp add: strip_def d)
qed

lemma py_int_nat_text: "py_int (nat_text n) = Some (int n)"
proof -
  obtain c cs where t: "nat_text n = c # cs" using nat_text_digits [of n] by (cases "nat_text n") auto
  have d: "is_digit_ch c" "list_all is_digit_ch (nat_text n)" using nat_text_digits [of n] t by auto
  have "strip (nat_text n) = nat_text n"
    by (rule strip_no_space) (use d digit_ch_class in \<open>auto simp: list_all_iff\<close>)
  moreover have "read_digits 0 (nat_text n) = Some (int n)"
    using read_digits_all [of "nat_text n"] nat_text_digits [of n] nat_text_value [of n] by simp
  ultimately show ?thesis using digit_ch_class [OF d(1)] by (simp add: py_int_def t)
qed

lemma py_int_text: "py_int (int_text i) = Some i"
proof (cases "i < 0")
  case False
  then show ?thesis by (simp add: int_text_def py_int_nat_text)
next
  case True
  let ?t = "nat_text (nat (- i))"
  have "list_all (\<lambda>c. \<not> is_space_ch c) (CHR ''-'' # ?t)"
    using nat_text_digits [of "nat (- i)"] digit_ch_class by (auto simp: list_all_iff is_space_ch_def ch_code_def)
  then have "strip (CHR ''-'' # ?t) = CHR ''-'' # ?t" by (rule strip_no_space)
  moreover have "read_digits 0 ?t = Some (int (nat (- i)))"
    using read_digits_all [of ?t] nat_text_digits [of "nat (- i)"] nat_text_value [of "nat (- i)"] by simp
  ultimately show ?thesis using True by (simp add: int_text_def py_int_def)
qed

lemma set_map_filter_iff: "y \<in> set (List.map_filter f xs) \<longleftrightarrow> (\<exists>x\<in>set xs. f x = Some y)"
  by (induction xs) (auto simp: List.map_filter_simps split: option.split)

lemma find_filter_hd: "find P xs = (case filter P xs of [] \<Rightarrow> None | x # _ \<Rightarrow> Some x)"
  by (induction xs) auto

lemma find_SomeD: "find P xs = Some x \<Longrightarrow> x \<in> set xs \<and> P x"
  by (induction xs) (auto split: if_splits)

subsection \<open>Python dictionaries\<close>

text \<open>
  A dictionary is the association list of its items in insertion order; assigning to an
  existing key keeps the key's place, a new key goes last.
\<close>

type_synonym ('k, 'v) dict = "('k \<times> 'v) list"

definition dict_get :: "('k, 'v) dict \<Rightarrow> 'k \<Rightarrow> 'v option" where
  "dict_get d k = map_of d k"

definition dict_set :: "('k, 'v) dict \<Rightarrow> 'k \<Rightarrow> 'v \<Rightarrow> ('k, 'v) dict" where
  "dict_set d k v = AList.update k v d"

definition dict_del :: "('k, 'v) dict \<Rightarrow> 'k \<Rightarrow> ('k, 'v) dict" where
  "dict_del d k = AList.delete k d"

definition dict_setdefault :: "('k, 'v) dict \<Rightarrow> 'k \<Rightarrow> 'v \<Rightarrow> ('k, 'v) dict" where
  "dict_setdefault d k v = (case dict_get d k of None \<Rightarrow> d @ [(k, v)] | Some _ \<Rightarrow> d)"

definition dict_keys :: "('k, 'v) dict \<Rightarrow> 'k list" where
  "dict_keys d = map fst d"

definition dict_wf :: "('k, 'v) dict \<Rightarrow> bool" where
  "dict_wf d \<longleftrightarrow> distinct (dict_keys d)"

lemma dict_get_set [simp]: "dict_get (dict_set d k v) k' = (if k' = k then Some v else dict_get d k')"
  by (simp add: dict_get_def dict_set_def update_conv)

lemma dict_get_del [simp]: "dict_get (dict_del d k) k' = (if k' = k then None else dict_get d k')"
  by (simp add: dict_get_def dict_del_def delete_conv)

lemma dict_get_setdefault [simp]:
  "dict_get (dict_setdefault d k v) k' =
     (case dict_get d k' of Some w \<Rightarrow> Some w | None \<Rightarrow> if k' = k then Some v else None)"
  by (auto simp: dict_get_def dict_setdefault_def map_add_def split: option.splits)

lemma dict_get_Nil [simp]: "dict_get [] k = None"
  by (simp add: dict_get_def)

lemma dict_wf_Nil [simp]: "dict_wf []"
  by (simp add: dict_wf_def dict_keys_def)

lemma dict_wf_set [simp]: "dict_wf d \<Longrightarrow> dict_wf (dict_set d k v)"
  by (simp add: dict_wf_def dict_keys_def dict_set_def distinct_update)

lemma dict_wf_setdefault [simp]: "dict_wf d \<Longrightarrow> dict_wf (dict_setdefault d k v)"
  by (auto simp: dict_wf_def dict_keys_def dict_setdefault_def dict_get_def map_of_eq_None_iff
      split: option.splits)

lemma dict_wf_del [simp]: "dict_wf d \<Longrightarrow> dict_wf (dict_del d k)"
  by (simp add: dict_wf_def dict_keys_def dict_del_def distinct_delete)

lemma set_dict_keys_set [simp]: "set (dict_keys (dict_set d k v)) = insert k (set (dict_keys d))"
  by (auto simp: dict_keys_def dict_set_def update_keys image_iff)

lemma dict_get_None_iff: "dict_get d k = None \<longleftrightarrow> k \<notin> set (dict_keys d)"
  by (simp add: dict_get_def dict_keys_def map_of_eq_None_iff)

lemma dict_get_in: "dict_wf d \<Longrightarrow> dict_get d k = Some v \<longleftrightarrow> (k, v) \<in> set d"
  by (simp add: dict_get_def dict_wf_def dict_keys_def map_of_eq_Some_iff)

text \<open>
  The loop \<open>for r in rows: add(d.setdefault(key(r), blank()), r)\<close>: rows are grouped by a key and
  folded into one accumulator per key.
\<close>

fun group_rows ::
  "('r \<Rightarrow> 'k) \<Rightarrow> ('b \<Rightarrow> 'r \<Rightarrow> 'b) \<Rightarrow> 'b \<Rightarrow> 'r list \<Rightarrow> ('k, 'b) dict \<Rightarrow> ('k, 'b) dict" where
  "group_rows key add blank [] d = d"
| "group_rows key add blank (r # rs) d =
     group_rows key add blank rs
       (dict_set d (key r) (add (case dict_get d (key r) of Some b \<Rightarrow> b | None \<Rightarrow> blank) r))"

lemma dict_get_group_rows:
  "dict_get (group_rows key add blank rs d) k =
     (if filter (\<lambda>r. key r = k) rs = [] then dict_get d k
      else Some (foldl add (case dict_get d k of Some b \<Rightarrow> b | None \<Rightarrow> blank)
                   (filter (\<lambda>r. key r = k) rs)))"
  by (induction rs arbitrary: d) auto

lemma dict_wf_group_rows: "dict_wf d \<Longrightarrow> dict_wf (group_rows key add blank rs d)"
  by (induction rs arbitrary: d) auto

lemma group_rows_get:
  "dict_get (group_rows key add blank rs []) k =
     (if k \<in> key ` set rs then Some (foldl add blank (filter (\<lambda>r. key r = k) rs)) else None)"
  by (auto simp: dict_get_group_rows filter_empty_conv)

lemma group_rows_keys: "set (dict_keys (group_rows key add blank rs [])) = key ` set rs"
proof -
  have "k \<in> set (dict_keys (group_rows key add blank rs [])) \<longleftrightarrow> k \<in> key ` set rs" for k
    using dict_get_None_iff [of "group_rows key add blank rs []" k]
    by (auto simp: group_rows_get split: if_splits)
  then show ?thesis by blast
qed

text \<open>Summing a count over the groups of a partition gives the count of the whole.\<close>

lemma length_filter_partition:
  assumes "distinct ks" and "\<And>r. r \<in> set rs \<Longrightarrow> p r \<Longrightarrow> key r \<in> set ks"
  shows "(\<Sum>k\<leftarrow>ks. length (filter (\<lambda>r. key r = k \<and> p r) rs)) = length (filter p rs)"
  using assms(2)
proof (induction rs)
  case (Cons r rs)
  have one: "(\<Sum>k\<leftarrow>ks. if key r = k \<and> p r then 1 else 0) = (if p r then 1 else (0::nat))"
  proof (cases "p r")
    case True
    with Cons.prems have "key r \<in> set ks" by simp
    with assms(1) True show ?thesis
      by (simp add: sum_list_distinct_conv_sum_set)
  qed simp
  have "(\<Sum>k\<leftarrow>ks. length (filter (\<lambda>x. key x = k \<and> p x) (r # rs))) =
        (\<Sum>k\<leftarrow>ks. (if key r = k \<and> p r then 1 else 0) + length (filter (\<lambda>x. key x = k \<and> p x) rs))"
    by (rule arg_cong [where f = sum_list]) simp
  also have "\<dots> = (if p r then 1 else 0) + length (filter p rs)"
    using Cons by (simp add: sum_list_addf one)
  finally show ?case by simp
qed simp

subsection \<open>The contract of a keyed store\<close>

text \<open>
  What every client of a dictionary, of the pending table or of the poll-state cache relies on:
  a read after a write sees the write, and other keys are untouched.
\<close>

locale keyed_store =
  fixes get :: "'t \<Rightarrow> 'k \<Rightarrow> 'v option"
    and put :: "'t \<Rightarrow> 'k \<Rightarrow> 'v \<Rightarrow> 't"
    and del :: "'t \<Rightarrow> 'k \<Rightarrow> 't"
  assumes get_put: "get (put t k v) k' = (if k' = k then Some v else get t k')"
    and get_del: "get (del t k) k' = (if k' = k then None else get t k')"
begin

lemma get_put_same: "get (put t k v) k = Some v"
  by (simp add: get_put)

lemma get_put_other: "k' \<noteq> k \<Longrightarrow> get (put t k v) k' = get t k'"
  by (simp add: get_put)

lemma put_put: "get (put (put t k v) k w) = get (put t k w)"
  by (rule ext) (simp add: get_put)

lemma del_put: "get (del (put t k v) k) = get (del t k)"
  by (rule ext) (simp add: get_put get_del)

lemma get_del_same: "get (del t k) k = None"
  by (simp add: get_del)

end

interpretation dict: keyed_store dict_get dict_set dict_del
  by unfold_locales simp_all

subsection \<open>Tables\<close>

definition update_where :: "('r \<Rightarrow> bool) \<Rightarrow> ('r \<Rightarrow> 'r) \<Rightarrow> 'r list \<Rightarrow> 'r list" where
  "update_where p f rows = map (\<lambda>r. if p r then f r else r) rows"

definition rowcount :: "('r \<Rightarrow> bool) \<Rightarrow> 'r list \<Rightarrow> nat" where
  "rowcount p rows = length (filter p rows)"

lemma update_where_Nil [table_simps, simp]: "update_where p f [] = []"
  by (simp add: update_where_def)

lemma update_where_Cons [table_simps]:
  "update_where p f (r # rs) = (if p r then f r else r) # update_where p f rs"
  by (simp add: update_where_def)

lemma length_update_where [simp]: "length (update_where p f rows) = length rows"
  by (simp add: update_where_def)

lemma set_update_where [table_simps]:
  "set (update_where p f rows) = (\<lambda>r. if p r then f r else r) ` set rows"
  by (simp add: update_where_def)

lemma map_update_where:
  "(\<And>r. g (f r) = g r) \<Longrightarrow> map g (update_where p f rows) = map g rows"
  by (simp add: update_where_def)

lemma update_where_cong:
  "(\<And>r. r \<in> set rows \<Longrightarrow> p r = q r) \<Longrightarrow> update_where p f rows = update_where q f rows"
  by (simp add: update_where_def)

lemma update_where_none:
  "(\<And>r. r \<in> set rows \<Longrightarrow> \<not> p r) \<Longrightarrow> update_where p f rows = rows"
  by (simp add: update_where_def map_idI)

subsection \<open>Fallible steps\<close>

text \<open>A Python exception as a value; \<open>Inl\<close> is the exception, \<open>Inr\<close> the result.\<close>

datatype py_error = TypeError | ValueError | KeyError | DbError | ImportError | OverflowError | AttributeError

end
