(* ===== verification/Env_Tiers.thy ===== *)
theory Env_Tiers
  imports Prelude
begin

text \<open>
  \<open>app/env_tiers.py\<close>: the two environments, the vocabulary that recognises them, and the
  fail-safe rule that anything unrecognised is PROD. The locale \<open>fail_safe_tier\<close> is the
  contract the other components (classifier, priority, polling, evaluator) rely on.
\<close>

subsection \<open>Vocabulary\<close>

datatype tier = Prod | Nonprod

definition TIERS :: "tier list" where
  "TIERS = [Prod, Nonprod]"

definition tier_value :: "tier \<Rightarrow> string" where
  "tier_value t = (case t of Prod \<Rightarrow> ''prod'' | Nonprod \<Rightarrow> ''nonprod'')"

definition LABEL :: "tier \<Rightarrow> string" where
  "LABEL t = (case t of Prod \<Rightarrow> ''PROD'' | Nonprod \<Rightarrow> ''NON-PROD'')"

definition PROD_WORDS :: "string list" where
  "PROD_WORDS = [''prod'', ''production'', ''prd'']"

definition NONPROD_WORDS :: "string list" where
  "NONPROD_WORDS =
     [''dev'', ''development'', ''test'', ''testing'', ''sit'', ''uat'', ''qa'', ''qas'',
      ''stage'', ''staging'', ''stg'', ''preprod'', ''preproduction'', ''nonprod'',
      ''nonproduction'', ''nonprd'', ''sandbox'']"

subsection \<open>Folding and recognition\<close>

text \<open>\<open>_STRIP.sub\<close> keeps the characters of \<open>[a-z0-9]\<close>; \<open>_TRAILING_DIGITS.sub\<close> drops a
  final run of digits.\<close>

definition is_word_ch :: "char \<Rightarrow> bool" where
  "is_word_ch c \<longleftrightarrow> is_lower_ch c \<or> is_digit_ch c"

definition drop_trailing_digits :: "string \<Rightarrow> string" where
  "drop_trailing_digits s = rev (dropWhile is_digit_ch (rev s))"

definition fold_word :: "string \<Rightarrow> string" where
  "fold_word value = drop_trailing_digits (filter is_word_ch (lower (strip value)))"

definition recognized_tier :: "string option \<Rightarrow> tier option" where
  "recognized_tier value =
     (case value of
        None \<Rightarrow> None
      | Some v \<Rightarrow>
          (let word = fold_word v in
           if word \<in> set PROD_WORDS then Some Prod
           else if word \<in> set NONPROD_WORDS then Some Nonprod
           else None))"

definition to_tier :: "string option \<Rightarrow> tier" where
  "to_tier value = (case recognized_tier value of None \<Rightarrow> Prod | Some t \<Rightarrow> t)"

definition is_nonprod :: "string option \<Rightarrow> bool" where
  "is_nonprod value \<longleftrightarrow> to_tier value = Nonprod"

definition is_prod :: "string option \<Rightarrow> bool" where
  "is_prod value \<longleftrightarrow> to_tier value = Prod"

definition label :: "string option \<Rightarrow> string" where
  "label value = LABEL (to_tier value)"

subsection \<open>The vocabularies do not overlap\<close>

lemma words_disjoint: "set PROD_WORDS \<inter> set NONPROD_WORDS = {}"
  by (simp add: PROD_WORDS_def NONPROD_WORDS_def)

lemma recognized_prod_iff:
  "recognized_tier (Some v) = Some Prod \<longleftrightarrow> fold_word v \<in> set PROD_WORDS"
  by (simp add: recognized_tier_def Let_def)

lemma recognized_nonprod_iff:
  "recognized_tier (Some v) = Some Nonprod \<longleftrightarrow> fold_word v \<in> set NONPROD_WORDS"
  using words_disjoint by (auto simp: recognized_tier_def Let_def)

lemma recognized_None [simp]: "recognized_tier None = None"
  by (simp add: recognized_tier_def)

lemma to_tier_None [simp]: "to_tier None = Prod"
  by (simp add: to_tier_def)

lemma to_tier_unrecognised: "recognized_tier v = None \<Longrightarrow> to_tier v = Prod"
  by (simp add: to_tier_def)

lemma to_tier_recognised: "recognized_tier v = Some t \<Longrightarrow> to_tier v = t"
  by (simp add: to_tier_def)

lemma to_tier_Nonprod_iff:
  "to_tier v = Nonprod \<longleftrightarrow> recognized_tier v = Some Nonprod"
  by (auto simp: to_tier_def split: option.splits)

lemma is_prod_iff: "is_prod v \<longleftrightarrow> \<not> is_nonprod v"
  by (cases "to_tier v") (auto simp: is_prod_def is_nonprod_def)

lemma stored_values [simp]:
  "recognized_tier (Some ''prod'') = Some Prod"
  "recognized_tier (Some ''nonprod'') = Some Nonprod"
  by code_simp+

lemma recognized_tier_value [simp]: "recognized_tier (Some (tier_value t)) = Some t"
  by (cases t) (simp_all add: tier_value_def)

lemma to_tier_value [simp]: "to_tier (Some (tier_value t)) = t"
  by (simp add: to_tier_def)

subsection \<open>What folding ignores\<close>

lemma filter_word_strip: "filter is_word_ch (strip s) = filter is_word_ch s"
proof -
  have sp: "is_space_ch c \<Longrightarrow> \<not> is_word_ch c" for c
    by (auto simp: is_space_ch_def is_word_ch_def is_lower_ch_def is_digit_ch_def)
  have dw: "filter is_word_ch (dropWhile is_space_ch t) = filter is_word_ch t" for t
    by (induction t) (auto dest: sp)
  show ?thesis
    by (simp add: strip_def dw flip: rev_filter)
qed

text \<open>Folding sees only the letters and digits, in lower case.\<close>

lemma fold_word_eq: "fold_word v = drop_trailing_digits (filter is_word_ch (lower v))"
  by (simp add: fold_word_def lower_strip filter_word_strip)

lemma fold_word_cong:
  "filter is_word_ch (lower v) = filter is_word_ch (lower w) \<Longrightarrow> fold_word v = fold_word w"
  by (simp add: fold_word_eq)

lemma drop_trailing_digits_append:
  "list_all is_digit_ch ds \<Longrightarrow> drop_trailing_digits (s @ ds) = drop_trailing_digits s"
  by (induction ds arbitrary: s rule: rev_induct) (auto simp: drop_trailing_digits_def)

lemma fold_word_trailing_digits:
  assumes "list_all is_digit_ch ds"
  shows "fold_word (v @ ds) = fold_word v"
proof -
  have low: "lower_ch c = c" if "is_digit_ch c" for c
    using that by (auto simp: lower_ch_def is_digit_ch_def is_upper_ch_def)
  have "filter is_word_ch (lower ds) = ds"
    using assms low by (induction ds) (auto simp: lower_def is_word_ch_def)
  then show ?thesis
    using assms by (simp add: fold_word_eq drop_trailing_digits_append)
qed

subsection \<open>The fail-safe contract\<close>

text \<open>
  A client that ranks environments needs only this: a label is NON-PROD exactly when it was
  recognised as such, so an unknown label is treated like production.
\<close>

locale fail_safe_tier =
  fixes tier_of :: "'l \<Rightarrow> tier" and recognised :: "'l \<Rightarrow> tier option"
  assumes nonprod_recognised: "tier_of l = Nonprod \<longleftrightarrow> recognised l = Some Nonprod"
begin

lemma unrecognised_prod: "recognised l = None \<Longrightarrow> tier_of l = Prod"
  using nonprod_recognised by (metis option.distinct(1) tier.exhaust)

lemma recognised_tier: "recognised l = Some t \<Longrightarrow> tier_of l = t"
  using nonprod_recognised [of l] by (cases t; cases "tier_of l") auto

text \<open>A rank that is weaker only for NON-PROD never ranks an unknown label below PROD.\<close>

lemma unknown_as_strong_as_prod:
  fixes rank :: "tier \<Rightarrow> 'r::linorder"
  assumes "recognised l = None"
  shows "rank (tier_of l) = rank Prod"
  using assms by (simp add: unrecognised_prod)

end

interpretation tiers: fail_safe_tier to_tier recognized_tier
  by unfold_locales (rule to_tier_Nonprod_iff)

text \<open>Spaces, dashes, capitals and a trailing number do not change the tier a label names.\<close>

lemma tier_decoration:
  assumes "filter is_word_ch (lower w) = filter is_word_ch (lower v)" and "list_all is_digit_ch ds"
  shows "recognized_tier (Some (w @ ds)) = recognized_tier (Some v) \<and> to_tier (Some (w @ ds)) = to_tier (Some v)"
proof -
  have "fold_word (w @ ds) = fold_word v"
    using fold_word_trailing_digits [OF assms(2), of w] fold_word_cong [OF assms(1)] by simp
  then show ?thesis by (simp add: recognized_tier_def to_tier_def)
qed

end
