(* ===== verification/Env_Scan.thy ===== *)
theory Env_Scan
  imports Env_Tiers
begin

text \<open>
  The text side of \<open>app/environment_classifier.py\<close>: the three phrase patterns
  (\<open>_PRE_PROD\<close>, \<open>_NON_PROD\<close>, \<open>_DEVOPS\<close>), the camelCase splits, tokenising, and \<open>_scan\<close>, which
  turns a name or a tag value into the list of tiers it mentions. The regular expressions are
  written as matchers at a position; their look-behind is the flag \<open>prev\<close> (the previous
  character was alphanumeric).
\<close>

subsection \<open>Character classes\<close>

definition is_letter_ch :: "char \<Rightarrow> bool" where
  "is_letter_ch c \<longleftrightarrow> is_lower_ch c \<or> is_upper_ch c"

definition is_alnum_ch :: "char \<Rightarrow> bool" where
  "is_alnum_ch c \<longleftrightarrow> is_letter_ch c \<or> is_digit_ch c"

definition is_sep_ch :: "char \<Rightarrow> bool" where
  "is_sep_ch c \<longleftrightarrow> is_space_ch c \<or> c \<in> set ''_-./:''"

subsection \<open>Matching a phrase at a position\<close>

text \<open>A matcher returns the rest of the text after the match.\<close>

definition match_word :: "string \<Rightarrow> string \<Rightarrow> string option" where
  "match_word w s = (if startswith (lower s) w then Some (drop (length w) s) else None)"

definition not_letter_next :: "string \<Rightarrow> bool" where
  "not_letter_next s = (case s of [] \<Rightarrow> True | c # _ \<Rightarrow> \<not> is_letter_ch c)"

definition skip_seps :: "string \<Rightarrow> string" where
  "skip_seps s = dropWhile is_sep_ch s"

definition match_word_end :: "string \<Rightarrow> string \<Rightarrow> string option" where
  "match_word_end w s =
     (case match_word w s of
        Some r \<Rightarrow> if not_letter_next r then Some r else None
      | None \<Rightarrow> None)"

text \<open>\<open>prod(?:uction)?(?![a-z])\<close>: the long form first, then the short one.\<close>

definition match_prod :: "string \<Rightarrow> string option" where
  "match_prod s =
     (case match_word_end ''production'' s of
        Some r \<Rightarrow> Some r
      | None \<Rightarrow> match_word_end ''prod'' s)"

definition match_prefixed_prod :: "string \<Rightarrow> string \<Rightarrow> string option" where
  "match_prefixed_prod pre s =
     (case match_word pre s of None \<Rightarrow> None | Some r \<Rightarrow> match_prod (skip_seps r))"

definition optional_sec :: "string \<Rightarrow> string" where
  "optional_sec s = (case match_word ''sec'' s of None \<Rightarrow> s | Some r \<Rightarrow> skip_seps r)"

definition match_devops :: "string \<Rightarrow> string option" where
  "match_devops s =
     (case match_word ''dev'' (optional_sec s) of
        None \<Rightarrow> None
      | Some r \<Rightarrow> match_word_end ''ops'' (optional_sec (skip_seps r)))"

subsection \<open>Substitution\<close>

text \<open>
  \<open>pattern.sub(rep, s)\<close> for a pattern that starts with \<open>(?<![a-z0-9])\<close>: \<open>skip\<close> counts the
  characters of the current match still to be consumed. The second component lists the matched
  texts, in order.
\<close>

fun re_sub ::
  "(string \<Rightarrow> string option) \<Rightarrow> string \<Rightarrow> bool \<Rightarrow> nat \<Rightarrow> string \<Rightarrow> string \<times> string list" where
  "re_sub m rep prev skip [] = ([], [])"
| "re_sub m rep prev (Suc k) (c # cs) = re_sub m rep (is_alnum_ch c) k cs"
| "re_sub m rep prev 0 (c # cs) =
     (case (if prev then None else m (c # cs)) of
        Some r \<Rightarrow>
          (let n = length (c # cs) - length r;
               res = re_sub m rep (is_alnum_ch c) (n - 1) cs
           in (rep @ fst res, take n (c # cs) # snd res))
      | None \<Rightarrow>
          (let res = re_sub m rep (is_alnum_ch c) 0 cs in (c # fst res, snd res)))"

fun camel_1 :: "string \<Rightarrow> string" where
  "camel_1 (a # b # cs) =
     (if (is_lower_ch a \<or> is_digit_ch a) \<and> is_upper_ch b
      then a # CHR '' '' # camel_1 (b # cs) else a # camel_1 (b # cs))"
| "camel_1 s = s"

fun camel_2 :: "string \<Rightarrow> string" where
  "camel_2 (a # b # c # cs) =
     (if is_upper_ch a \<and> is_upper_ch b \<and> is_lower_ch c
      then a # CHR '' '' # camel_2 (b # c # cs) else a # camel_2 (b # c # cs))"
| "camel_2 s = s"

text \<open>\<open>_NON_ALNUM.split\<close> without the empty pieces: the maximal alphanumeric runs.\<close>

fun tokens_acc :: "string \<Rightarrow> string \<Rightarrow> string list" where
  "tokens_acc acc [] = (if acc = [] then [] else [rev acc])"
| "tokens_acc acc (c # cs) =
     (if is_alnum_ch c then tokens_acc (c # acc) cs
      else (if acc = [] then tokens_acc [] cs else rev acc # tokens_acc [] cs))"

definition tokens :: "string \<Rightarrow> string list" where
  "tokens s = tokens_acc [] s"

subsection \<open>\<open>_scan\<close>\<close>

definition WORD_TIER :: "string \<Rightarrow> tier option" where
  "WORD_TIER w =
     (if w \<in> set NONPROD_WORDS then Some Nonprod
      else if w \<in> set PROD_WORDS then Some Prod else None)"

definition token_base :: "string \<Rightarrow> string" where
  "token_base tok = drop_trailing_digits (lower tok)"

fun token_hits :: "string list \<Rightarrow> (tier \<times> string) list" where
  "token_hits [] = []"
| "token_hits (tok # toks) =
     (case WORD_TIER (token_base tok) of
        Some t \<Rightarrow> (t, token_base tok) # token_hits toks
      | None \<Rightarrow> token_hits toks)"

definition phrase_hits :: "string list \<Rightarrow> (tier \<times> string) list" where
  "phrase_hits ms = map (\<lambda>m. (Nonprod, lower (strip m))) ms"

definition scan_text :: "string \<Rightarrow> (tier \<times> string) list" where
  "scan_text s0 =
     (let r1 = re_sub (match_prefixed_prod ''pre'') '' '' False 0 s0;
          r2 = re_sub (match_prefixed_prod ''non'') '' '' False 0 (fst r1);
          s1 = camel_2 (camel_1 (fst r2));
          s2 = fst (re_sub match_devops '' '' False 0 s1)
      in phrase_hits (snd r1) @ phrase_hits (snd r2) @ token_hits (tokens s2))"

text \<open>The two result lists of \<open>_scan\<close>, tiers and words, are kept paired.\<close>

definition scan :: "string option \<Rightarrow> (tier \<times> string) list" where
  "scan text = (case text of None \<Rightarrow> [] | Some s \<Rightarrow> scan_text s)"

definition scan_tiers :: "string option \<Rightarrow> tier list" where
  "scan_tiers text = map fst (scan text)"

definition normalize_tier :: "string option \<Rightarrow> tier option" where
  "normalize_tier value =
     (case scan_tiers value of
        [] \<Rightarrow> None
      | t # ts \<Rightarrow> if list_all (\<lambda>u. u = t) ts then Some t else None)"

subsection \<open>Facts about the scan\<close>

lemma scan_None [simp]: "scan None = []"
  by (simp add: scan_def)

text \<open>A word of the vocabulary says in a scan what it says to \<open>recognized_tier\<close>.\<close>

lemma WORD_TIER_Some:
  "WORD_TIER w = Some t \<longleftrightarrow>
     (t = Prod \<and> w \<in> set PROD_WORDS \<or> t = Nonprod \<and> w \<in> set NONPROD_WORDS)"
  using words_disjoint by (auto simp: WORD_TIER_def)

lemma token_hits_tier:
  "(t, w) \<in> set (token_hits toks) \<Longrightarrow> WORD_TIER w = Some t"
  by (induction toks rule: token_hits.induct) (auto split: option.splits)

lemma normalize_tier_Some:
  "normalize_tier v = Some t \<longleftrightarrow> scan_tiers v \<noteq> [] \<and> list_all (\<lambda>u. u = t) (scan_tiers v)"
  by (cases "scan_tiers v") (auto simp: normalize_tier_def)

subsection \<open>The documented examples\<close>

lemma scan_examples:
  "scan_tiers (Some ''prod01'') = [Prod]"
  "scan_tiers (Some ''dev2'') = [Nonprod]"
  "scan_tiers (Some ''product-contest-latest'') = []"
  "scan_tiers (Some ''Pre-Prod'') = [Nonprod]"
  "scan_tiers (Some ''NonProduction'') = [Nonprod]"
  "scan_tiers (Some ''prod-to-dev-sync'') = [Prod, Nonprod]"
  "scan_tiers (Some ''DevOps-Jenkins'') = []"
  "scan_tiers (Some ''DevSecOpsRunner'') = []"
  "scan_tiers (Some ''webDevServer'') = [Nonprod]"
  by code_simp+

end
