(* ===== verification/Env_Classifier.thy ===== *)
theory Env_Classifier
  imports Env_Scan
begin

text \<open>
  \<open>app/environment_classifier.py\<close>: resolving the environment of a resource (manual override,
  tag, name, attached resource, account default, unknown) and the evaluator's severity rule.
  Reason texts are kept as the values they are
  formatted from (\<open>reason\<close>); their rendering and the clipping to 200 characters are not
  modelled.
\<close>

subsection \<open>Tags\<close>

text \<open>
  A tag value is a JSON value: \<open>JNull\<close>, a string, or any other value with the text \<open>str\<close> gives
  for it. The column \<open>resources.tags\<close> reaches the functions as NULL, as text (represented by
  what \<open>json.loads\<close> makes of it, \<open>LBad\<close> where it raises) or as a dictionary.
\<close>

datatype jval = JNull | JStr string | JOther string

type_synonym tags_dict = "(string, jval) dict"

datatype loads_result = LBad | LNonObject | LObject tags_dict

datatype raw_tags = TagsNull | TagsText loads_result | TagsDict tags_dict

definition py_str :: "jval \<Rightarrow> string" where
  "py_str v = (case v of JNull \<Rightarrow> ''None'' | JStr s \<Rightarrow> s | JOther s \<Rightarrow> s)"

definition jval_opt :: "jval \<Rightarrow> string option" where
  "jval_opt v = (case v of JNull \<Rightarrow> None | JStr s \<Rightarrow> Some s | JOther s \<Rightarrow> Some s)"

definition tags_dict :: "raw_tags \<Rightarrow> tags_dict" where
  "tags_dict tags =
     (case tags of
        TagsDict d \<Rightarrow> d
      | TagsText r \<Rightarrow> (case r of LObject d \<Rightarrow> d | LBad \<Rightarrow> [] | LNonObject \<Rightarrow> [])
      | TagsNull \<Rightarrow> [])"

text \<open>\<open>_fold_key\<close>: strip, lower-case, each run of \<open>[-. \<close> whitespace\<open>]\<close> becomes one underscore.\<close>

definition is_key_sep :: "char \<Rightarrow> bool" where
  "is_key_sep c \<longleftrightarrow> c \<in> set ''-.'' \<or> is_space_ch c"

fun collapse_seps :: "bool \<Rightarrow> string \<Rightarrow> string" where
  "collapse_seps inrun [] = []"
| "collapse_seps inrun (c # cs) =
     (if is_key_sep c then (if inrun then collapse_seps True cs else CHR ''_'' # collapse_seps True cs)
      else c # collapse_seps False cs)"

definition fold_key :: "string \<Rightarrow> string" where
  "fold_key k = collapse_seps False (lower (strip k))"

definition TAG_KEYS :: "string list" where
  "TAG_KEYS =
     [''environment'', ''env'', ''stage'', ''deployment_environment'', ''app_env'',
      ''appenv'', ''env_type'', ''environment_type'', ''envtype'']"

fun folded_tags :: "tags_dict \<Rightarrow> (string, string \<times> jval) dict \<Rightarrow> (string, string \<times> jval) dict" where
  "folded_tags [] acc = acc"
| "folded_tags ((k, v) # kvs) acc = folded_tags kvs (dict_setdefault acc (fold_key k) (k, v))"

subsection \<open>Resolutions\<close>

datatype source = SManual | STag | SName | SRelated | SAccount | SUnknown

datatype reason =
    RSetByUser
  | RTag string jval
  | RToken string string string
  | RNameConflict string "string list" string
  | RAttached string tier source
  | RRelatedDisagree "(string \<times> tier) list"
  | RAccountDefault
  | RNothing

record resolution =
  env :: tier
  src :: source
  why :: reason

definition RELATED_PARENT_SOURCES :: "source list" where
  "RELATED_PARENT_SOURCES = [SManual, STag, SName]"

text \<open>The first tag key, in priority order, whose value names exactly one tier.\<close>

fun first_tag_hit :: "(string, string \<times> jval) dict \<Rightarrow> string list \<Rightarrow> resolution option" where
  "first_tag_hit folded [] = None"
| "first_tag_hit folded (key # keys) =
     (case dict_get folded key of
        None \<Rightarrow> first_tag_hit folded keys
      | Some (orig_key, value) \<Rightarrow>
          (case normalize_tier (jval_opt value) of
             Some t \<Rightarrow> Some \<lparr>env = t, src = STag, why = RTag orig_key value\<rparr>
           | None \<Rightarrow> first_tag_hit folded keys))"

definition from_tags :: "raw_tags \<Rightarrow> resolution option" where
  "from_tags tags = first_tag_hit (folded_tags (tags_dict tags) []) TAG_KEYS"

text \<open>The name is tried before the ID; the first conflict is remembered.\<close>

fun from_texts :: "(string \<times> string option) list \<Rightarrow> resolution option \<Rightarrow> resolution option" where
  "from_texts [] conflict = conflict"
| "from_texts ((lbl, text) # rest) conflict =
     (let hits = scan text in
      if hits = [] then from_texts rest conflict
      else
        (case normalize_tier text of
           Some t \<Rightarrow> Some \<lparr>env = t, src = SName, why = RToken lbl (snd (hd hits)) (the text)\<rparr>
         | None \<Rightarrow>
             from_texts rest
               (case conflict of
                  Some c \<Rightarrow> Some c
                | None \<Rightarrow>
                    Some \<lparr>env = Prod, src = SUnknown,
                          why = RNameConflict lbl (remdups (map snd hits)) (the text)\<rparr>)))"

definition from_name :: "string option \<Rightarrow> string option \<Rightarrow> resolution option" where
  "from_name name resource_id = from_texts [(''name'', name), (''id'', resource_id)] None"

definition usable_parents :: "(resolution \<times> string) list \<Rightarrow> (resolution \<times> string) list" where
  "usable_parents related = filter (\<lambda>(r, lbl). src r \<in> set RELATED_PARENT_SOURCES) related"

definition from_related :: "(resolution \<times> string) list \<Rightarrow> resolution option" where
  "from_related related =
     (let usable = usable_parents related in
      (case usable of
         [] \<Rightarrow> None
       | (r, lbl) # rest \<Rightarrow>
           if \<exists>u\<in>set usable. env (fst u) \<noteq> env r
           then Some \<lparr>env = Prod, src = SUnknown,
                       why = RRelatedDisagree (map (\<lambda>(q, l). (l, env q)) usable)\<rparr>
           else Some \<lparr>env = env r, src = SRelated, why = RAttached lbl (env r) (src r)\<rparr>))"

text \<open>An override: a recognised tier, or the old value "ignore", which means PROD.\<close>

definition manual_choice :: "string option \<Rightarrow> tier option" where
  "manual_choice override =
     (if truthy_str override then
        (let ov = lower (strip (the override)) in
         case recognized_tier (Some ov) of
           Some t \<Rightarrow> Some t
         | None \<Rightarrow> (if ov = ''ignore'' then Some Prod else None))
      else None)"

definition UNKNOWN_RESOLUTION :: resolution where
  "UNKNOWN_RESOLUTION = \<lparr>env = Prod, src = SUnknown, why = RNothing\<rparr>"

definition account_or_unknown :: "string option \<Rightarrow> resolution" where
  "account_or_unknown account_default =
     (case (if truthy_str account_default then recognized_tier account_default else None) of
        Some d \<Rightarrow> \<lparr>env = d, src = SAccount, why = RAccountDefault\<rparr>
      | None \<Rightarrow> UNKNOWN_RESOLUTION)"

definition resolve_environment ::
  "string option \<Rightarrow> raw_tags \<Rightarrow> string option \<Rightarrow> string option \<Rightarrow> string option
   \<Rightarrow> (resolution \<times> string) list \<Rightarrow> resolution" where
  "resolve_environment override tags name resource_id account_default related =
     (case manual_choice override of
        Some t \<Rightarrow> \<lparr>env = t, src = SManual, why = RSetByUser\<rparr>
      | None \<Rightarrow>
     (case from_tags tags of
        Some hit \<Rightarrow> hit
      | None \<Rightarrow>
     (let name_hit = from_name name resource_id in
      if (case name_hit of Some h \<Rightarrow> src h \<noteq> SUnknown | None \<Rightarrow> False) then the name_hit
      else
     (case from_related related of
        Some rel \<Rightarrow> rel
      | None \<Rightarrow>
     (case name_hit of
        Some conflict \<Rightarrow> conflict
      | None \<Rightarrow> account_or_unknown account_default)))))"

subsection \<open>Severity\<close>

datatype severity = CRITICAL | WARNING | INFO

definition is_prod_like :: "string option \<Rightarrow> bool" where
  "is_prod_like e \<longleftrightarrow> \<not> is_nonprod e"

definition severity_for :: "string option \<Rightarrow> bool \<Rightarrow> severity" where
  "severity_for e is_critical =
     (if is_critical then CRITICAL else if is_prod_like e then WARNING else INFO)"

subsection \<open>What each source guarantees\<close>

lemma first_tag_hit_src: "first_tag_hit f ks = Some r \<Longrightarrow> src r = STag"
  by (induction f ks rule: first_tag_hit.induct) (auto split: option.splits prod.splits)

lemma from_tags_src: "from_tags tags = Some r \<Longrightarrow> src r = STag"
  by (simp add: from_tags_def first_tag_hit_src)

lemma from_texts_src:
  assumes "from_texts ts c = Some r" and "\<And>x. c = Some x \<Longrightarrow> src x = SUnknown \<and> env x = Prod"
  shows "src r = SName \<or> (src r = SUnknown \<and> env r = Prod)"
  using assms
proof (induction ts arbitrary: c)
  case Nil
  then show ?case by simp
next
  case (Cons p rest)
  obtain lbl tx where p: "p = (lbl, tx)" by (cases p)
  show ?case
  proof (cases "scan tx = []")
    case True
    with Cons.prems p have "from_texts rest c = Some r" by (simp add: Let_def)
    then show ?thesis using Cons.prems(2) by (rule Cons.IH)
  next
    case scan: False
    show ?thesis
    proof (cases "normalize_tier tx")
      case (Some t)
      with Cons.prems(1) p scan show ?thesis by (auto simp: Let_def)
    next
      case None
      let ?c = "case c of Some x \<Rightarrow> Some x | None \<Rightarrow>
        Some \<lparr>env = Prod, src = SUnknown, why = RNameConflict lbl (remdups (map snd (scan tx))) (the tx)\<rparr>"
      from Cons.prems(1) p scan None have "from_texts rest ?c = Some r" by (simp add: Let_def)
      moreover have "src x = SUnknown \<and> env x = Prod" if "?c = Some x" for x
        using that Cons.prems(2) by (auto split: option.splits)
      ultimately show ?thesis by (rule Cons.IH)
    qed
  qed
qed

lemma from_name_src:
  "from_name n i = Some r \<Longrightarrow> src r = SName \<or> (src r = SUnknown \<and> env r = Prod)"
  by (rule from_texts_src [of "[(''name'', n), (''id'', i)]" None]) (auto simp: from_name_def)

lemma from_related_src:
  "from_related rel = Some r \<Longrightarrow> src r = SRelated \<or> (src r = SUnknown \<and> env r = Prod)"
  by (auto simp: from_related_def Let_def split: list.splits if_splits)

lemma account_or_unknown_src:
  "src (account_or_unknown d) = SAccount \<or> account_or_unknown d = UNKNOWN_RESOLUTION"
  by (auto simp: account_or_unknown_def split: option.splits)

lemmas resolution_sources = from_tags_src from_name_src from_related_src

text \<open>Inherited environments come only from parents that rest on their own evidence.\<close>

lemma from_related_evidence:
  assumes "from_related rel = Some r" and "src r = SRelated"
  shows "\<exists>p lbl. (p, lbl) \<in> set rel \<and> env p = env r \<and> src p \<in> set RELATED_PARENT_SOURCES"
proof -
  from assms obtain p lbl rest where u: "usable_parents rel = (p, lbl) # rest" and e: "env r = env p"
    by (auto simp: from_related_def Let_def split: list.splits if_splits)
  from u have "(p, lbl) \<in> set (usable_parents rel)" by simp
  then show ?thesis using e by (auto simp: usable_parents_def)
qed

lemma resolve_manual:
  "manual_choice ov = Some t \<Longrightarrow>
     resolve_environment ov tags n i d rel = \<lparr>env = t, src = SManual, why = RSetByUser\<rparr>"
  by (simp add: resolve_environment_def)

lemma resolve_tag:
  "manual_choice ov = None \<Longrightarrow> from_tags tags = Some r \<Longrightarrow>
     resolve_environment ov tags n i d rel = r"
  by (simp add: resolve_environment_def)

lemma resolve_unknown_is_prod:
  "src (resolve_environment ov tags n i d rel) = SUnknown \<Longrightarrow>
     env (resolve_environment ov tags n i d rel) = Prod"
  by (auto simp: resolve_environment_def Let_def account_or_unknown_def UNKNOWN_RESOLUTION_def
      dest: resolution_sources split: option.splits if_splits)

text \<open>What is left when neither an override nor a tag decides.\<close>

lemma resolve_untagged:
  assumes "manual_choice ov = None" "from_tags tags = None"
  shows "case src (resolve_environment ov tags n i d rel) of
      SManual \<Rightarrow> False
    | STag \<Rightarrow> False
    | SUnknown \<Rightarrow> env (resolve_environment ov tags n i d rel) = Prod
    | SRelated \<Rightarrow> (\<exists>p lbl. (p, lbl) \<in> set rel \<and> env p = env (resolve_environment ov tags n i d rel) \<and>
         src p \<in> set RELATED_PARENT_SOURCES)
    | SName \<Rightarrow> from_name n i = Some (resolve_environment ov tags n i d rel)
    | SAccount \<Rightarrow> from_name n i = None \<and> from_related rel = None"
proof -
  let ?r = "resolve_environment ov tags n i d rel"
  consider (name) h where "from_name n i = Some h" "src h = SName" "?r = h"
    | (rel) q where "from_related rel = Some q" "?r = q"
    | (conflict) h where "from_name n i = Some h" "src h = SUnknown" "env h = Prod" "?r = h"
    | (acct) "from_name n i = None" "from_related rel = None" "?r = account_or_unknown d"
  proof (cases "from_name n i")
    case None
    then show ?thesis using rel acct assms
      by (cases "from_related rel") (simp_all add: resolve_environment_def)
  next
    case (Some h)
    then show ?thesis using from_name_src [OF Some] name rel conflict assms
      by (cases "from_related rel") (auto simp: resolve_environment_def Let_def)
  qed
  then show ?thesis
  proof cases
    case (rel q)
    then show ?thesis using from_related_src [OF rel(1)] from_related_evidence [OF rel(1)] by auto
  next
    case acct
    then show ?thesis
      by (auto simp: account_or_unknown_def UNKNOWN_RESOLUTION_def split: option.splits)
  qed simp_all
qed

end
