(* ===== verification/Alert_Tables.thy ===== *)
theory Alert_Tables
  imports Env_Classifier
begin

text \<open>
  The rows the alert engine reads and writes: \<open>alerts\<close>, \<open>alert_pending\<close>, \<open>resources\<close> and
  \<open>aws_accounts\<close>, with the columns the Python of \<open>app/collector/alert_evaluator.py\<close>,
  \<open>maintenance.py\<close>, \<open>escalation.py\<close> and \<open>app/alert_rules.py\<close> names. Alert rows are kept in the
  order of their ids; \<open>al_group_key\<close> keeps the three parts the text is formatted from. String
  comparison in SQL is taken to be exact.
\<close>

datatype status = Active | Acknowledged | Resolved

record alert =
  al_id :: nat
  al_account :: "nat option"
  al_resource :: string
  al_metric :: string
  al_severity :: severity
  al_environment :: tier
  al_group_key :: "nat \<times> string \<times> string"
  al_status :: status
  al_triggered_at :: secs
  al_last_seen_at :: "secs option"
  al_cycle_at :: "secs option"
  al_healthy_streak :: nat
  al_current_value :: "num_value option"
  al_threshold :: "num_value option"
  al_breach_value :: "num_value option"
  al_breach_threshold :: "num_value option"
  al_silenced :: bool
  al_silenced_reason :: "string option"
  al_muted_until :: "secs option"
  al_acked :: bool
  al_acked_by :: "string option"
  al_acked_at :: "secs option"
  al_resolved_at :: "secs option"
  al_resolution_reason :: "string option"
  al_resolved_by :: "string option"
  al_escalated_at :: "secs option"
  al_escalated_group :: "nat option"

record pending =
  pd_account :: nat
  pd_resource :: string
  pd_metric :: string
  pd_severity :: severity
  pd_environment :: tier
  pd_first_breach_at :: secs
  pd_last_seen_at :: secs
  pd_breach_cycles :: nat
  pd_cycle_at :: "secs option"
  pd_current_value :: "num_value option"
  pd_threshold :: "num_value option"

record resource =
  rs_id :: nat
  rs_account :: nat
  rs_resource_id :: string
  rs_type :: string
  rs_tags :: raw_tags
  rs_env_resolved :: "string option"
  rs_last_seen_at :: "secs option"
  rs_instance_state :: "string option"

record account =
  ac_id :: nat
  ac_active :: bool
  ac_provider :: string
  ac_name :: string

definition is_open :: "alert \<Rightarrow> bool" where
  "is_open a \<longleftrightarrow> al_status a = Active \<or> al_status a = Acknowledged"

text \<open>\<open>COALESCE(last_seen_at, triggered_at)\<close>.\<close>

definition seen_at :: "alert \<Rightarrow> secs" where
  "seen_at a = (case al_last_seen_at a of Some t \<Rightarrow> t | None \<Rightarrow> al_triggered_at a)"

lemma is_open_iff: "is_open a \<longleftrightarrow> al_status a \<noteq> Resolved"
  by (cases "al_status a") (auto simp: is_open_def)

subsection \<open>Keys\<close>

type_synonym alert_key = "nat \<times> string \<times> string"

definition key_matches :: "alert_key \<Rightarrow> alert \<Rightarrow> bool" where
  "key_matches k a \<longleftrightarrow>
     (case k of (acct, rid, m) \<Rightarrow> al_account a = Some acct \<and> al_resource a = rid \<and> al_metric a = m)"

definition pending_key :: "pending \<Rightarrow> alert_key" where
  "pending_key p = (pd_account p, pd_resource p, pd_metric p)"

text \<open>The identity columns of an alert, which no update of the engine writes.\<close>

definition alert_ident :: "alert \<Rightarrow> nat \<times> nat option \<times> string \<times> string \<times> secs" where
  "alert_ident a = (al_id a, al_account a, al_resource a, al_metric a, al_triggered_at a)"

lemma key_matches_ident: "alert_ident a = alert_ident b \<Longrightarrow> key_matches k a = key_matches k b"
  by (auto simp: alert_ident_def key_matches_def split: prod.splits)

text \<open>At most one open alert per (account, resource, metric).\<close>

definition open_count :: "alert_key \<Rightarrow> alert list \<Rightarrow> nat" where
  "open_count k as = length (filter (\<lambda>a. key_matches k a \<and> is_open a) as)"

definition one_open_per_key :: "alert list \<Rightarrow> bool" where
  "one_open_per_key as \<longleftrightarrow> (\<forall>k. open_count k as \<le> 1)"

lemma open_count_Nil [simp]: "open_count k [] = 0"
  by (simp add: open_count_def)

lemma open_count_append: "open_count k (as @ bs) = open_count k as + open_count k bs"
  by (simp add: open_count_def)

lemma open_count_Cons:
  "open_count k (a # as) = (if key_matches k a \<and> is_open a then 1 else 0) + open_count k as"
  by (simp add: open_count_def)

text \<open>An update that keeps the identity and opens nothing cannot add an open alert.\<close>

lemma open_count_update_where:
  assumes "\<And>a. alert_ident (f a) = alert_ident a" and "\<And>a. p a \<Longrightarrow> is_open (f a) \<Longrightarrow> is_open a"
  shows "open_count k (update_where p f as) \<le> open_count k as"
proof (induction as)
  case (Cons a as)
  have "key_matches k (f a) = key_matches k a" by (rule key_matches_ident) (rule assms(1))
  with Cons assms(2) [of a] show ?case
    by (auto simp: update_where_Cons open_count_Cons)
qed simp

lemma one_open_update_where:
  "(\<And>a. alert_ident (f a) = alert_ident a) \<Longrightarrow> (\<And>a. p a \<Longrightarrow> is_open (f a) \<Longrightarrow> is_open a)
   \<Longrightarrow> one_open_per_key as \<Longrightarrow> one_open_per_key (update_where p f as)"
  unfolding one_open_per_key_def using open_count_update_where by (meson order_trans)

lemma key_matches_unique: "key_matches k a \<Longrightarrow> key_matches k' a \<Longrightarrow> k = k'"
  by (auto simp: key_matches_def split: prod.splits)

lemma one_open_append:
  assumes "one_open_per_key as" and "open_count k as = 0" and "key_matches k a"
  shows "one_open_per_key (as @ [a])"
proof -
  have "open_count k' (as @ [a]) \<le> 1" for k'
  proof (cases "key_matches k' a")
    case True
    then have "k' = k" using assms(3) by (rule key_matches_unique)
    then show ?thesis using assms(2) by (simp add: open_count_append open_count_Cons)
  next
    case False
    have "open_count k' as \<le> 1" using assms(1) unfolding one_open_per_key_def by blast
    with False show ?thesis by (simp add: open_count_append open_count_Cons)
  qed
  then show ?thesis by (simp add: one_open_per_key_def)
qed

subsection \<open>The pending table as a keyed store\<close>

definition pending_get :: "pending list \<Rightarrow> alert_key \<Rightarrow> pending option" where
  "pending_get ps k = find (\<lambda>p. pending_key p = k) ps"

definition pending_del :: "pending list \<Rightarrow> alert_key \<Rightarrow> pending list" where
  "pending_del ps k = filter (\<lambda>p. pending_key p \<noteq> k) ps"

lemma pending_get_key: "pending_get ps k = Some p \<Longrightarrow> pending_key p = k"
  by (auto simp: pending_get_def find_Some_iff)

lemma pending_get_single: "pending_get [p] k = (if pending_key p = k then Some p else None)"
  by (simp add: pending_get_def)

lemma pending_get_append:
  "pending_get (ps @ qs) k = (case pending_get ps k of Some p \<Rightarrow> Some p | None \<Rightarrow> pending_get qs k)"
  by (induction ps) (auto simp: pending_get_def)

lemma pending_get_del [simp]:
  "pending_get (pending_del ps k) k' = (if k' = k then None else pending_get ps k')"
  by (induction ps) (auto simp: pending_get_def pending_del_def)

lemma pending_get_update:
  assumes "\<And>p. pending_key (f p) = pending_key p"
  shows "pending_get (update_where (\<lambda>p. pending_key p = k) f ps) k' =
     (if k' = k then map_option f (pending_get ps k) else pending_get ps k')"
  using assms by (induction ps) (auto simp: pending_get_def update_where_Cons)

end
