(* ===== verification/Provider_Tiers.thy ===== *)
theory Provider_Tiers
  imports Prelude
begin

text \<open>
  \<open>app/providers/azure/severity_tiers.py\<close> and \<open>app/providers/gcp/severity_tiers.py\<close>: the
  polling tier of every curated Azure and GCP metric. A map from services to sets of metric
  names is a dictionary of lists; only membership is used. The curated catalogue is the
  argument the functions take (\<open>curated\<close>).
\<close>

datatype poll_tier = Critical | Standard | Low | Extended | Slow_Extended

datatype category = Core | ExtendedCat | Directory

type_synonym allowlist = "(string, string list) dict"
type_synonym curated = "(string \<times> category \<times> string list) list"

subsection \<open>Allowlists\<close>

definition names_of :: "allowlist \<Rightarrow> string \<Rightarrow> string list" where
  "names_of m service = (case dict_get m service of Some ns \<Rightarrow> ns | None \<Rightarrow> [])"

definition az_CRITICAL_METRICS :: allowlist where
  "az_CRITICAL_METRICS =
    [(''vm'', [''VM Availability Metric'']), (''storage_account'', [''Availability'']),
     (''sql_database'', [''connection_failed'']),
     (''app_service'', [''HealthCheckStatus'', ''Http5xx''])]"

definition az_LOW_METRICS :: allowlist where
  "az_LOW_METRICS =
    [(''vm'', [''CPU Credits Remaining'', ''Disk Read Bytes'', ''Disk Read Operations/Sec'', ''Disk Write Bytes'', ''Disk Write Operations/Sec'', ''OS Disk Queue Depth'']),
     (''storage_account'', [''Egress'', ''Ingress'', ''SuccessE2ELatency'', ''UsedCapacity'']),
     (''sql_database'', [''blocked_by_firewall'', ''connection_successful'', ''deadlock'']),
     (''app_service'', [''CpuTime'', ''Http4xx'', ''MemoryWorkingSet''])]"

definition az_EXTENDED_STANDARD_METRICS :: allowlist where
  "az_EXTENDED_STANDARD_METRICS =
    [(''application_gateway'', [''UnhealthyHostCount'']),
     (''load_balancer'', [''DipAvailability'', ''VipAvailability'']),
     (''key_vault'', [''Availability'']),
     (''redis_cache'', [''PercentProcessorTime'', ''UsedMemoryPercentage'']),
     (''cosmosdb_account'', [''NormalizedRUConsumption'']),
     (''aks_cluster'', [''kube_node_status_condition'', ''kube_pod_status_phase'', ''node_cpu_usage_percentage'', ''node_memory_working_set_percentage'']),
     (''function_app'', [''Http5xx''])]"

definition az_EXTENDED_LOW_METRICS :: allowlist where
  "az_EXTENDED_LOW_METRICS =
    [(''data_factory'', [''PipelineFailedRuns''])]"

definition az_SLOW_EXTENDED_SERVICES :: "string list" where
  "az_SLOW_EXTENDED_SERVICES =
    [''cdn_profile'', ''data_factory'', ''key_vault'', ''managed_disk'', ''vpn_gateway'']"

definition az_TIER_INTERVAL_SECONDS :: "poll_tier \<Rightarrow> nat" where
  "az_TIER_INTERVAL_SECONDS t =
     (case t of Critical \<Rightarrow> 120 | Standard \<Rightarrow> 300 | Low \<Rightarrow> 900 | Extended \<Rightarrow> 900 | Slow_Extended \<Rightarrow> 3600)"

definition gcp_CRITICAL_METRICS :: allowlist where
  "gcp_CRITICAL_METRICS =
    [(''cloudsql_instance'', [''up''])]"

definition gcp_LOW_METRICS :: allowlist where
  "gcp_LOW_METRICS =
    [(''compute_instance'', [''disk/read_bytes_count'', ''disk/read_ops_count'', ''disk/write_bytes_count'', ''disk/write_ops_count'']),
     (''gcs_bucket'', [''network/sent_bytes_count'', ''object_count'', ''total_byte_seconds'', ''total_bytes'']),
     (''cloudsql_instance'', [''disk/read_ops_count'', ''disk/write_ops_count'', ''mysql/replication/seconds_behind_master'', ''postgresql/replication/replica_byte_lag'']),
     (''cloud_run_service'', [''billable_instance_time'', ''startup_latencies''])]"

definition gcp_REMOVED_METRICS :: allowlist where
  "gcp_REMOVED_METRICS =
    [(''compute_instance'', [''cpu/usage_time'', ''uptime_total''])]"

definition gcp_EXTENDED_STANDARD_METRICS :: allowlist where
  "gcp_EXTENDED_STANDARD_METRICS =
    [(''pubsub_subscription'', [''num_undelivered_messages'', ''oldest_unacked_message_age'']),
     (''nat_gateway'', [''nat_allocation_failed'']),
     (''redis_instance'', [''stats/memory/usage_ratio''])]"

definition gcp_EXTENDED_LOW_METRICS :: allowlist where
  "gcp_EXTENDED_LOW_METRICS =
    [(''gke_cluster'', [''cpu/limit_utilization'', ''memory/limit_utilization'', ''restart_count'']),
     (''cloud_lb'', [''backend_latencies'', ''total_latencies'']),
     (''gke_node'', [''cpu/allocatable_utilization'', ''ephemeral_storage/used_bytes'', ''memory/allocatable_utilization'']),
     (''spanner_instance'', [''api/request_latencies'', ''instance/cpu/utilization'']),
     (''redis_instance'', [''stats/cpu_utilization'']),
     (''nat_gateway'', [''dropped_sent_packets_count'', ''port_usage''])]"

definition gcp_TIER_INTERVAL_SECONDS :: "poll_tier \<Rightarrow> nat option" where
  "gcp_TIER_INTERVAL_SECONDS t =
     (case t of Critical \<Rightarrow> Some 120 | Standard \<Rightarrow> Some 300 | Low \<Rightarrow> Some 900
      | Extended \<Rightarrow> Some 3600 | Slow_Extended \<Rightarrow> None)"

subsection \<open>Passes\<close>

text \<open>
  The shape all builders share: the services that pass a test keep the names that pass a
  test, and a service left with no name is dropped.
\<close>

fun select_names ::
  "(string \<Rightarrow> category \<Rightarrow> bool) \<Rightarrow> (string \<Rightarrow> string \<Rightarrow> bool) \<Rightarrow> curated \<Rightarrow> allowlist" where
  "select_names svc_ok name_ok [] = []"
| "select_names svc_ok name_ok ((service, category, metrics) # rest) =
     (let ns = filter (name_ok service) metrics in
      if svc_ok service category \<and> ns \<noteq> [] then (service, ns) # select_names svc_ok name_ok rest
      else select_names svc_ok name_ok rest)"

definition az_promoted :: "string \<Rightarrow> string list" where
  "az_promoted service =
     names_of az_EXTENDED_STANDARD_METRICS service @ names_of az_EXTENDED_LOW_METRICS service"

definition az_build_standard_metrics :: "curated \<Rightarrow> allowlist" where
  "az_build_standard_metrics curated =
     select_names (\<lambda>s c. c = Core)
       (\<lambda>s n. n \<notin> set (names_of az_CRITICAL_METRICS s) \<and> n \<notin> set (names_of az_LOW_METRICS s)) curated"

definition az_build_extended_fast_metrics :: "curated \<Rightarrow> allowlist" where
  "az_build_extended_fast_metrics curated =
     select_names (\<lambda>s c. c = ExtendedCat \<and> s \<notin> set az_SLOW_EXTENDED_SERVICES)
       (\<lambda>s n. n \<notin> set (az_promoted s)) curated"

definition az_build_extended_slow_metrics :: "curated \<Rightarrow> allowlist" where
  "az_build_extended_slow_metrics curated =
     select_names (\<lambda>s c. c = ExtendedCat \<and> s \<in> set az_SLOW_EXTENDED_SERVICES)
       (\<lambda>s n. n \<notin> set (az_promoted s)) curated"

definition gcp_build_standard_metrics :: "curated \<Rightarrow> allowlist" where
  "gcp_build_standard_metrics curated =
     select_names (\<lambda>s c. c = Core)
       (\<lambda>s n. n \<notin> set (names_of gcp_REMOVED_METRICS s) \<and>
              n \<notin> set (names_of gcp_CRITICAL_METRICS s) \<and> n \<notin> set (names_of gcp_LOW_METRICS s)) curated"

definition gcp_build_extended_metrics :: "curated \<Rightarrow> allowlist" where
  "gcp_build_extended_metrics curated =
     select_names (\<lambda>s c. c = ExtendedCat)
       (\<lambda>s n. n \<notin> set (names_of gcp_EXTENDED_STANDARD_METRICS s) \<and>
              n \<notin> set (names_of gcp_EXTENDED_LOW_METRICS s)) curated"

text \<open>\<open>_merge\<close>: the union, service by service, in the order services are first met.\<close>

fun merge_into :: "allowlist \<Rightarrow> allowlist \<Rightarrow> allowlist" where
  "merge_into out [] = out"
| "merge_into out ((k, v) # kvs) = merge_into (dict_set out k (names_of out k @ v)) kvs"

definition merge_maps :: "allowlist list \<Rightarrow> allowlist" where
  "merge_maps maps = foldl merge_into [] maps"

definition az_build_standard_pass_metrics :: "curated \<Rightarrow> allowlist" where
  "az_build_standard_pass_metrics curated =
     merge_maps [az_build_standard_metrics curated, az_EXTENDED_STANDARD_METRICS]"

definition az_build_low_pass_metrics :: allowlist where
  "az_build_low_pass_metrics = merge_maps [az_LOW_METRICS, az_EXTENDED_LOW_METRICS]"

definition gcp_build_standard_pass_metrics :: "curated \<Rightarrow> allowlist" where
  "gcp_build_standard_pass_metrics curated =
     merge_maps [gcp_build_standard_metrics curated, gcp_EXTENDED_STANDARD_METRICS]"

definition gcp_build_low_pass_metrics :: allowlist where
  "gcp_build_low_pass_metrics = merge_maps [gcp_LOW_METRICS, gcp_EXTENDED_LOW_METRICS]"

subsection \<open>The tier of a metric\<close>

type_synonym tier_map = "(string \<times> string, poll_tier) dict"

fun put_names :: "poll_tier \<Rightarrow> string \<Rightarrow> string list \<Rightarrow> tier_map \<Rightarrow> tier_map" where
  "put_names t service [] out = out"
| "put_names t service (n # ns) out = put_names t service ns (dict_set out (service, n) t)"

fun put_map :: "poll_tier \<Rightarrow> allowlist \<Rightarrow> tier_map \<Rightarrow> tier_map" where
  "put_map t [] out = out"
| "put_map t ((service, names) # rest) out = put_map t rest (put_names t service names out)"

fun put_tiers :: "(poll_tier \<times> allowlist) list \<Rightarrow> tier_map \<Rightarrow> tier_map" where
  "put_tiers [] out = out"
| "put_tiers ((t, m) # rest) out = put_tiers rest (put_map t m out)"

definition az_metric_tiers :: "curated \<Rightarrow> tier_map" where
  "az_metric_tiers curated =
     put_tiers
       [(Standard, az_build_standard_pass_metrics curated),
        (Low, az_build_low_pass_metrics),
        (Extended, az_build_extended_fast_metrics curated),
        (Slow_Extended, az_build_extended_slow_metrics curated),
        (Critical, az_CRITICAL_METRICS)] []"

definition gcp_metric_tiers :: "curated \<Rightarrow> tier_map" where
  "gcp_metric_tiers curated =
     put_tiers
       [(Standard, gcp_build_standard_pass_metrics curated),
        (Low, gcp_build_low_pass_metrics),
        (Extended, gcp_build_extended_metrics curated),
        (Critical, gcp_CRITICAL_METRICS)] []"

subsection \<open>Lookups in the built maps\<close>

definition listed :: "allowlist \<Rightarrow> string \<Rightarrow> string \<Rightarrow> bool" where
  "listed m service n \<longleftrightarrow> (\<exists>ns. (service, ns) \<in> set m \<and> n \<in> set ns)"

lemma dict_get_put_names:
  "dict_get (put_names t s ns out) (s', n) =
     (if s' = s \<and> n \<in> set ns then Some t else dict_get out (s', n))"
  by (induction t s ns out rule: put_names.induct) auto

lemma dict_get_put_map:
  "dict_get (put_map t m out) (s, n) = (if listed m s n then Some t else dict_get out (s, n))"
  by (induction t m out rule: put_map.induct) (auto simp: dict_get_put_names listed_def)

lemma dict_get_put_tiers:
  "dict_get (put_tiers tms out) (s, n) =
     (case find (\<lambda>(t, m). listed m s n) (rev tms) of
        Some (t, m) \<Rightarrow> Some t | None \<Rightarrow> dict_get out (s, n))"
proof (induction tms arbitrary: out)
  case (Cons p tms)
  obtain t m where p: "p = (t, m)" by (cases p)
  have app: "find P (xs @ ys) = (case find P xs of None \<Rightarrow> find P ys | Some x \<Rightarrow> Some x)"
    for P and xs ys :: "(poll_tier \<times> allowlist) list"
    by (induction xs) auto
  show ?case
    by (auto simp: p Cons.IH app dict_get_put_map split: option.splits)
qed simp

lemma listed_Cons: "listed ((k, v) # m) s n \<longleftrightarrow> (s = k \<and> n \<in> set v) \<or> listed m s n"
  by (auto simp: listed_def)

lemma listed_Nil [simp]: "\<not> listed [] s n"
  by (simp add: listed_def)

lemma listed_select_names:
  "listed (select_names svc_ok name_ok cur) s n \<longleftrightarrow>
     (\<exists>(s', c, ms)\<in>set cur. s' = s \<and> n \<in> set ms \<and> svc_ok s c \<and> name_ok s n)"
proof (induction cur)
  case (Cons e cur)
  obtain s' c ms where e: "e = (s', c, ms)" by (cases e)
  show ?case
    by (cases "svc_ok s' c \<and> filter (name_ok s') ms \<noteq> []")
       (auto simp: e Let_def listed_Cons Cons.IH filter_empty_conv)
qed simp

lemma names_of_listed:
  assumes "dict_wf m"
  shows "n \<in> set (names_of m s) \<longleftrightarrow> listed m s n"
proof (cases "dict_get m s")
  case None
  then have "names_of m s = []" by (simp add: names_of_def)
  moreover have "\<And>v. (s, v) \<notin> set m"
    using None by (force simp: dict_get_None_iff dict_keys_def)
  ultimately show ?thesis by (simp add: listed_def)
next
  case (Some v)
  then have nv: "names_of m s = v" by (simp add: names_of_def)
  have "(s, w) \<in> set m \<longleftrightarrow> w = v" for w
    using Some dict_get_in [OF assms, of s w] by auto
  then show ?thesis by (simp add: nv listed_def)
qed

lemma names_of_set [simp]:
  "names_of (dict_set out k v) s = (if s = k then v else names_of out s)"
  by (simp add: names_of_def)

lemma merge_into_wf: "dict_wf out \<Longrightarrow> dict_wf (merge_into out m)"
  by (induction out m rule: merge_into.induct) auto

lemma merge_into_names:
  "n \<in> set (names_of (merge_into out m) s) \<longleftrightarrow> n \<in> set (names_of out s) \<or> listed m s n"
  by (induction out m rule: merge_into.induct) (auto simp: listed_Cons split: if_splits)

lemma listed_merge_maps:
  "listed (merge_maps [m1, m2]) s n \<longleftrightarrow> listed m1 s n \<or> listed m2 s n"
proof -
  have "dict_wf (merge_maps [m1, m2])" by (simp add: merge_maps_def merge_into_wf)
  then show ?thesis
    by (simp only: names_of_listed [symmetric]) (simp add: merge_maps_def merge_into_names, simp add: names_of_def)
qed

end
