(* ===== verification/Threshold_Defaults.thy ===== *)
theory Threshold_Defaults
  imports Prelude
begin

text \<open>
  \<open>app/threshold_defaults.py\<close>: the default alert lines, the placeholder (anomaly-only) triple,
  the size floors, the metrics that may never use a learned band, the names under which metrics
  are stored, and the whole-number form of a learned limit; and \<open>compare\<close> of
  \<open>app/collector/alert_evaluator.py\<close>, which says what a line means.
\<close>

subsection \<open>Comparisons\<close>

text \<open>The four operators of the sources; any other string is \<open>BadOp\<close>.\<close>

datatype comparison = Gt | Ge | Lt | Le | BadOp

definition compare :: "num_value option \<Rightarrow> num_value option \<Rightarrow> comparison \<Rightarrow> bool" where
  "compare value threshold op =
     (case (value, threshold) of
        (Some v, Some t) \<Rightarrow>
          (case op of Gt \<Rightarrow> v > t | Ge \<Rightarrow> v \<ge> t | Lt \<Rightarrow> v < t | Le \<Rightarrow> v \<le> t | BadOp \<Rightarrow> False)
      | _ \<Rightarrow> False)"

lemma compare_None [simp]: "compare None t op = False" "compare v None op = False"
  by (simp_all add: compare_def split: option.splits)

lemma compare_Some [simp]:
  "compare (Some v) (Some t) Gt = (v > t)" "compare (Some v) (Some t) Ge = (v \<ge> t)"
  "compare (Some v) (Some t) Lt = (v < t)" "compare (Some v) (Some t) Le = (v \<le> t)"
  "compare (Some v) (Some t) BadOp = False"
  by (simp_all add: compare_def)

definition upward :: "comparison \<Rightarrow> bool" where
  "upward op \<longleftrightarrow> op = Gt \<or> op = Ge"

text \<open>A line that trips is also tripped by every less demanding line.\<close>

definition weaker_line :: "comparison \<Rightarrow> num_value \<Rightarrow> num_value \<Rightarrow> bool" where
  "weaker_line op w c = (if upward op then w \<le> c else c \<le> w)"

lemma compare_weaker:
  "compare v (Some c) op \<Longrightarrow> weaker_line op w c \<Longrightarrow> compare v (Some w) op"
  by (cases v; cases op) (auto simp: weaker_line_def upward_def)

subsection \<open>Default lines\<close>

type_synonym default_row = "string \<times> num_value \<times> num_value \<times> comparison"

text \<open>The first part of the table, up to the metrics starting with L, and the rest.\<close>

definition DEFAULT_THRESHOLDS_A :: "default_row list" where
  "DEFAULT_THRESHOLDS_A =
    [(''4XXError'', 1, 5, Gt), (''4xxErrorRate'', 5, 15, Gt), (''4xxErrors'', 1, 5, Gt),
     (''5XXError'', 1, 5, Gt), (''5xxErrorRate'', 1, 5, Gt), (''5xxErrors'', 1, 5, Gt),
     (''ActiveConnectionCount'', 1000000, 5000000, Gt),
     (''ActiveFlowCount'', 1000000, 5000000, Gt), (''AllRequests'', 1000000, 5000000, Gt),
     (''AllowedRequests'', 1000000, 5000000, Gt),
     (''ApproximateAgeOfOldestMessage'', 300, 900, Gt),
     (''ApproximateNumberOfMessagesNotVisible'', 1000, 10000, Gt),
     (''ApproximateNumberOfMessagesVisible'', 1000, 10000, Gt),
     (''BinLogDiskUsage'', 1000000, 5000000, Gt), (''BlockedRequests'', 1000000, 5000000, Gt),
     (''BlockRatio'', 1000000, 5000000, Gt), (''CaptchaRequests'', 1000000, 5000000, Gt),
     (''ChallengeRequests'', 1000000, 5000000, Gt),
     (''RequestsWithValidCaptchaToken'', 1000000, 5000000, Gt),
     (''RequestsWithValidChallengeToken'', 1000000, 5000000, Gt),
     (''BucketSizeBytes'', 1000000, 5000000, Gt), (''BufferCacheHitRatio'', 80, 50, Lt),
     (''BurstBalance'', 30, 10, Lt), (''BurstCreditBalance'', 0, 0, Lt),
     (''BytesDownloaded'', 1000000, 5000000, Gt), (''BytesIn'', 1000000, 5000000, Gt),
     (''BytesInFromSource'', 1000000, 5000000, Gt),
     (''BytesInPerSec'', 800000000, 950000000, Gt), (''BytesOut'', 1000000, 5000000, Gt),
     (''BytesOutPerSec'', 800000000, 950000000, Gt),
     (''BytesOutToDestination'', 1000000, 5000000, Gt),
     (''BytesUploaded'', 1000000, 5000000, Gt), (''CDCLatencySource'', 30, 60, Gt),
     (''CDCLatencyTarget'', 30, 60, Gt), (''CPUCreditBalance'', 50, 10, Lt),
     (''CPUCreditUsage'', 1000000, 5000000, Gt), (''CPUUtilization'', 70, 90, Gt),
     (''CacheHitCount'', 1000000, 5000000, Gt), (''CacheHitRate'', 80, 50, Lt),
     (''CacheHits'', 1000000, 5000000, Gt), (''CacheMissCount'', 1000000, 5000000, Gt),
     (''CacheMisses'', 1000000, 5000000, Gt), (''ClientConnections'', 1000000, 5000000, Gt),
     (''ClusterIndexWritesBlocked'', 1, 5, Gt), (''ClusterStatus.green'', 1, 1, Lt),
     (''ClusterStatus.red'', 1, 1, Ge), (''ClusterStatus.yellow'', 1, 1, Ge),
     (''ColdStart'', 1000000, 5000000, Gt), (''ConcurrentExecutions'', 1000000, 5000000, Gt),
     (''ConditionalCheckFailedRequests'', 1, 5, Gt),
     (''ConnectionBpsEgress'', 800000000, 950000000, Gt),
     (''ConnectionBpsIngress'', 800000000, 950000000, Gt), (''ConnectionErrorCount'', 1, 5, Gt),
     (''ConnectionState'', 1, 1, Lt), (''ConnectionTime'', 1000, 3000, Gt),
     (''ConsumedReadCapacityUnits'', 1000000, 5000000, Gt),
     (''ConsumedWriteCapacityUnits'', 1000000, 5000000, Gt), (''Count'', 1000000, 5000000, Gt),
     (''CountedRequests'', 1000000, 5000000, Gt), (''CpuUser'', 70, 90, Gt),
     (''CurrConnections'', 1000000, 5000000, Gt), (''DataReadIOBytes'', 1000000, 5000000, Gt),
     (''DataWriteIOBytes'', 1000000, 5000000, Gt),
     (''DatabaseConnections'', 1000000, 5000000, Gt),
     (''DatabaseConnectionsBorrowLatency'', 5, 15, Gt),
     (''DatabaseMemoryUsagePercentage'', 70, 90, Gt), (''DaysToExpiry'', 30, 7, Lt),
     (''DeadLetterErrors'', 1, 5, Gt), (''DeliveryErrors'', 1, 5, Gt),
     (''DeliveryToS3.DataFreshness'', 5, 15, Gt), (''DeliveryToS3.Success'', 99, 90, Lt),
     (''DiskQueueDepth'', 10, 30, Gt), (''DiskReadBytes'', 1000000, 5000000, Gt),
     (''DiskWriteBytes'', 1000000, 5000000, Gt), (''Duration'', 1000, 3000, Gt),
     (''EBSReadBytes'', 1000000, 5000000, Gt), (''EBSReadOps'', 1000000, 5000000, Gt),
     (''EBSWriteBytes'', 1000000, 5000000, Gt), (''EBSWriteOps'', 1000000, 5000000, Gt),
     (''ErrorPortAllocation'', 1, 5, Gt), (''Errors'', 1, 5, Gt), (''Evictions'', 1, 100, Gt),
     (''ExecutionThrottled'', 1, 5, Gt), (''ExecutionTime'', 1000, 3000, Gt),
     (''ExecutionsFailed'', 1, 5, Gt), (''ExecutionsSucceeded'', 1000000, 5000000, Gt),
     (''ExecutionsTimedOut'', 1, 5, Gt), (''FailedInvocations'', 1, 5, Gt),
     (''FaultRequestCount'', 1, 5, Gt), (''FirstByteLatency'', 1000, 3000, Gt),
     (''FreeStorageSpace'', 2147483648, 536870912, Lt),
     (''FreeableMemory'', 536870912, 209715200, Lt),
     (''GetRecords.IteratorAgeMilliseconds'', 1000, 3000, Gt),
     (''GremlinRequestsPerSec'', 800000000, 950000000, Gt),
     (''GroupDesiredCapacity'', 1000000, 5000000, Gt), (''GroupInServiceInstances'', 1, 0, Lt),
     (''GroupMaxSize'', 1000000, 5000000, Gt), (''GroupMinSize'', 1000000, 5000000, Gt),
     (''GroupPendingInstances'', 1000000, 5000000, Gt),
     (''GroupTerminatingInstances'', 1000000, 5000000, Gt),
     (''HTTPCode_ELB_5XX_Count'', 1, 5, Gt),
     (''HTTPCode_Target_2XX_Count'', 1000000, 5000000, Gt),
     (''HTTPCode_Target_4XX_Count'', 1, 5, Gt), (''HTTPCode_Target_5XX_Count'', 1, 5, Gt),
     (''HealthCheckPercentageHealthy'', 90, 50, Lt), (''HealthCheckStatus'', 1, 1, Lt),
     (''HealthyHostCount'', 1, 0, Lt), (''IncomingBytes'', 1000000, 5000000, Gt),
     (''IncomingLogEvents'', 1000000, 5000000, Gt), (''IncomingRecords'', 1000000, 5000000, Gt),
     (''IndexingLatency'', 1000, 3000, Gt), (''IntegrationLatency'', 1000, 3000, Gt),
     (''Invocations'', 1000000, 5000000, Gt), (''ItemCacheHits'', 1000000, 5000000, Gt),
     (''ItemCacheMisses'', 1000000, 5000000, Gt), (''IteratorAge'', 1000, 3000, Gt),
     (''JVMMemoryPressure'', 75, 90, Gt), (''KafkaDataLogsDiskUsed'', 75, 90, Gt),
     (''Latency'', 1000, 3000, Gt)]"

definition DEFAULT_THRESHOLDS_B :: "default_row list" where
  "DEFAULT_THRESHOLDS_B =
    [(''MatchedEvents'', 1000000, 5000000, Gt), (''MemoryUtilization'', 70, 90, Gt),
     (''mem_used_percent'', 80, 90, Gt), (''disk_used_percent'', 80, 90, Gt),
     (''MetadataNoToken'', 1, 5, Gt), (''NetworkBytesIn'', 1000000, 5000000, Gt),
     (''NetworkBytesOut'', 1000000, 5000000, Gt), (''NetworkIn'', 1000000, 5000000, Gt),
     (''NetworkOut'', 1000000, 5000000, Gt), (''NewConnectionCount'', 1000000, 5000000, Gt),
     (''NewFlowCount'', 1000000, 5000000, Gt), (''Nodes'', 1000000, 5000000, Gt),
     (''NumberOfBackupJobsCompleted'', 1000000, 5000000, Gt),
     (''NumberOfBackupJobsFailed'', 1, 5, Gt), (''NumberOfEmptyReceives'', 1000000, 5000000, Gt),
     (''NumberOfMessagesDeleted'', 1000000, 5000000, Gt),
     (''NumberOfMessagesPublished'', 1000000, 5000000, Gt),
     (''NumberOfMessagesReceived'', 1000000, 5000000, Gt),
     (''NumberOfMessagesSent'', 1000000, 5000000, Gt),
     (''NumberOfNotificationsDelivered'', 1000000, 5000000, Gt),
     (''NumberOfNotificationsFailed'', 1, 5, Gt), (''NumberOfObjects'', 1000000, 5000000, Gt),
     (''NumberOfRestoreJobsFailed'', 1, 5, Gt), (''OfflinePartitionsCount'', 1, 5, Gt),
     (''OriginLatency'', 1000, 3000, Gt), (''PacketDropCountBlackhole'', 1, 5, Gt),
     (''PacketDropCountNoRoute'', 1, 5, Gt), (''PacketsDropCount'', 1, 5, Gt),
     (''PassedRequests'', 1000000, 5000000, Gt), (''PendingTaskCount'', 1000000, 5000000, Gt),
     (''PercentIOLimit'', 80, 95, Gt), (''PercentageDiskSpaceUsed'', 75, 90, Gt),
     (''ProcessedBytes'', 1000000, 5000000, Gt), (''ProcessedBytesIn'', 1000000, 5000000, Gt),
     (''ProcessedBytesOut'', 1000000, 5000000, Gt), (''PublishSize'', 1000000, 5000000, Gt),
     (''QueryDuration'', 100000, 500000, Gt), (''ReadIOPS'', 800000000, 950000000, Gt),
     (''ReadLatency'', 5, 15, Gt), (''ReadProvisionedThroughputExceeded'', 1, 5, Gt),
     (''ReadThrottleEvents'', 1, 5, Gt), (''RejectedConnectionCount'', 1, 5, Gt),
     (''ReplicaLag'', 30, 60, Gt), (''ReplicationLag'', 30, 60, Gt),
     (''RequestCount'', 1000000, 5000000, Gt), (''Requests'', 1000000, 5000000, Gt),
     (''RunningTaskCount'', 1000000, 5000000, Gt), (''SearchLatency'', 1000, 3000, Gt),
     (''SecondsUntilKeyMaterialExpiration'', 5, 15, Gt),
     (''SignInSuccesses'', 1000000, 5000000, Gt), (''SignUpSuccesses'', 1000000, 5000000, Gt),
     (''SparqlRequestsPerSec'', 800000000, 950000000, Gt), (''StatusCheckFailed'', 1, 1, Ge),
     (''StatusCheckFailed_Instance'', 1, 1, Ge), (''StatusCheckFailed_System'', 1, 1, Ge),
     (''StorageBytes'', 1000000, 5000000, Gt), (''SuccessfulRequestLatency'', 1000, 3000, Gt),
     (''SwapUsage'', 1000000, 5000000, Gt), (''SystemErrors'', 1, 5, Gt),
     (''TCP_Client_Reset_Count'', 1000000, 5000000, Gt),
     (''TargetConnectionErrorCount'', 1, 5, Gt), (''TargetResponseTime'', 5, 15, Gt),
     (''ThrottledEvents'', 1, 5, Gt), (''ThrottledRequests'', 1, 5, Gt),
     (''ThrottledRules'', 1, 5, Gt), (''Throttles'', 1, 5, Gt), (''TotalErrorRate'', 1, 5, Gt),
     (''TotalRequestLatency'', 1000, 3000, Gt),
     (''TransactionLogsDiskUsage'', 1000000, 5000000, Gt),
     (''TunnelDataIn'', 1000000, 5000000, Gt), (''TunnelDataOut'', 1000000, 5000000, Gt),
     (''TunnelState'', 1, 1, Lt), (''UnHealthyHostCount'', 1, 3, Gt),
     (''UnderReplicatedPartitions'', 1, 5, Gt), (''UserErrors'', 1, 5, Gt),
     (''VolumeBytesUsed'', 1000000, 5000000, Gt),
     (''VolumeConsumedReadWriteOps'', 1000000, 5000000, Gt), (''VolumeIdleTime'', 5, 15, Gt),
     (''VolumeQueueLength'', 10, 30, Gt), (''VolumeReadBytes'', 1000000, 5000000, Gt),
     (''VolumeReadOps'', 1000000, 5000000, Gt), (''VolumeThroughputPercentage'', 80, 95, Gt),
     (''VolumeTotalReadTime'', 5, 15, Gt), (''VolumeTotalWriteTime'', 5, 15, Gt),
     (''VolumeWriteBytes'', 1000000, 5000000, Gt), (''VolumeWriteOps'', 1000000, 5000000, Gt),
     (''WLMQueueLength'', 10, 30, Gt), (''WriteIOPS'', 800000000, 950000000, Gt),
     (''WriteLatency'', 5, 15, Gt), (''WriteProvisionedThroughputExceeded'', 1, 5, Gt),
     (''WriteThrottleEvents'', 1, 5, Gt), (''cluster_failed_node_count'', 1, 3, Gt),
     (''cluster_node_count'', 1000000, 5000000, Gt), (''host_cpu_percent'', 85, 95, Gt),
     (''host_load1'', 4, 8, Gt), (''host_load5'', 4, 8, Gt), (''host_load15'', 4, 8, Gt),
     (''host_mem_available_bytes'', 524288000, 209715200, Lt),
     (''host_swap_used_percent'', 50, 80, Gt), (''host_disk_inodes_used_percent'', 80, 90, Gt),
     (''host_disk_read_bytes_per_s'', 1000000, 5000000, Gt),
     (''host_disk_write_bytes_per_s'', 1000000, 5000000, Gt),
     (''host_net_rx_bytes_per_s'', 1000000, 5000000, Gt),
     (''host_net_tx_bytes_per_s'', 1000000, 5000000, Gt), (''host_proc_count'', 600, 1000, Gt),
     (''host_uptime_seconds'', 300, 60, Lt)]"

definition DEFAULT_THRESHOLDS :: "default_row list" where
  "DEFAULT_THRESHOLDS = DEFAULT_THRESHOLDS_A @ DEFAULT_THRESHOLDS_B"

definition FALLBACK_THRESHOLD :: "num_value \<times> num_value \<times> comparison" where
  "FALLBACK_THRESHOLD = (1000000, 5000000, Gt)"

definition default_threshold :: "string \<Rightarrow> num_value \<times> num_value \<times> comparison" where
  "default_threshold metric_name =
     (case map_of DEFAULT_THRESHOLDS metric_name of
        Some row \<Rightarrow> row | None \<Rightarrow> FALLBACK_THRESHOLD)"

subsection \<open>Placeholder lines and size floors\<close>

definition PLACEHOLDER_THRESHOLD :: "num_value \<times> num_value \<times> comparison" where
  "PLACEHOLDER_THRESHOLD = (1000000, 5000000, Gt)"

definition is_placeholder_threshold ::
  "num_value option \<Rightarrow> num_value option \<Rightarrow> comparison \<Rightarrow> bool" where
  "is_placeholder_threshold warning critical op =
     (case (warning, critical) of
        (Some w, Some c) \<Rightarrow> (w, c, op) = PLACEHOLDER_THRESHOLD
      | _ \<Rightarrow> False)"

definition ALERT_MIN_ABSOLUTE :: "(string \<times> num_value) list" where
  "ALERT_MIN_ABSOLUTE =
    [(''volumereadops'', 1000), (''volumewriteops'', 1000), (''volumereadbytes'', 50000000),
     (''volumewritebytes'', 50000000), (''networkin'', 1000000), (''networkout'', 1000000),
     (''blockedrequests'', 10), (''allowedrequests'', 100), (''countedrequests'', 10),
     (''captcharequests'', 10), (''challengerequests'', 10), (''blockratio'', 25),
     (''httpcode_target_4xx_count'', 10)]"

definition alert_floor :: "string \<Rightarrow> num_value" where
  "alert_floor metric_name =
     (case map_of ALERT_MIN_ABSOLUTE (lower metric_name) of Some f \<Rightarrow> f | None \<Rightarrow> 0)"

subsection \<open>Metrics that alert on the static line only\<close>

definition CAPACITY_PERCENT_METRICS :: "string list" where
  "CAPACITY_PERCENT_METRICS = [''mem_used_percent'', ''disk_used_percent'']"

definition is_capacity_percent_metric :: "string \<Rightarrow> bool" where
  "is_capacity_percent_metric metric_name =
     (let name = lower metric_name in
      list_ex (\<lambda>base. name = base \<or> startswith name (base @ ''__'')) CAPACITY_PERCENT_METRICS)"

definition STATIC_ONLY_METRIC_PREFIXES :: "string list" where
  "STATIC_ONLY_METRIC_PREFIXES =
    [''healthyhost'', ''unhealthyhost'', ''healthcheckpercentagehealthy'', ''statuscheckfailed'',
     ''daystoexpiry'', ''numberofbackupjobsfailed'', ''numberofrestorejobsfailed'',
     ''numberofnotificationsfailed'', ''errorportallocation'', ''freestorage'', ''secondsuntil'',
     ''healthcheckstatus'', ''clusterstatus'', ''tunnelstate'', ''connectionstate'',
     ''groupinserviceinstances'', ''freeablememory'', ''burstbalance'', ''burstcreditbalance'',
     ''cpucreditbalance'', ''cpusurpluscreditbalance'', ''percentagediskspaceused'',
     ''kafkadatalogsdiskused'', ''databasememoryusagepercentage'', ''jvmmemorypressure'',
     ''memoryutilization'', ''percentiolimit'', ''volumethroughputpercentage'',
     ''executionsfailed'', ''executionstimedout'', ''failedinvocations'',
     ''offlinepartitionscount'', ''underreplicatedpartitions'', ''clusterindexwritesblocked'',
     ''cluster_failed_node_count'', ''deadlettererrors'', ''deliveryerrors'',
     ''deliverytos3.success'', ''pipelinefailedruns'', ''activityfailedruns'']"

definition STATIC_ONLY_METRIC_NAMES :: "string list" where
  "STATIC_ONLY_METRIC_NAMES =
    [''vm availability metric'', ''cpu credits remaining'', ''availability'',
     ''vipavailability'', ''dipavailability'', ''storage_percent'', ''dtu_consumption_percent'',
     ''normalizedruconsumption'', ''usedmemorypercentage'', ''node_disk_usage_percentage'',
     ''node_memory_working_set_percentage'', ''kube_pod_status_phase'',
     ''kube_node_status_condition'', ''saturationshoebox'', ''uptime'', ''up'',
     ''replication/role'', ''disk/utilization'', ''memory/utilization'', ''memory/utilizations'',
     ''memory/limit_utilization'', ''memory/allocatable_utilization'',
     ''stats/memory/usage_ratio'', ''nat_allocation_failed'', ''port_usage'']"

definition is_static_only_metric :: "string \<Rightarrow> bool" where
  "is_static_only_metric metric_name =
     (if is_capacity_percent_metric metric_name then True
      else (let name = lower metric_name in
            name \<in> set STATIC_ONLY_METRIC_NAMES \<or>
            list_ex (\<lambda>prefix. startswith name prefix) STATIC_ONLY_METRIC_PREFIXES))"

subsection \<open>Names\<close>

definition normalize_threshold_resource_type :: "string \<Rightarrow> string" where
  "normalize_threshold_resource_type value =
     (if value = ''alb'' \<or> value = ''nlb'' then ''elb'' else value)"

definition normalize_service_key :: "string \<Rightarrow> string \<Rightarrow> string" where
  "normalize_service_key resource_type resource_id =
     (if resource_type = ''elb'' then
        (if contains_str resource_id ''loadbalancer/app/'' then ''alb''
         else if contains_str resource_id ''loadbalancer/net/'' then ''nlb''
         else resource_type)
      else if resource_type = ''ecs'' \<or> resource_type = ''ecs_service'' then ''ecs''
      else resource_type)"

definition AWS_METRIC_NAME_TO_DB_NAME :: "((string \<times> string) \<times> string) list" where
  "AWS_METRIC_NAME_TO_DB_NAME =
    [((''rds'', ''DatabaseConnections''), ''dbconnections''),
     ((''rds'', ''FreeStorageSpace''), ''freestorage''),
     ((''elb'', ''HTTPCode_Target_5XX_Count''), ''errors5xx''),
     ((''elb'', ''TargetResponseTime''), ''responselatency''),
     ((''elb'', ''HealthyHostCount''), ''healthyhosts_describe''),
     ((''elb'', ''UnHealthyHostCount''), ''unhealthyhosts_describe'')]"

definition resolve_db_metric_name :: "string \<Rightarrow> string \<Rightarrow> string" where
  "resolve_db_metric_name resource_type catalog_metric_name =
     (case map_of AWS_METRIC_NAME_TO_DB_NAME (resource_type, catalog_metric_name) of
        Some override \<Rightarrow> override
      | None \<Rightarrow> lower catalog_metric_name)"

text \<open>
  \<open>_db_metric_name_sql\<close> of \<open>alert_evaluator.py\<close> is the same table as a SQL \<open>CASE\<close>: its \<open>WHEN\<close>
  arms are tried in order.
\<close>

fun case_when :: "((string \<times> string) \<times> string) list \<Rightarrow> string \<Rightarrow> string \<Rightarrow> string" where
  "case_when [] rtype cat = lower cat"
| "case_when (((rt, cw), db) # arms) rtype cat =
     (if rtype = rt \<and> cat = cw then db else case_when arms rtype cat)"

definition db_metric_name_sql :: "string \<Rightarrow> string \<Rightarrow> string" where
  "db_metric_name_sql rtype cat = case_when AWS_METRIC_NAME_TO_DB_NAME rtype cat"

subsection \<open>Whole-number limits\<close>

definition FRACTIONAL_COUNT_METRICS :: "string list" where
  "FRACTIONAL_COUNT_METRICS =
    [''cpucreditbalance'', ''cpusurpluscreditbalance'', ''volumequeuelength'',
     ''diskqueuedepth'', ''wlmqueuelength'']"

definition is_integer_metric :: "string option \<Rightarrow> string \<Rightarrow> bool" where
  "is_integer_metric unit metric_name =
     (if lower (strip (case unit of Some u \<Rightarrow> u | None \<Rightarrow> [])) \<noteq> ''count'' then False
      else lower metric_name \<notin> set FRACTIONAL_COUNT_METRICS)"

definition EPS :: num_value where
  "EPS = 1 / 1000000000"

definition integerize_limit :: "num_value option \<Rightarrow> comparison \<Rightarrow> num_value option" where
  "integerize_limit value op =
     (case value of
        None \<Rightarrow> None
      | Some v \<Rightarrow>
          (if op = Lt \<or> op = Ge then Some (of_int \<lceil>v - EPS\<rceil>)
           else Some (of_int \<lfloor>v + EPS\<rfloor>)))"

subsection \<open>Facts about the names\<close>

lemma case_when_map_of:
  "case_when arms rtype cat = (case map_of arms (rtype, cat) of Some d \<Rightarrow> d | None \<Rightarrow> lower cat)"
  by (induction arms rtype cat rule: case_when.induct) auto

lemma alert_floor_nonneg: "0 \<le> alert_floor m"
proof -
  have all: "list_all (\<lambda>(k, f). 0 \<le> f) ALERT_MIN_ABSOLUTE"
    by (simp add: ALERT_MIN_ABSOLUTE_def)
  show ?thesis
  proof (cases "map_of ALERT_MIN_ABSOLUTE (lower m)")
    case (Some f)
    then have "(lower m, f) \<in> set ALERT_MIN_ABSOLUTE" by (rule map_of_SomeD)
    with all have "0 \<le> f" by (auto simp: list_all_iff)
    with Some show ?thesis by (simp add: alert_floor_def)
  qed (simp add: alert_floor_def)
qed

lemma alert_floor_lower [simp]: "alert_floor (lower m) = alert_floor m"
  by (simp add: alert_floor_def)

lemma is_placeholder_iff:
  "is_placeholder_threshold w c op \<longleftrightarrow> w = Some 1000000 \<and> c = Some 5000000 \<and> op = Gt"
  by (auto simp: is_placeholder_threshold_def PLACEHOLDER_THRESHOLD_def split: option.splits)

lemma normalize_threshold_resource_type_idem [simp]:
  "normalize_threshold_resource_type (normalize_threshold_resource_type v) =
     normalize_threshold_resource_type v"
  by (simp add: normalize_threshold_resource_type_def)

subsection \<open>The whole-number form keeps the verdict on whole-number readings\<close>

text \<open>
  The tolerance \<open>EPS\<close> rounds a limit within one billionth of a whole number to that number;
  \<open>off_grid\<close> says the limit is a whole number or at least that far from the next one.
\<close>

definition off_grid :: "num_value \<Rightarrow> bool" where
  "off_grid v \<longleftrightarrow> frac v = 0 \<or> (EPS < frac v \<and> frac v < 1 - EPS)"

lemma off_grid_floor: "off_grid v \<Longrightarrow> \<lfloor>v + EPS\<rfloor> = \<lfloor>v\<rfloor>"
  by (auto simp: off_grid_def frac_def EPS_def floor_eq_iff)

lemma off_grid_ceiling: "off_grid v \<Longrightarrow> \<lceil>v - EPS\<rceil> = \<lceil>v\<rceil>"
  by (auto simp: off_grid_def frac_def EPS_def ceiling_eq_iff ceiling_altdef) linarith+

lemma integerize_same_verdict:
  assumes "off_grid v"
  shows "compare (Some (of_int n)) (integerize_limit (Some v) op) op = compare (Some (of_int n)) (Some v) op"
  using assms
  by (cases op)
     (auto simp: integerize_limit_def off_grid_floor off_grid_ceiling
       floor_less_iff le_floor_iff less_ceiling_iff ceiling_le_iff)

end
