(* ===== verification/Polling_Model.thy ===== *)
theory Polling_Model
  imports Provider_Tiers Threshold_Defaults
begin

text \<open>
  \<open>app/collector/polling_model.py\<close>: the tier, look-back window and query period of every metric
  collected on a schedule, the overrides that follow from them, and the set evaluated on every
  critical tick. The AWS catalogue (\<open>app/aws/metric_catalog_data.py\<close>) and the Azure and GCP
  catalogues are arguments.
\<close>

definition TIER_SECONDS :: "poll_tier \<Rightarrow> nat" where
  "TIER_SECONDS t =
     (case t of Critical \<Rightarrow> 120 | Standard \<Rightarrow> 300 | Low \<Rightarrow> 900 | Extended \<Rightarrow> 3600 | Slow_Extended \<Rightarrow> 86400)"

subsection \<open>AWS core metrics\<close>

datatype stat = Average | Sum | Maximum

datatype gate = NoGate | Alb | Nlb | TClass | Replica

record core_metric =
  cm_resource_type :: string
  cm_cw_name :: string
  cm_db_name :: string
  cm_stat :: stat
  cm_namespace :: string
  cm_tier :: poll_tier
  cm_lookback_min :: nat
  cm_gate :: gate
  cm_period_sec :: nat

definition AWS_CORE_METRICS :: "core_metric list" where
  "AWS_CORE_METRICS =
    [core_metric.make ''ec2'' ''CPUUtilization'' ''cpuutilization'' Average ''AWS/EC2'' Standard 15 NoGate 300,
     core_metric.make ''ec2'' ''NetworkIn'' ''networkin'' Average ''AWS/EC2'' Standard 15 NoGate 300,
     core_metric.make ''ec2'' ''NetworkOut'' ''networkout'' Average ''AWS/EC2'' Standard 15 NoGate 300,
     core_metric.make ''ec2'' ''CPUCreditBalance'' ''cpucreditbalance'' Average ''AWS/EC2'' Low 25 TClass 300,
     core_metric.make ''ebs'' ''VolumeQueueLength'' ''volumequeuelength'' Average ''AWS/EBS'' Standard 15 NoGate 300,
     core_metric.make ''ebs'' ''VolumeReadOps'' ''volumereadops'' Sum ''AWS/EBS'' Low 25 NoGate 300,
     core_metric.make ''ebs'' ''VolumeWriteOps'' ''volumewriteops'' Sum ''AWS/EBS'' Low 25 NoGate 300,
     core_metric.make ''ebs'' ''VolumeReadBytes'' ''volumereadbytes'' Sum ''AWS/EBS'' Low 25 NoGate 300,
     core_metric.make ''ebs'' ''VolumeWriteBytes'' ''volumewritebytes'' Sum ''AWS/EBS'' Low 25 NoGate 300,
     core_metric.make ''rds'' ''CPUUtilization'' ''cpuutilization'' Average ''AWS/RDS'' Critical 6 NoGate 60,
     core_metric.make ''rds'' ''DatabaseConnections'' ''dbconnections'' Average ''AWS/RDS'' Critical 6 NoGate 60,
     core_metric.make ''rds'' ''FreeableMemory'' ''freeablememory'' Average ''AWS/RDS'' Critical 6 NoGate 60,
     core_metric.make ''rds'' ''ReadLatency'' ''readlatency'' Average ''AWS/RDS'' Standard 8 NoGate 60,
     core_metric.make ''rds'' ''WriteLatency'' ''writelatency'' Average ''AWS/RDS'' Standard 8 NoGate 60,
     core_metric.make ''rds'' ''DiskQueueDepth'' ''diskqueuedepth'' Average ''AWS/RDS'' Standard 8 NoGate 60,
     core_metric.make ''rds'' ''ReplicaLag'' ''replicalag'' Average ''AWS/RDS'' Standard 8 Replica 60,
     core_metric.make ''rds'' ''ReadIOPS'' ''readiops'' Average ''AWS/RDS'' Low 18 NoGate 60,
     core_metric.make ''rds'' ''WriteIOPS'' ''writeiops'' Average ''AWS/RDS'' Low 18 NoGate 60,
     core_metric.make ''rds'' ''FreeStorageSpace'' ''freestorage'' Average ''AWS/RDS'' Low 18 NoGate 60,
     core_metric.make ''rds'' ''SwapUsage'' ''swapusage'' Average ''AWS/RDS'' Low 18 NoGate 60,
     core_metric.make ''elb'' ''RequestCount'' ''requestcount'' Sum ''AWS/ApplicationELB'' Critical 6 Alb 60,
     core_metric.make ''elb'' ''HTTPCode_Target_5XX_Count'' ''errors5xx'' Sum ''AWS/ApplicationELB'' Critical 6 Alb 60,
     core_metric.make ''elb'' ''HTTPCode_ELB_5XX_Count'' ''httpcode_elb_5xx_count'' Sum ''AWS/ApplicationELB'' Critical 6 Alb 60,
     core_metric.make ''elb'' ''TargetResponseTime'' ''responselatency'' Average ''AWS/ApplicationELB'' Standard 8 Alb 60,
     core_metric.make ''elb'' ''TargetConnectionErrorCount'' ''targetconnectionerrorcount'' Sum ''AWS/ApplicationELB'' Standard 8 Alb 60,
     core_metric.make ''elb'' ''RejectedConnectionCount'' ''rejectedconnectioncount'' Sum ''AWS/ApplicationELB'' Standard 8 Alb 60,
     core_metric.make ''elb'' ''HTTPCode_Target_4XX_Count'' ''httpcode_target_4xx_count'' Sum ''AWS/ApplicationELB'' Standard 8 Alb 60,
     core_metric.make ''elb'' ''ActiveConnectionCount'' ''activeconnectioncount'' Sum ''AWS/ApplicationELB'' Standard 8 Alb 60,
     core_metric.make ''elb'' ''NewConnectionCount'' ''newconnectioncount'' Sum ''AWS/ApplicationELB'' Standard 8 Alb 60,
     core_metric.make ''elb'' ''ActiveFlowCount'' ''activeflowcount'' Average ''AWS/NetworkELB'' Standard 8 Nlb 60,
     core_metric.make ''elb'' ''NewFlowCount'' ''newflowcount'' Sum ''AWS/NetworkELB'' Standard 8 Nlb 60,
     core_metric.make ''elb'' ''ProcessedBytes'' ''processedbytes'' Sum ''AWS/NetworkELB'' Standard 8 Nlb 60,
     core_metric.make ''elb'' ''TCP_Client_Reset_Count'' ''tcp_client_reset_count'' Sum ''AWS/NetworkELB'' Standard 8 Nlb 60,
     core_metric.make ''lambda'' ''Errors'' ''errors'' Sum ''AWS/Lambda'' Standard 8 NoGate 60,
     core_metric.make ''lambda'' ''Throttles'' ''throttles'' Sum ''AWS/Lambda'' Standard 8 NoGate 60,
     core_metric.make ''lambda'' ''Duration'' ''duration'' Average ''AWS/Lambda'' Standard 8 NoGate 60,
     core_metric.make ''lambda'' ''ConcurrentExecutions'' ''concurrentexecutions'' Maximum ''AWS/Lambda'' Standard 8 NoGate 60,
     core_metric.make ''lambda'' ''Invocations'' ''invocations'' Sum ''AWS/Lambda'' Low 18 NoGate 60,
     core_metric.make ''lambda'' ''IteratorAge'' ''iteratorage'' Maximum ''AWS/Lambda'' Low 18 NoGate 60]"

definition CWAGENT_MEM_TIER :: poll_tier where
  "CWAGENT_MEM_TIER = Standard"

definition CWAGENT_DISK_TIER :: poll_tier where
  "CWAGENT_DISK_TIER = Low"

definition AWS_DESCRIBE_METRICS :: "(string \<times> string) list" where
  "AWS_DESCRIBE_METRICS =
    [(''ec2'', ''statuscheckfailed''), (''elb'', ''healthyhosts_describe''),
     (''elb'', ''unhealthyhosts_describe'')]"

subsection \<open>AWS extended metrics\<close>

definition AWS_EXTENDED_TIER_OVERRIDES :: "((string \<times> string) \<times> poll_tier) list" where
  "AWS_EXTENDED_TIER_OVERRIDES =
    [((''sqs'', ''ApproximateAgeOfOldestMessage''), Standard),
     ((''sqs'', ''ApproximateNumberOfMessagesVisible''), Standard),
     ((''opensearch'', ''ClusterStatus.red''), Standard),
     ((''opensearch'', ''ClusterStatus.yellow''), Standard),
     ((''opensearch'', ''ClusterIndexWritesBlocked''), Standard),
     ((''opensearch'', ''JVMMemoryPressure''), Standard),
     ((''elasticache'', ''CPUUtilization''), Standard),
     ((''elasticache'', ''DatabaseMemoryUsagePercentage''), Standard),
     ((''elasticache'', ''Evictions''), Standard),
     ((''memorydb'', ''DatabaseMemoryUsagePercentage''), Standard),
     ((''memorydb'', ''Evictions''), Standard),
     ((''route53'', ''HealthCheckStatus''), Standard),
     ((''ecs'', ''CPUUtilization''), Standard),
     ((''ecs'', ''MemoryUtilization''), Standard),
     ((''ecs'', ''RunningTaskCount''), Standard),
     ((''ecs'', ''PendingTaskCount''), Standard),
     ((''eks'', ''cluster_failed_node_count''), Standard),
     ((''dynamodb'', ''ThrottledRequests''), Standard),
     ((''dynamodb'', ''ReadThrottleEvents''), Standard),
     ((''dynamodb'', ''WriteThrottleEvents''), Standard),
     ((''dynamodb'', ''SystemErrors''), Standard),
     ((''msk'', ''OfflinePartitionsCount''), Standard),
     ((''msk'', ''UnderReplicatedPartitions''), Standard),
     ((''apigateway'', ''5XXError''), Standard),
     ((''natgateway'', ''ErrorPortAllocation''), Low),
     ((''natgateway'', ''PacketsDropCount''), Low), ((''vpn'', ''TunnelState''), Low),
     ((''directconnect'', ''ConnectionState''), Low),
     ((''directconnect'', ''ConnectionErrorCount''), Low),
     ((''states'', ''ExecutionsFailed''), Low), ((''states'', ''ExecutionsTimedOut''), Low),
     ((''events'', ''FailedInvocations''), Low),
     ((''kinesis'', ''ReadProvisionedThroughputExceeded''), Low),
     ((''kinesis'', ''WriteProvisionedThroughputExceeded''), Low),
     ((''kinesis'', ''GetRecords.IteratorAgeMilliseconds''), Low),
     ((''firehose'', ''DeliveryToS3.DataFreshness''), Low),
     ((''efs'', ''PercentIOLimit''), Low), ((''efs'', ''BurstCreditBalance''), Low),
     ((''msk'', ''CpuUser''), Low), ((''msk'', ''KafkaDataLogsDiskUsed''), Low),
     ((''redshift'', ''PercentageDiskSpaceUsed''), Low), ((''s3'', ''AllRequests''), Low),
     ((''s3'', ''4xxErrors''), Low), ((''s3'', ''5xxErrors''), Low),
     ((''s3'', ''FirstByteLatency''), Low), ((''s3'', ''TotalRequestLatency''), Low),
     ((''certificatemanager'', ''DaysToExpiry''), Slow_Extended),
     ((''kms'', ''SecondsUntilKeyMaterialExpiration''), Slow_Extended),
     ((''apigateway'', ''Latency''), Low), ((''apigateway'', ''IntegrationLatency''), Low),
     ((''elasticache'', ''ReplicationLag''), Low),
     ((''transitgateway'', ''PacketDropCountBlackhole''), Low),
     ((''transitgateway'', ''PacketDropCountNoRoute''), Low),
     ((''documentdb'', ''CPUUtilization''), Low),
     ((''documentdb'', ''FreeableMemory''), Low), ((''neptune'', ''CPUUtilization''), Low),
     ((''redshift'', ''CPUUtilization''), Low), ((''opensearch'', ''CPUUtilization''), Low),
     ((''opensearch'', ''FreeStorageSpace''), Low),
     ((''memorydb'', ''CPUUtilization''), Low), ((''dms'', ''CDCLatencySource''), Low),
     ((''dms'', ''CDCLatencyTarget''), Low), ((''cloudfront'', ''5xxErrorRate''), Low),
     ((''cloudfront'', ''TotalErrorRate''), Low)]"

definition AWS_EXTENDED_LOOKBACK_MIN :: "poll_tier \<Rightarrow> nat option" where
  "AWS_EXTENDED_LOOKBACK_MIN t =
     (case t of Standard \<Rightarrow> Some 15 | Low \<Rightarrow> Some 25 | Extended \<Rightarrow> Some 70
      | Slow_Extended \<Rightarrow> Some 2900 | Critical \<Rightarrow> None)"

definition AWS_SLOW_EXTENDED_SERVICES :: "string list" where
  "AWS_SLOW_EXTENDED_SERVICES =
    [''backup'', ''cloudfront'', ''logs'', ''s3'', ''wafv2'']"

definition AWS_EXTENDED_PERIOD_OVERRIDES :: "((string \<times> string) \<times> nat) list" where
  "AWS_EXTENDED_PERIOD_OVERRIDES =
    [((''s3'', ''BucketSizeBytes''), 86400), ((''s3'', ''NumberOfObjects''), 86400),
     ((''certificatemanager'', ''DaysToExpiry''), 86400),
     ((''kms'', ''SecondsUntilKeyMaterialExpiration''), 86400)]"

definition AWS_EXTENDED_ACTIVITY_DRIVEN_METRICS :: "(string \<times> string) list" where
  "AWS_EXTENDED_ACTIVITY_DRIVEN_METRICS =
    [(''backup'', ''NumberOfBackupJobsCompleted''),
     (''backup'', ''NumberOfBackupJobsFailed''),
     (''backup'', ''NumberOfRestoreJobsFailed''), (''cloudfront'', ''4xxErrorRate''),
     (''cloudfront'', ''5xxErrorRate''), (''cloudfront'', ''BytesDownloaded''),
     (''cloudfront'', ''BytesUploaded''), (''cloudfront'', ''CacheHitRate''),
     (''cloudfront'', ''OriginLatency''), (''cloudfront'', ''Requests''),
     (''cloudfront'', ''TotalErrorRate''), (''logs'', ''DeliveryErrors''),
     (''logs'', ''IncomingBytes''), (''logs'', ''IncomingLogEvents''),
     (''s3'', ''4xxErrors''), (''s3'', ''5xxErrors''), (''s3'', ''AllRequests''),
     (''s3'', ''FirstByteLatency''), (''s3'', ''TotalRequestLatency''),
     (''wafv2'', ''AllowedRequests''), (''wafv2'', ''BlockRatio''),
     (''wafv2'', ''BlockedRequests''), (''wafv2'', ''CaptchaRequests''),
     (''wafv2'', ''ChallengeRequests''), (''wafv2'', ''CountedRequests''),
     (''wafv2'', ''PassedRequests''), (''wafv2'', ''RequestsWithValidCaptchaToken''),
     (''wafv2'', ''RequestsWithValidChallengeToken'')]"

definition WAF_STANDARD_METRICS :: "string list" where
  "WAF_STANDARD_METRICS =
    [''AllowedRequests'', ''BlockedRequests'', ''CountedRequests'', ''PassedRequests'',
     ''CaptchaRequests'', ''ChallengeRequests'', ''BlockRatio'']"

definition WAF_LOW_METRICS :: "string list" where
  "WAF_LOW_METRICS = [''RequestsWithValidCaptchaToken'', ''RequestsWithValidChallengeToken'']"

text \<open>\<open>waf_fast\<close> is \<open>waf_fast_enabled()\<close>, read from the process environment.\<close>

definition aws_extended_period_sec :: "bool \<Rightarrow> string \<Rightarrow> string \<Rightarrow> nat" where
  "aws_extended_period_sec waf_fast service cw_metric_name =
     (if service = ''wafv2'' \<and> waf_fast \<and>
         (cw_metric_name \<in> set WAF_STANDARD_METRICS \<or> cw_metric_name \<in> set WAF_LOW_METRICS)
      then 60
      else (case map_of AWS_EXTENDED_PERIOD_OVERRIDES (service, cw_metric_name) of
              Some p \<Rightarrow> p | None \<Rightarrow> 300))"

definition aws_extended_tier :: "bool \<Rightarrow> string \<Rightarrow> string \<Rightarrow> poll_tier" where
  "aws_extended_tier waf_fast service cw_metric_name =
     (if service = ''wafv2'' \<and> waf_fast \<and> cw_metric_name \<in> set WAF_STANDARD_METRICS then Standard
      else if service = ''wafv2'' \<and> waf_fast \<and> cw_metric_name \<in> set WAF_LOW_METRICS then Low
      else (case map_of AWS_EXTENDED_TIER_OVERRIDES (service, cw_metric_name) of
              Some t \<Rightarrow> t
            | None \<Rightarrow> if service \<in> set AWS_SLOW_EXTENDED_SERVICES then Slow_Extended else Extended))"

subsection \<open>Freshness\<close>

definition provider_window_seconds :: "nat \<Rightarrow> nat \<Rightarrow> nat" where
  "provider_window_seconds interval_seconds publish_delay_seconds = interval_seconds + publish_delay_seconds"

datatype cadence = CoreC | ExtendedC | SlowC

definition cadence_for_interval :: "nat \<Rightarrow> cadence" where
  "cadence_for_interval seconds =
     (if seconds \<le> 300 then CoreC else if seconds \<ge> 86400 then SlowC else ExtendedC)"

definition EVAL_WINDOW_MIN_BY_INTERVAL :: "(nat \<times> nat) list" where
  "EVAL_WINDOW_MIN_BY_INTERVAL = [(120, 10), (300, 10), (900, 25), (3600, 75), (86400, 1560)]"

definition STALE_MIN_BY_INTERVAL :: "(nat \<times> nat) list" where
  "STALE_MIN_BY_INTERVAL = [(120, 20), (300, 20), (900, 45), (3600, 180), (86400, 3000)]"

definition CLASS_DEFAULT_INTERVAL :: "cadence \<Rightarrow> nat" where
  "CLASS_DEFAULT_INTERVAL c = (case c of CoreC \<Rightarrow> 300 | ExtendedC \<Rightarrow> 3600 | SlowC \<Rightarrow> 86400)"

definition AWS_CORE_TYPES :: "string list" where
  "AWS_CORE_TYPES = [''ec2'', ''ebs'', ''rds'', ''lambda'', ''elb'', ''ecs'']"

definition aws_class :: "string \<Rightarrow> cadence" where
  "aws_class resource_type =
     (if resource_type \<in> set AWS_SLOW_EXTENDED_SERVICES then SlowC
      else if resource_type \<in> set AWS_CORE_TYPES then CoreC else ExtendedC)"

subsection \<open>Overrides\<close>

type_synonym override_map = "(string \<times> string \<times> string, nat) dict"

text \<open>\<open>put\<close>: only an interval that differs from the class default is recorded.\<close>

definition put_override ::
  "string \<Rightarrow> string \<Rightarrow> string \<Rightarrow> nat \<Rightarrow> nat \<Rightarrow> override_map \<Rightarrow> override_map" where
  "put_override provider rtype name seconds dflt out =
     (if seconds \<noteq> dflt then dict_set out (provider, rtype, lower name) seconds else out)"

fun put_core :: "core_metric list \<Rightarrow> override_map \<Rightarrow> override_map" where
  "put_core [] out = out"
| "put_core (m # ms) out =
     put_core ms (put_override ''aws'' (cm_resource_type m) (cm_db_name m)
                    (TIER_SECONDS (cm_tier m)) 300 out)"

fun put_service :: "bool \<Rightarrow> string \<Rightarrow> nat \<Rightarrow> string list \<Rightarrow> override_map \<Rightarrow> override_map" where
  "put_service waf_fast service dflt [] out = out"
| "put_service waf_fast service dflt (m # ms) out =
     put_service waf_fast service dflt ms
       (put_override ''aws'' service (resolve_db_metric_name service m)
          (TIER_SECONDS (aws_extended_tier waf_fast service m)) dflt out)"

fun put_aws_curated :: "bool \<Rightarrow> curated \<Rightarrow> override_map \<Rightarrow> override_map" where
  "put_aws_curated waf_fast [] out = out"
| "put_aws_curated waf_fast ((service, category, metrics) # rest) out =
     (if category \<noteq> ExtendedCat \<or> service = ''nlb'' then put_aws_curated waf_fast rest out
      else put_aws_curated waf_fast rest
             (put_service waf_fast service (CLASS_DEFAULT_INTERVAL (aws_class service)) metrics out))"

fun put_provider :: "string \<Rightarrow> ((string \<times> string) \<times> nat) list \<Rightarrow> override_map \<Rightarrow> override_map" where
  "put_provider provider [] out = out"
| "put_provider provider (((service, metric), seconds) # rest) out =
     put_provider provider rest (put_override provider service metric seconds 300 out)"

definition az_intervals :: "curated \<Rightarrow> ((string \<times> string) \<times> nat) list" where
  "az_intervals cur = map (\<lambda>(k, t). (k, az_TIER_INTERVAL_SECONDS t)) (az_metric_tiers cur)"

definition gcp_intervals :: "curated \<Rightarrow> ((string \<times> string) \<times> nat) list" where
  "gcp_intervals cur =
     List.map_filter (\<lambda>(k, t). map_option (Pair k) (gcp_TIER_INTERVAL_SECONDS t)) (gcp_metric_tiers cur)"

definition metric_interval_overrides ::
  "bool \<Rightarrow> curated \<Rightarrow> curated \<Rightarrow> curated \<Rightarrow> override_map" where
  "metric_interval_overrides waf_fast aws_curated az_curated gcp_curated =
     put_provider ''gcp'' (gcp_intervals gcp_curated)
       (put_provider ''azure'' (az_intervals az_curated)
         (put_aws_curated waf_fast aws_curated
           (put_override ''aws'' ''ec2'' ''disk_used_percent'' (TIER_SECONDS CWAGENT_DISK_TIER) 300
             (put_override ''aws'' ''ec2'' ''mem_used_percent'' (TIER_SECONDS CWAGENT_MEM_TIER) 300
               (put_core AWS_CORE_METRICS [])))))"

definition PREFIX_INTERVAL_OVERRIDES :: "(string \<times> string \<times> string \<times> nat) list" where
  "PREFIX_INTERVAL_OVERRIDES =
     [(''aws'', ''ec2'', ''disk_used_percent__'', TIER_SECONDS CWAGENT_DISK_TIER)]"

subsection \<open>The P1 set and the base interval of one metric\<close>

definition lower_keys :: "allowlist \<Rightarrow> (string \<times> string) list" where
  "lower_keys m = concat (map (\<lambda>(service, names). map (\<lambda>n. (service, lower n)) names) m)"

definition p1_metric_keys :: "(string \<times> string) list" where
  "p1_metric_keys =
     map (\<lambda>m. (cm_resource_type m, cm_db_name m)) (filter (\<lambda>m. cm_tier m = Critical) AWS_CORE_METRICS)
     @ AWS_DESCRIBE_METRICS @ lower_keys az_CRITICAL_METRICS @ lower_keys gcp_CRITICAL_METRICS"

fun core_interval :: "core_metric list \<Rightarrow> string \<Rightarrow> string \<Rightarrow> nat option" where
  "core_interval [] rtype db = None"
| "core_interval (m # ms) rtype db =
     (if cm_resource_type m = rtype \<and> cm_db_name m = db then Some (TIER_SECONDS (cm_tier m))
      else core_interval ms rtype db)"

definition aws_fixed_interval :: "string \<Rightarrow> string \<Rightarrow> nat option" where
  "aws_fixed_interval rtype db =
     (case core_interval AWS_CORE_METRICS rtype db of
        Some s \<Rightarrow> Some s
      | None \<Rightarrow>
          if rtype = ''ec2'' \<and> db = ''mem_used_percent'' then Some (TIER_SECONDS CWAGENT_MEM_TIER)
          else if rtype = ''ec2'' \<and> (db = ''disk_used_percent'' \<or> startswith db ''disk_used_percent__'')
          then Some (TIER_SECONDS CWAGENT_DISK_TIER)
          else None)"

text \<open>
  \<open>base_interval_seconds\<close>; \<open>overrides\<close> is the cached result of \<open>metric_interval_overrides()\<close>.
  \<open>None\<close> is a metric that is never polled through GetMetricData.
\<close>

definition base_interval_seconds ::
  "override_map \<Rightarrow> string option \<Rightarrow> string \<Rightarrow> string \<Rightarrow> nat option" where
  "base_interval_seconds overrides provider0 resource_type db_metric =
     (let provider = lower (case provider0 of Some p \<Rightarrow> (if p = [] then ''aws'' else p) | None \<Rightarrow> ''aws'');
          rtype = lower resource_type;
          db = lower db_metric
      in if provider = ''aws'' \<and> (rtype, db) \<in> set AWS_DESCRIBE_METRICS then None
         else (case (if provider = ''aws'' then aws_fixed_interval rtype db else None) of
                 Some s \<Rightarrow> Some s
               | None \<Rightarrow>
                   (case dict_get overrides (provider, rtype, db) of
                      Some ov \<Rightarrow> Some ov
                    | None \<Rightarrow>
                        if provider = ''aws'' then Some (CLASS_DEFAULT_INTERVAL (aws_class rtype))
                        else Some 300)))"

subsection \<open>Intervals are positive\<close>

lemma TIER_SECONDS_pos: "0 < TIER_SECONDS t"
  by (cases t) (simp_all add: TIER_SECONDS_def)

lemma CLASS_DEFAULT_INTERVAL_pos: "0 < CLASS_DEFAULT_INTERVAL c"
  by (cases c) (simp_all add: CLASS_DEFAULT_INTERVAL_def)

lemma core_interval_tier: "core_interval ms r d = Some s \<Longrightarrow> \<exists>t. s = TIER_SECONDS t"
  by (induction ms r d rule: core_interval.induct) (auto split: if_splits)

lemma aws_fixed_interval_tier: "aws_fixed_interval r d = Some s \<Longrightarrow> \<exists>t. s = TIER_SECONDS t"
  by (auto simp: aws_fixed_interval_def dest: core_interval_tier split: option.splits if_splits)

definition positive_map :: "override_map \<Rightarrow> bool" where
  "positive_map out \<longleftrightarrow> (\<forall>k s. dict_get out k = Some s \<longrightarrow> 0 < s)"

lemma positive_map_Nil: "positive_map []"
  by (simp add: positive_map_def)

lemma positive_put: "0 < s \<Longrightarrow> positive_map out \<Longrightarrow> positive_map (put_override p r n s d out)"
  by (auto simp: positive_map_def put_override_def)

lemma positive_put_core: "positive_map out \<Longrightarrow> positive_map (put_core ms out)"
  by (induction ms out rule: put_core.induct) (auto intro: positive_put TIER_SECONDS_pos)

lemma positive_put_service: "positive_map out \<Longrightarrow> positive_map (put_service w s d ms out)"
  by (induction w s d ms out rule: put_service.induct) (auto intro: positive_put TIER_SECONDS_pos)

lemma positive_put_aws: "positive_map out \<Longrightarrow> positive_map (put_aws_curated w cur out)"
  by (induction w cur out rule: put_aws_curated.induct) (auto intro: positive_put_service)

lemma positive_put_provider:
  "\<forall>(k, s)\<in>set ivs. 0 < s \<Longrightarrow> positive_map out \<Longrightarrow> positive_map (put_provider p ivs out)"
  by (induction p ivs out rule: put_provider.induct) (auto intro: positive_put)

lemma az_intervals_pos: "\<forall>(k, s)\<in>set (az_intervals cur). 0 < s"
  by (auto simp: az_intervals_def az_TIER_INTERVAL_SECONDS_def split: poll_tier.splits)

lemma gcp_intervals_pos: "\<forall>(k, s)\<in>set (gcp_intervals cur). 0 < s"
  by (auto simp: gcp_intervals_def List.map_filter_def gcp_TIER_INTERVAL_SECONDS_def
      split: poll_tier.splits)

lemma overrides_positive: "positive_map (metric_interval_overrides w aws az gcp)"
  unfolding metric_interval_overrides_def
  by (intro positive_put_provider gcp_intervals_pos az_intervals_pos positive_put_aws positive_put
      positive_put_core positive_map_Nil TIER_SECONDS_pos)

lemma wf_put: "dict_wf out \<Longrightarrow> dict_wf (put_override p r n s d out)"
  by (simp add: put_override_def)

lemma wf_put_core: "dict_wf out \<Longrightarrow> dict_wf (put_core ms out)"
  by (induction ms out rule: put_core.induct) (auto intro: wf_put)

lemma wf_put_service: "dict_wf out \<Longrightarrow> dict_wf (put_service w s d ms out)"
  by (induction w s d ms out rule: put_service.induct) (auto intro: wf_put)

lemma wf_put_aws: "dict_wf out \<Longrightarrow> dict_wf (put_aws_curated w cur out)"
  by (induction w cur out rule: put_aws_curated.induct) (auto intro: wf_put_service)

lemma wf_put_provider: "dict_wf out \<Longrightarrow> dict_wf (put_provider p ivs out)"
  by (induction p ivs out rule: put_provider.induct) (auto intro: wf_put)

lemma overrides_wf: "dict_wf (metric_interval_overrides w aws az gcp)"
  unfolding metric_interval_overrides_def
  by (intro wf_put_provider wf_put_aws wf_put wf_put_core dict_wf_Nil)

text \<open>Consecutive polls of an AWS core metric overlap, whatever the curated lists say.\<close>

lemma core_windows_overlap:
  "list_all (\<lambda>m. base_interval_seconds ov (Some ''aws'') (cm_resource_type m) (cm_db_name m) = Some (TIER_SECONDS (cm_tier m)) \<and>
      TIER_SECONDS (cm_tier m) + cm_period_sec m \<le> 60 * cm_lookback_min m \<and>
      cm_period_sec m \<in> {60, 300}) AWS_CORE_METRICS"
proof -
  have "list_all (\<lambda>m. lower (cm_resource_type m) = cm_resource_type m \<and> lower (cm_db_name m) = cm_db_name m \<and>
      (cm_resource_type m, cm_db_name m) \<notin> set AWS_DESCRIBE_METRICS \<and>
      aws_fixed_interval (cm_resource_type m) (cm_db_name m) = Some (TIER_SECONDS (cm_tier m)) \<and>
      TIER_SECONDS (cm_tier m) + cm_period_sec m \<le> 60 * cm_lookback_min m \<and>
      cm_period_sec m \<in> {60, 300}) AWS_CORE_METRICS"
    by code_simp
  moreover have "lower ''aws'' = ''aws''" by code_simp
  ultimately show ?thesis by (simp add: list_all_iff base_interval_seconds_def Let_def)
qed

end
