(* ===== verification/Env_Polling.thy ===== *)
theory Env_Polling
  imports Env_Tiers Polling_Model
begin

text \<open>
  \<open>app/collector/env_polling.py\<close>: how often a metric is collected, given the environment of its
  resource, and which resources are due on a tick. The process environment is a map from
  variable names to texts; \<open>int(float(text))\<close> is the argument \<open>int_of_text\<close> (\<open>None\<close> where it
  raises). Seconds are integers, clock readings rationals.
\<close>

subsection \<open>Settings\<close>

type_synonym environ = "string \<Rightarrow> string option"

definition TRUE_WORDS :: "string list" where
  "TRUE_WORDS = [''1'', ''true'', ''yes'', ''on'']"

definition flag_text_on :: "string list \<Rightarrow> string option \<Rightarrow> bool" where
  "flag_text_on words v = (lower (strip (case v of Some t \<Rightarrow> t | None \<Rightarrow> ''false'')) \<in> set words)"

definition requested :: "environ \<Rightarrow> bool" where
  "requested osenv = flag_text_on TRUE_WORDS (osenv ''ENV_POLLING_ENABLED'')"

definition classification_enabled :: "environ \<Rightarrow> bool" where
  "classification_enabled osenv = flag_text_on TRUE_WORDS (osenv ''ENV_AWARE_CLASSIFICATION'')"

definition ep_enabled :: "environ \<Rightarrow> bool" where
  "ep_enabled osenv \<longleftrightarrow> requested osenv \<and> classification_enabled osenv"

definition LEGACY_NAMES :: "(string \<times> string) list" where
  "LEGACY_NAMES =
    [(''POLL_NONPROD_INTERVAL_SECONDS'', ''POLL_DEV_INTERVAL_SECONDS''),
     (''POLL_NONPROD_CRITICAL_INTERVAL_SECONDS'', ''POLL_DEV_CRITICAL_INTERVAL_SECONDS''),
     (''POLL_NONPROD_NONCRITICAL_MODE'', ''POLL_DEV_NONCRITICAL_MODE''),
     (''POLL_NONPROD_EVAL_CRITICAL_ONLY'', ''POLL_DEV_EVAL_CRITICAL_ONLY'')]"

definition getenv_legacy :: "environ \<Rightarrow> string \<Rightarrow> string \<Rightarrow> string" where
  "getenv_legacy osenv name dflt =
     (let v = (case osenv name of
                 Some t \<Rightarrow> if strip t = [] then None else Some t
               | None \<Rightarrow> None);
          w = (case v of
                 Some t \<Rightarrow> Some t
               | None \<Rightarrow> osenv (case map_of LEGACY_NAMES name of Some l \<Rightarrow> l | None \<Rightarrow> []))
      in (case w of Some t \<Rightarrow> t | None \<Rightarrow> dflt))"

definition int_env ::
  "(string \<Rightarrow> int option) \<Rightarrow> environ \<Rightarrow> string \<Rightarrow> int \<Rightarrow> int \<Rightarrow> int \<Rightarrow> int" where
  "int_env int_of_text osenv name dflt lo hi =
     (case int_of_text (strip (getenv_legacy osenv name [])) of
        None \<Rightarrow> dflt
      | Some v \<Rightarrow> max lo (min hi v))"

definition nonprod_interval_seconds :: "(string \<Rightarrow> int option) \<Rightarrow> environ \<Rightarrow> int" where
  "nonprod_interval_seconds iot osenv =
     int_env iot osenv ''POLL_NONPROD_INTERVAL_SECONDS'' 3600 120 86400"

definition nonprod_critical_interval_seconds :: "(string \<Rightarrow> int option) \<Rightarrow> environ \<Rightarrow> int" where
  "nonprod_critical_interval_seconds iot osenv =
     int_env iot osenv ''POLL_NONPROD_CRITICAL_INTERVAL_SECONDS'' 600 120 86400"

text \<open>\<open>slow\<close> or \<open>off\<close>; any other text is the default, \<open>slow\<close>.\<close>

definition nonprod_mode_off :: "environ \<Rightarrow> bool" where
  "nonprod_mode_off osenv =
     (lower (strip (getenv_legacy osenv ''POLL_NONPROD_NONCRITICAL_MODE'' ''slow'')) = ''off'')"

definition nonprod_eval_critical_only :: "environ \<Rightarrow> bool" where
  "nonprod_eval_critical_only osenv =
     (lower (strip (getenv_legacy osenv ''POLL_NONPROD_EVAL_CRITICAL_ONLY'' ''true'')) \<in> set TRUE_WORDS)"

text \<open>The settings, read once for a decision.\<close>

record poll_cfg =
  cfg_on :: bool
  cfg_interval :: int
  cfg_critical_interval :: int
  cfg_off :: bool
  cfg_critical_only :: bool

definition read_cfg :: "(string \<Rightarrow> int option) \<Rightarrow> environ \<Rightarrow> poll_cfg" where
  "read_cfg iot osenv =
     \<lparr>cfg_on = ep_enabled osenv,
      cfg_interval = nonprod_interval_seconds iot osenv,
      cfg_critical_interval = nonprod_critical_interval_seconds iot osenv,
      cfg_off = nonprod_mode_off osenv,
      cfg_critical_only = nonprod_eval_critical_only osenv\<rparr>"

subsection \<open>The decision\<close>

definition NEVER_SLOW_AT_OR_ABOVE_SECONDS :: int where
  "NEVER_SLOW_AT_OR_ABOVE_SECONDS = 86400"

definition CYCLE_SECONDS :: int where
  "CYCLE_SECONDS = 300"

definition EXEMPT_RESOURCE_TYPES :: "string list" where
  "EXEMPT_RESOURCE_TYPES = [''wafv2'']"

definition is_critical_metric :: "(string \<times> string) list \<Rightarrow> string \<Rightarrow> string \<Rightarrow> bool" where
  "is_critical_metric p1_keys resource_type db_metric_name \<longleftrightarrow>
     (resource_type, lower db_metric_name) \<in> set p1_keys"

definition effective_interval ::
  "poll_cfg \<Rightarrow> string option \<Rightarrow> int \<Rightarrow> bool \<Rightarrow> string \<Rightarrow> int option" where
  "effective_interval cfg e base critical rtype =
     (if \<not> cfg_on cfg \<or> base \<ge> NEVER_SLOW_AT_OR_ABOVE_SECONDS \<or> rtype \<in> set EXEMPT_RESOURCE_TYPES
      then Some base
      else if to_tier e = Prod then Some base
      else if critical then Some (max base (cfg_critical_interval cfg))
      else if cfg_off cfg then None
      else Some (max base (cfg_interval cfg)))"

definition is_slowed :: "poll_cfg \<Rightarrow> string option \<Rightarrow> int \<Rightarrow> bool \<Rightarrow> string \<Rightarrow> bool" where
  "is_slowed cfg e base critical rtype =
     (case effective_interval cfg e base critical rtype of None \<Rightarrow> True | Some eff \<Rightarrow> eff > base)"

definition extra_window_minutes :: "poll_cfg \<Rightarrow> string option \<Rightarrow> int \<Rightarrow> bool \<Rightarrow> string \<Rightarrow> int" where
  "extra_window_minutes cfg e base critical rtype =
     (case effective_interval cfg e base critical rtype of
        None \<Rightarrow> 0
      | Some eff \<Rightarrow> max 0 \<lceil>(of_int (eff - base) / 60 :: rat)\<rceil>)"

definition alert_for_scale :: "poll_cfg \<Rightarrow> string option \<Rightarrow> int \<Rightarrow> bool \<Rightarrow> string \<Rightarrow> int" where
  "alert_for_scale cfg e base critical rtype =
     (case effective_interval cfg e base critical rtype of
        None \<Rightarrow> 1
      | Some eff \<Rightarrow>
          if eff \<le> base then 1
          else max 1 \<lceil>(of_int eff / of_int (max base CYCLE_SECONDS) :: rat)\<rceil>)"

definition evaluate_for_alerts ::
  "poll_cfg \<Rightarrow> string option \<Rightarrow> bool \<Rightarrow> string \<Rightarrow> int option \<Rightarrow> bool" where
  "evaluate_for_alerts cfg e critical rtype base_interval =
     (if \<not> cfg_on cfg \<or> rtype \<in> set EXEMPT_RESOURCE_TYPES then True
      else if (case base_interval of Some b \<Rightarrow> b \<ge> NEVER_SLOW_AT_OR_ABOVE_SECONDS | None \<Rightarrow> False) then True
      else if to_tier e \<noteq> Nonprod then True
      else critical \<or> \<not> cfg_critical_only cfg)"

subsection \<open>Scheduling\<close>

definition is_due :: "int option \<Rightarrow> int \<Rightarrow> rat option \<Rightarrow> rat \<Rightarrow> bool" where
  "is_due effective base prev now =
     (case effective of
        None \<Rightarrow> False
      | Some eff \<Rightarrow>
          (case prev of
             None \<Rightarrow> True
           | Some l \<Rightarrow>
               if eff \<le> base then True
               else (let tol = min (of_int base / 2) 150 in now - l \<ge> of_int eff - tol)))"

text \<open>Python's \<open>round\<close> to an integer: halves go to the even neighbour.\<close>

definition py_round :: "rat \<Rightarrow> int" where
  "py_round x =
     (let f = \<lfloor>x\<rfloor>; d = x - of_int f in
      if d < 1 / 2 then f else if d > 1 / 2 then f + 1 else if even f then f else f + 1)"

definition stagger_seconds :: "int \<Rightarrow> int \<Rightarrow> int \<Rightarrow> int" where
  "stagger_seconds key_number effective base =
     (let slots = max 1 (py_round (of_int effective / of_int base)) in
      (key_number mod slots) * base)"

record poll_res =
  pr_id :: int
  pr_type :: string
  pr_env :: "string option"
  pr_extra_min :: "int option"

type_synonym poll_key = "int \<times> string \<times> bool"
type_synonym poll_state = "(poll_key, rat) dict"

text \<open>
  One slowed resource on a tick: its look-back extension and new last-collected time when it
  is collected, \<open>None\<close> when it is skipped.
\<close>

definition due_slowed :: "int \<Rightarrow> int \<Rightarrow> int \<Rightarrow> rat option \<Rightarrow> rat \<Rightarrow> (int \<times> rat) option" where
  "due_slowed key_number eff base prev now =
     (case prev of
        None \<Rightarrow>
          Some (\<lceil>(of_int (eff - base) / 60 :: rat)\<rceil>,
                now - of_int (stagger_seconds key_number eff base))
      | Some l \<Rightarrow>
          if is_due (Some eff) base (Some l) now then
            (let gap = min (now - l) (of_int eff * 2) in
             Some (max 0 \<lceil>(gap - of_int base) / 60\<rceil>, now))
          else None)"

fun select_due_loop ::
  "poll_cfg \<Rightarrow> string \<Rightarrow> int \<Rightarrow> rat \<Rightarrow> bool \<Rightarrow> bool \<Rightarrow> poll_res list \<Rightarrow> poll_state
   \<Rightarrow> poll_res list \<times> nat \<times> poll_state" where
  "select_due_loop cfg tr base now critical recd [] st = ([], 0, st)"
| "select_due_loop cfg tr base now critical recd (r # rs) st =
     (case effective_interval cfg (pr_env r) base critical (pr_type r) of
        None \<Rightarrow>
          (case select_due_loop cfg tr base now critical recd rs st of
             (due, skipped, st') \<Rightarrow> (due, Suc skipped, st'))
      | Some eff \<Rightarrow>
          if eff \<le> base then
            (case select_due_loop cfg tr base now critical recd rs st of
               (due, skipped, st') \<Rightarrow> (r # due, skipped, st'))
          else
            (let key = (pr_id r, tr, critical) in
             case due_slowed (pr_id r) eff base (dict_get st key) now of
               None \<Rightarrow>
                 (case select_due_loop cfg tr base now critical recd rs st of
                    (due, skipped, st') \<Rightarrow> (due, Suc skipped, st'))
             | Some (extra, new_last) \<Rightarrow>
                 (case select_due_loop cfg tr base now critical recd rs
                         (if recd then dict_set st key new_last else st) of
                    (due, skipped, st') \<Rightarrow> (r\<lparr>pr_extra_min := Some extra\<rparr> # due, skipped, st'))))"

definition select_due ::
  "poll_cfg \<Rightarrow> string \<Rightarrow> int \<Rightarrow> rat \<Rightarrow> bool \<Rightarrow> bool \<Rightarrow> poll_res list \<Rightarrow> poll_state
   \<Rightarrow> poll_res list \<times> nat \<times> poll_state" where
  "select_due cfg tr base now critical recd resources st =
     (if \<not> cfg_on cfg then (resources, 0, st)
      else select_due_loop (cfg\<lparr>cfg_on := True\<rparr>) tr base now critical recd resources st)"

definition round_extra :: "int \<Rightarrow> int \<Rightarrow> int" where
  "round_extra extra_min step =
     (if extra_min \<le> 0 then 0 else \<lceil>(of_int extra_min / of_int step :: rat)\<rceil> * step)"

subsection \<open>Facts about the decision\<close>

lemma int_env_bounds:
  "lo \<le> dflt \<Longrightarrow> dflt \<le> hi \<Longrightarrow>
     lo \<le> int_env iot osenv name dflt lo hi \<and> int_env iot osenv name dflt lo hi \<le> hi"
  by (auto simp: int_env_def split: option.splits)

lemma effective_ge_base: "effective_interval cfg e base critical rtype = Some eff \<Longrightarrow> base \<le> eff"
  by (auto simp: effective_interval_def split: if_splits)

lemma effective_prod: "to_tier e = Prod \<Longrightarrow> effective_interval cfg e base critical rtype = Some base"
  by (simp add: effective_interval_def)

lemma effective_off: "\<not> cfg_on cfg \<Longrightarrow> effective_interval cfg e base critical rtype = Some base"
  by (simp add: effective_interval_def)

lemma effective_critical_collected: "effective_interval cfg e base True rtype \<noteq> None"
  by (simp add: effective_interval_def)

lemma alert_for_scale_ge_1: "1 \<le> alert_for_scale cfg e base critical rtype"
  by (auto simp: alert_for_scale_def split: option.splits)

lemma alert_for_scale_unslowed:
  "effective_interval cfg e base critical rtype = Some base \<Longrightarrow>
     alert_for_scale cfg e base critical rtype = 1"
  by (simp add: alert_for_scale_def)

lemma py_round_le: "of_int (py_round x) \<le> x + 1 / 2"
  by (simp add: py_round_def Let_def) linarith

lemma py_round_ge: "x - 1 / 2 \<le> of_int (py_round x)"
  by (simp add: py_round_def Let_def) linarith

lemma select_due_loop_count:
  "select_due_loop cfg tr base now critical recd rs st = (due, skipped, st') \<Longrightarrow>
     length due + skipped = length rs"
proof (induction rs arbitrary: st due skipped st')
  case (Cons r rs)
  then show ?case
    by (auto simp: Let_def split: option.splits if_splits prod.splits)
qed simp

lemma select_due_loop_ids:
  "select_due_loop cfg tr base now critical recd rs st = (due, skipped, st') \<Longrightarrow>
     set (map pr_id due) \<subseteq> set (map pr_id rs)"
proof (induction rs arbitrary: st due skipped st')
  case (Cons r rs)
  then show ?case
    by (fastforce simp: Let_def split: option.splits if_splits prod.splits)
qed simp

text \<open>What the collected window covers.\<close>

lemma ceiling_60: "(x::rat) \<le> 60 * of_int \<lceil>x / 60\<rceil>"
proof -
  have "x / 60 \<le> of_int \<lceil>x / 60\<rceil>" by (rule le_of_int_ceiling)
  then show ?thesis by linarith
qed

lemma due_slowed_covers:
  assumes "due_slowed k eff base prev now = Some (extra, nl)"
  shows "(case prev of
            Some l \<Rightarrow> min (now - l) (2 * of_int eff) \<le> of_int base + 60 * of_int extra
          | None \<Rightarrow> of_int eff \<le> (of_int base + 60 * of_int extra :: rat))"
proof (cases prev)
  case None
  with assms have "extra = \<lceil>(of_int (eff - base) / 60 :: rat)\<rceil>" by (simp add: due_slowed_def)
  with ceiling_60 [of "of_int (eff - base)"] None show ?thesis by simp
next
  case (Some l)
  let ?g = "min (now - l) (of_int eff * 2)"
  from Some assms have "extra = max 0 \<lceil>(?g - of_int base) / 60\<rceil>"
    by (auto simp: due_slowed_def Let_def split: if_splits)
  then have "(of_int \<lceil>(?g - of_int base) / 60\<rceil> :: rat) \<le> of_int extra" by simp
  with ceiling_60 [of "?g - of_int base"] have "?g \<le> of_int base + 60 * of_int extra" by linarith
  with Some show ?thesis by (simp add: mult.commute)
qed

lemma due_slowed_last:
  "due_slowed k eff base (Some l) now = Some (extra, nl) \<Longrightarrow>
     nl = now \<and> is_due (Some eff) base (Some l) now"
  by (auto simp: due_slowed_def Let_def split: if_splits)

text \<open>Production resources pass through the loop untouched.\<close>

lemma select_due_loop_prod:
  "select_due_loop cfg tr base now critical recd rs st = (due, skipped, st') \<Longrightarrow>
     filter (\<lambda>r. to_tier (pr_env r) = Prod) due = filter (\<lambda>r. to_tier (pr_env r) = Prod) rs"
proof (induction rs arbitrary: st due skipped st')
  case (Cons r rs)
  show ?case
  proof (cases "to_tier (pr_env r) = Prod")
    case True
    obtain d s t where l: "select_due_loop cfg tr base now critical recd rs st = (d, s, t)"
      by (metis prod_cases3)
    then have "due = r # d" using Cons.prems True by (simp add: effective_prod)
    then show ?thesis using Cons.IH [OF l] True by simp
  next
    case False
    obtain st1 d s t where l: "select_due_loop cfg tr base now critical recd rs st1 = (d, s, t)"
      and due: "due = d \<or> (\<exists>x. due = x # d \<and> pr_env x = pr_env r)"
      using Cons.prems by (auto simp: Let_def split: option.splits if_splits prod.splits)
    then show ?thesis using Cons.IH [OF l] False by auto
  qed
qed simp

end
