(* ===== verification/Alert_Rules.thy ===== *)
theory Alert_Rules
  imports Alert_Tables Env_Polling
begin

text \<open>
  \<open>app/alert_rules.py\<close> (with \<open>app/alert_visibility.py\<close>): what state an alert is in, how long its
  reading stays fresh, and how alert rows are counted. The module builds SQL text; the model is
  what that text computes on a row, the \<open>CASE\<close> arms in their order.
\<close>

subsection \<open>Cadence classes\<close>

definition SLOW_AWS_RESOURCE_TYPES :: "string list" where
  "SLOW_AWS_RESOURCE_TYPES = [''s3'', ''logs'', ''backup'', ''cloudfront'', ''wafv2'']"

definition CORE_AWS_RESOURCE_TYPES :: "string list" where
  "CORE_AWS_RESOURCE_TYPES = [''ec2'', ''ebs'', ''rds'', ''lambda'', ''elb'', ''ecs'']"

definition STALE_MINUTES :: "cadence \<Rightarrow> nat" where
  "STALE_MINUTES c = (case c of CoreC \<Rightarrow> 20 | ExtendedC \<Rightarrow> 180 | SlowC \<Rightarrow> 3000)"

definition EVAL_WINDOW_MINUTES :: "cadence \<Rightarrow> nat" where
  "EVAL_WINDOW_MINUTES c = (case c of CoreC \<Rightarrow> 10 | ExtendedC \<Rightarrow> 75 | SlowC \<Rightarrow> 1560)"

definition HARD_EXPIRY_HOURS :: "cadence \<Rightarrow> nat" where
  "HARD_EXPIRY_HOURS c = (case c of CoreC \<Rightarrow> 72 | ExtendedC \<Rightarrow> 72 | SlowC \<Rightarrow> 168)"

definition SYSTEM_METRICS :: "string list" where
  "SYSTEM_METRICS =
     [''multivariate_anomaly'', ''synthetic_uptime'', ''synthetic_cert_expiry'',
      ''host_agent_heartbeat'', ''cloud_cost_jump'']"

definition HIDDEN_FROM_ALERTS_UI_METRICS :: "string list" where
  "HIDDEN_FROM_ALERTS_UI_METRICS = [''multivariate_anomaly'']"

definition cadence_class :: "string \<Rightarrow> string \<Rightarrow> cadence" where
  "cadence_class provider rtype =
     (if provider = ''aws'' \<and> rtype \<in> set SLOW_AWS_RESOURCE_TYPES then SlowC
      else if provider = ''aws'' \<and> rtype \<notin> set CORE_AWS_RESOURCE_TYPES then ExtendedC
      else CoreC)"

definition by_class :: "(cadence \<Rightarrow> nat) \<Rightarrow> string \<Rightarrow> string \<Rightarrow> nat" where
  "by_class mapping provider rtype = mapping (cadence_class provider rtype)"

subsection \<open>Metric-level cadence\<close>

text \<open>
  \<open>_override_groups\<close> groups the overrides by interval; \<open>_metric_case\<close> tries the groups in the
  order of their intervals, then the prefix rules, then the class.
\<close>

definition group_keys :: "override_map \<Rightarrow> nat \<Rightarrow> (string \<times> string \<times> string) list" where
  "group_keys ov s = map fst (filter (\<lambda>(k, s'). s' = s) ov)"

definition group_seconds :: "override_map \<Rightarrow> nat list" where
  "group_seconds ov = sort (remdups (map snd ov))"

fun prefix_interval ::
  "(string \<times> string \<times> string \<times> nat) list \<Rightarrow> string \<Rightarrow> string \<Rightarrow> string \<Rightarrow> nat option" where
  "prefix_interval [] provider rtype metric = None"
| "prefix_interval ((p, t, pre, s) # rules) provider rtype metric =
     (if provider = p \<and> rtype = t \<and> startswith (lower metric) pre then Some s
      else prefix_interval rules provider rtype metric)"

definition metric_case ::
  "override_map \<Rightarrow> string \<Rightarrow> string \<Rightarrow> string \<Rightarrow> (nat \<Rightarrow> 'v) \<Rightarrow> 'v \<Rightarrow> 'v" where
  "metric_case ov provider rtype metric value_for_interval fallback =
     (case find (\<lambda>s. (provider, rtype, lower metric) \<in> set (group_keys ov s)) (group_seconds ov) of
        Some s \<Rightarrow> value_for_interval s
      | None \<Rightarrow>
          (case prefix_interval PREFIX_INTERVAL_OVERRIDES provider rtype metric of
             Some s \<Rightarrow> value_for_interval s
           | None \<Rightarrow> fallback))"

text \<open>\<open>_interval_value\<close>: the table's value, or that of the nearest interval (the first one on a tie).\<close>

definition dist_nat :: "nat \<Rightarrow> nat \<Rightarrow> nat" where
  "dist_nat a b = (if a \<le> b then b - a else a - b)"

fun nearest :: "nat \<Rightarrow> nat \<times> nat \<Rightarrow> (nat \<times> nat) list \<Rightarrow> nat \<times> nat" where
  "nearest s best [] = best"
| "nearest s best (e # es) =
     (if dist_nat (fst e) s < dist_nat (fst best) s then nearest s e es else nearest s best es)"

definition interval_value :: "(nat \<times> nat) list \<Rightarrow> nat \<Rightarrow> nat" where
  "interval_value table seconds =
     (case map_of table seconds of
        Some v \<Rightarrow> v
      | None \<Rightarrow> (case table of [] \<Rightarrow> 0 | e # es \<Rightarrow> snd (nearest seconds e es)))"

definition metric_cadence :: "override_map \<Rightarrow> string \<Rightarrow> string \<Rightarrow> string \<Rightarrow> cadence" where
  "metric_cadence ov provider rtype metric =
     metric_case ov provider rtype metric cadence_for_interval (cadence_class provider rtype)"

subsection \<open>Environment-aware slack\<close>

definition STORED_NONPROD :: "string list" where
  "STORED_NONPROD = [''nonprod'', ''uat'', ''dev'']"

definition env_expr :: "poll_cfg \<Rightarrow> string option \<Rightarrow> nat \<Rightarrow> bool \<Rightarrow> nat" where
  "env_expr cfg env_resolved seconds crit =
     (if int seconds \<ge> NEVER_SLOW_AT_OR_ABOVE_SECONDS then 0
      else (case env_resolved of
              None \<Rightarrow> 0
            | Some e \<Rightarrow>
                if e \<in> set STORED_NONPROD then
                  nat \<lceil>(of_int (max 0 ((if crit then cfg_critical_interval cfg else cfg_interval cfg)
                                       - int seconds)) / 60 :: rat)\<rceil>
                else 0))"

definition env_poll_extra ::
  "poll_cfg \<Rightarrow> override_map \<Rightarrow> string \<Rightarrow> string \<Rightarrow> string option \<Rightarrow> string \<Rightarrow> nat" where
  "env_poll_extra cfg ov provider rtype env_resolved metric =
     (if \<not> cfg_on cfg then 0
      else if provider \<noteq> ''aws'' then 0
      else if rtype \<in> set EXEMPT_RESOURCE_TYPES then 0
      else if (rtype, lower metric) \<in> set AWS_DESCRIBE_METRICS then 0
      else metric_case ov provider rtype metric
             (\<lambda>s. env_expr cfg env_resolved s ((rtype, lower metric) \<in> set p1_metric_keys))
             (case cadence_class provider rtype of
                SlowC \<Rightarrow> 0
              | ExtendedC \<Rightarrow> env_expr cfg env_resolved 3600 False
              | CoreC \<Rightarrow> env_expr cfg env_resolved 300 False))"

definition stale_minutes ::
  "poll_cfg \<Rightarrow> override_map \<Rightarrow> string \<Rightarrow> string \<Rightarrow> string option \<Rightarrow> string \<Rightarrow> nat" where
  "stale_minutes cfg ov provider rtype env_resolved metric =
     metric_case ov provider rtype metric (interval_value STALE_MIN_BY_INTERVAL)
       (by_class STALE_MINUTES provider rtype)
     + env_poll_extra cfg ov provider rtype env_resolved metric"

definition eval_window ::
  "poll_cfg \<Rightarrow> override_map \<Rightarrow> string \<Rightarrow> string \<Rightarrow> string option \<Rightarrow> string \<Rightarrow> nat" where
  "eval_window cfg ov provider rtype env_resolved metric =
     metric_case ov provider rtype metric (interval_value EVAL_WINDOW_MIN_BY_INTERVAL)
       (by_class EVAL_WINDOW_MINUTES provider rtype)
     + env_poll_extra cfg ov provider rtype env_resolved metric"

definition hard_expiry_hours :: "string \<Rightarrow> string \<Rightarrow> nat" where
  "hard_expiry_hours provider rtype = by_class HARD_EXPIRY_HOURS provider rtype"

subsection \<open>The state of an alert\<close>

text \<open>\<open>stale_min\<close> is the value of \<open>stale_minutes_sql\<close> for the alert's resource and metric.\<close>

definition is_stale :: "secs \<Rightarrow> nat \<Rightarrow> alert \<Rightarrow> bool" where
  "is_stale now stale_min a \<longleftrightarrow> al_status a = Active \<and> seen_at a < now - int stale_min * 60"

definition is_suppressed :: "secs \<Rightarrow> alert \<Rightarrow> bool" where
  "is_suppressed now a \<longleftrightarrow>
     al_silenced a \<or> (case al_muted_until a of None \<Rightarrow> False | Some t \<Rightarrow> t > now)"

datatype alert_state = StResolved | StAcknowledged | StSuppressed | StStale | StFiring

definition alert_state :: "secs \<Rightarrow> nat \<Rightarrow> alert \<Rightarrow> alert_state" where
  "alert_state now stale_min a =
     (if al_status a = Resolved then StResolved
      else if al_status a = Acknowledged then StAcknowledged
      else if is_suppressed now a then StSuppressed
      else if is_stale now stale_min a then StStale
      else StFiring)"

definition base_where :: "alert \<Rightarrow> bool" where
  "base_where a \<longleftrightarrow> al_metric a \<notin> set HIDDEN_FROM_ALERTS_UI_METRICS"

definition firing_where :: "secs \<Rightarrow> nat \<Rightarrow> alert \<Rightarrow> bool" where
  "firing_where now stale_min a \<longleftrightarrow>
     al_status a = Active \<and> \<not> is_suppressed now a \<and> \<not> is_stale now stale_min a"

lemma firing_where_iff: "firing_where now sm a \<longleftrightarrow> alert_state now sm a = StFiring"
  by (cases "al_status a") (auto simp: firing_where_def alert_state_def)

subsection \<open>Rollups\<close>

record open_row =
  or_account :: nat
  or_resource :: string
  or_metric :: string
  or_type :: string
  or_severity :: severity
  or_state :: alert_state

text \<open>
  \<open>fetch_open_alert_rows\<close>: the open, visible alerts of active accounts, with their resource
  (joined on account and resource id), restricted to the accounts the caller may see.
\<close>

definition find_resource :: "resource list \<Rightarrow> nat \<Rightarrow> string \<Rightarrow> resource list" where
  "find_resource rs acct rid = filter (\<lambda>r. rs_account r = acct \<and> rs_resource_id r = rid) rs"

definition active_accounts :: "account list \<Rightarrow> nat \<Rightarrow> account list" where
  "active_accounts accs acct = filter (\<lambda>ac. ac_id ac = acct \<and> ac_active ac) accs"

definition alert_base_from ::
  "alert list \<Rightarrow> resource list \<Rightarrow> account list \<Rightarrow> (alert \<times> resource \<times> account) list" where
  "alert_base_from as rs accs =
     concat (map (\<lambda>a. case al_account a of
         None \<Rightarrow> []
       | Some acct \<Rightarrow>
           concat (map (\<lambda>r. map (\<lambda>ac. (a, r, ac)) (active_accounts accs acct))
             (find_resource rs acct (al_resource a)))) as)"

definition fetch_open_alert_rows ::
  "(alert \<Rightarrow> resource \<Rightarrow> account \<Rightarrow> nat) \<Rightarrow> secs \<Rightarrow> alert list \<Rightarrow> resource list \<Rightarrow> account list
   \<Rightarrow> nat list option \<Rightarrow> open_row list" where
  "fetch_open_alert_rows stale_min now as rs accs account_ids =
     (if account_ids = Some [] then []
      else map (\<lambda>(a, r, ac).
          \<lparr>or_account = the (al_account a), or_resource = al_resource a, or_metric = al_metric a,
           or_type = rs_type r, or_severity = al_severity a,
           or_state = alert_state now (stale_min a r ac) a\<rparr>)
        (filter (\<lambda>(a, r, ac). is_open a \<and> base_where a \<and>
            (case account_ids of None \<Rightarrow> True | Some ids \<Rightarrow> the (al_account a) \<in> set ids))
          (alert_base_from as rs accs)))"

record bucket =
  bk_critical :: nat
  bk_warning :: nat
  bk_info :: nat
  bk_stale :: nat
  bk_acknowledged :: nat
  bk_suppressed :: nat
  bk_resources :: "string list"
  bk_critical_resources :: "string list"
  bk_warning_resources :: "string list"

definition blank_bucket :: bucket where
  "blank_bucket = \<lparr>bk_critical = 0, bk_warning = 0, bk_info = 0, bk_stale = 0, bk_acknowledged = 0,
     bk_suppressed = 0, bk_resources = [], bk_critical_resources = [], bk_warning_resources = []\<rparr>"

definition bucket_add :: "bucket \<Rightarrow> open_row \<Rightarrow> bucket" where
  "bucket_add b row =
     (case or_state row of
        StFiring \<Rightarrow>
          (let b' = b\<lparr>bk_resources := List.insert (or_resource row) (bk_resources b)\<rparr> in
           case or_severity row of
             CRITICAL \<Rightarrow> b'\<lparr>bk_critical := bk_critical b + 1,
                 bk_critical_resources := List.insert (or_resource row) (bk_critical_resources b)\<rparr>
           | WARNING \<Rightarrow> b'\<lparr>bk_warning := bk_warning b + 1,
                 bk_warning_resources := List.insert (or_resource row) (bk_warning_resources b)\<rparr>
           | INFO \<Rightarrow> b'\<lparr>bk_info := bk_info b + 1\<rparr>)
      | StStale \<Rightarrow> b\<lparr>bk_stale := bk_stale b + 1\<rparr>
      | StAcknowledged \<Rightarrow> b\<lparr>bk_acknowledged := bk_acknowledged b + 1\<rparr>
      | StSuppressed \<Rightarrow> b\<lparr>bk_suppressed := bk_suppressed b + 1\<rparr>
      | StResolved \<Rightarrow> b)"

record counts =
  ct_critical :: nat
  ct_warning :: nat
  ct_info :: nat
  ct_stale :: nat
  ct_acknowledged :: nat
  ct_suppressed :: nat
  ct_resources_affected :: nat
  ct_critical_resources :: nat
  ct_warning_resources :: nat
  ct_firing :: nat

definition bucket_finish :: "bucket \<Rightarrow> counts" where
  "bucket_finish b =
     \<lparr>ct_critical = bk_critical b, ct_warning = bk_warning b, ct_info = bk_info b,
      ct_stale = bk_stale b, ct_acknowledged = bk_acknowledged b, ct_suppressed = bk_suppressed b,
      ct_resources_affected = length (bk_resources b),
      ct_critical_resources = length (bk_critical_resources b),
      ct_warning_resources = length (bk_warning_resources b),
      ct_firing = bk_critical b + bk_warning b + bk_info b\<rparr>"

record res_counts =
  rc_service :: string
  rc_critical :: nat
  rc_warning :: nat
  rc_info :: nat
  rc_stale :: nat
  rc_acknowledged :: nat
  rc_suppressed :: nat

definition svc_key :: "open_row \<Rightarrow> string" where
  "svc_key row = normalize_service_key (or_type row) (or_resource row)"

text \<open>The service of a resource is that of its first row.\<close>

definition res_add :: "res_counts option \<Rightarrow> open_row \<Rightarrow> res_counts option" where
  "res_add c row =
     (let r = (case c of
                 Some r \<Rightarrow> r
               | None \<Rightarrow> \<lparr>rc_service = svc_key row, rc_critical = 0, rc_warning = 0, rc_info = 0,
                          rc_stale = 0, rc_acknowledged = 0, rc_suppressed = 0\<rparr>)
      in Some (case or_state row of
           StFiring \<Rightarrow>
             (case or_severity row of
                CRITICAL \<Rightarrow> r\<lparr>rc_critical := rc_critical r + 1\<rparr>
              | WARNING \<Rightarrow> r\<lparr>rc_warning := rc_warning r + 1\<rparr>
              | INFO \<Rightarrow> r\<lparr>rc_info := rc_info r + 1\<rparr>)
         | StStale \<Rightarrow> r\<lparr>rc_stale := rc_stale r + 1\<rparr>
         | StAcknowledged \<Rightarrow> r\<lparr>rc_acknowledged := rc_acknowledged r + 1\<rparr>
         | StSuppressed \<Rightarrow> r\<lparr>rc_suppressed := rc_suppressed r + 1\<rparr>
         | StResolved \<Rightarrow> r))"

definition res_worst :: "res_counts \<Rightarrow> severity option" where
  "res_worst r =
     (if rc_critical r > 0 then Some CRITICAL else if rc_warning r > 0 then Some WARNING
      else if rc_info r > 0 then Some INFO else None)"

definition res_total :: "res_counts \<Rightarrow> nat" where
  "res_total r = rc_critical r + rc_warning r + rc_info r"

record rollup =
  ru_accounts :: "(nat, counts \<times> (string, counts) dict) dict"
  ru_resources :: "(nat \<times> string, res_counts \<times> severity option \<times> nat) dict"

definition account_buckets :: "open_row list \<Rightarrow> (nat, bucket) dict" where
  "account_buckets rows = group_rows or_account bucket_add blank_bucket rows []"

definition service_buckets :: "open_row list \<Rightarrow> (nat \<times> string, bucket) dict" where
  "service_buckets rows =
     group_rows (\<lambda>r. (or_account r, svc_key r)) bucket_add blank_bucket rows []"

definition resource_counts :: "open_row list \<Rightarrow> (nat \<times> string, res_counts option) dict" where
  "resource_counts rows = group_rows (\<lambda>r. (or_account r, or_resource r)) res_add None rows []"

definition services_of :: "open_row list \<Rightarrow> nat \<Rightarrow> (string, counts) dict" where
  "services_of rows acct =
     map (\<lambda>((ac, svc), b). (svc, bucket_finish b)) (filter (\<lambda>((ac, svc), b). ac = acct) (service_buckets rows))"

definition rollup :: "open_row list \<Rightarrow> rollup" where
  "rollup rows =
     \<lparr>ru_accounts = map (\<lambda>(acct, b). (acct, bucket_finish b, services_of rows acct)) (account_buckets rows),
      ru_resources = List.map_filter (\<lambda>(k, c). map_option (\<lambda>r. (k, r, res_worst r, res_total r)) c)
                       (resource_counts rows)\<rparr>"

subsection \<open>The health ring\<close>

record ring =
  rg_total :: nat
  rg_critical :: nat
  rg_warning :: nat
  rg_healthy :: int
  rg_critical_services :: "string list"
  rg_warning_services :: "string list"

definition crit_services :: "(string, counts) dict \<Rightarrow> string list" where
  "crit_services d = map fst (filter (\<lambda>(k, v). ct_critical v > 0) d)"

definition warn_services :: "(string, counts) dict \<Rightarrow> string list" where
  "warn_services d = map fst (filter (\<lambda>(k, v). \<not> ct_critical v > 0 \<and> ct_warning v > 0) d)"

text \<open>The two service lists are sorted for display; the model keeps them as collected.\<close>

definition service_ring :: "string list \<Rightarrow> (string, counts) dict \<Rightarrow> ring" where
  "service_ring active_services services_rollup =
     (let crit = crit_services services_rollup;
          warn = warn_services services_rollup;
          total = card (set active_services \<union> set crit \<union> set warn)
      in \<lparr>rg_total = total, rg_critical = length crit, rg_warning = length warn,
          rg_healthy = int total - int (length crit) - int (length warn),
          rg_critical_services = crit, rg_warning_services = warn\<rparr>)"

subsection \<open>The grouped CASE is a lookup\<close>

lemma group_keys_iff: "dict_wf ov \<Longrightarrow> k \<in> set (group_keys ov s) \<longleftrightarrow> dict_get ov k = Some s"
  by (force simp: group_keys_def dict_get_in)

lemma find_unique: "s \<in> set xs \<Longrightarrow> (\<And>x. P x \<longleftrightarrow> x = s) \<Longrightarrow> find P xs = Some s"
  by (induction xs) auto

lemma find_group:
  assumes "dict_wf ov"
  shows "find (\<lambda>s. k \<in> set (group_keys ov s)) (group_seconds ov) = dict_get ov k"
proof (cases "dict_get ov k")
  case None
  then have "find (\<lambda>s. k \<in> set (group_keys ov s)) (group_seconds ov) = None"
    using group_keys_iff [OF assms] by (simp add: find_None_iff)
  with None show ?thesis by simp
next
  case (Some s)
  then have "(k, s) \<in> set ov" using dict_get_in [OF assms] by simp
  then have "s \<in> set (group_seconds ov)" by (force simp: group_seconds_def)
  moreover have "k \<in> set (group_keys ov s') \<longleftrightarrow> s' = s" for s'
    using Some group_keys_iff [OF assms] by auto
  ultimately have "find (\<lambda>s. k \<in> set (group_keys ov s)) (group_seconds ov) = Some s"
    by (intro find_unique)
  with Some show ?thesis by simp
qed

lemma metric_case_lookup:
  "dict_wf ov \<Longrightarrow> metric_case ov p r m f d =
     (case dict_get ov (p, r, lower m) of
        Some s \<Rightarrow> f s
      | None \<Rightarrow> (case prefix_interval PREFIX_INTERVAL_OVERRIDES p r m of Some s \<Rightarrow> f s | None \<Rightarrow> d))"
  by (simp add: metric_case_def find_group)

subsection \<open>Counts of a bucket\<close>

definition n_state :: "alert_state \<Rightarrow> open_row list \<Rightarrow> nat" where
  "n_state st rows = length (filter (\<lambda>r. or_state r = st) rows)"

definition n_firing :: "severity \<Rightarrow> open_row list \<Rightarrow> nat" where
  "n_firing sev rows = length (filter (\<lambda>r. or_state r = StFiring \<and> or_severity r = sev) rows)"

lemma bucket_counts:
  "bk_critical (foldl bucket_add b rows) = bk_critical b + n_firing CRITICAL rows"
  "bk_warning (foldl bucket_add b rows) = bk_warning b + n_firing WARNING rows"
  "bk_info (foldl bucket_add b rows) = bk_info b + n_firing INFO rows"
  "bk_stale (foldl bucket_add b rows) = bk_stale b + n_state StStale rows"
  "bk_acknowledged (foldl bucket_add b rows) = bk_acknowledged b + n_state StAcknowledged rows"
  "bk_suppressed (foldl bucket_add b rows) = bk_suppressed b + n_state StSuppressed rows"
  by (induction rows arbitrary: b)
     (auto simp: bucket_add_def n_firing_def n_state_def Let_def split: alert_state.splits severity.splits)

lemma bucket_resources:
  "distinct (bk_resources b) \<Longrightarrow> distinct (bk_resources (foldl bucket_add b rows)) \<and>
     set (bk_resources (foldl bucket_add b rows)) =
       set (bk_resources b) \<union> or_resource ` {r \<in> set rows. or_state r = StFiring}"
proof (induction rows arbitrary: b)
  case (Cons r rows)
  have "distinct (bk_resources (bucket_add b r))"
    using Cons.prems by (auto simp: bucket_add_def Let_def split: alert_state.splits severity.splits)
  from Cons.IH [OF this] show ?case
    by (auto simp: bucket_add_def Let_def split: alert_state.splits severity.splits)
qed simp

lemma finish_counts:
  "ct_critical (bucket_finish (foldl bucket_add blank_bucket rows)) = n_firing CRITICAL rows"
  "ct_warning (bucket_finish (foldl bucket_add blank_bucket rows)) = n_firing WARNING rows"
  "ct_info (bucket_finish (foldl bucket_add blank_bucket rows)) = n_firing INFO rows"
  "ct_stale (bucket_finish (foldl bucket_add blank_bucket rows)) = n_state StStale rows"
  "ct_acknowledged (bucket_finish (foldl bucket_add blank_bucket rows)) = n_state StAcknowledged rows"
  "ct_suppressed (bucket_finish (foldl bucket_add blank_bucket rows)) = n_state StSuppressed rows"
  "ct_firing (bucket_finish (foldl bucket_add blank_bucket rows)) =
     n_firing CRITICAL rows + n_firing WARNING rows + n_firing INFO rows"
  by (simp_all add: bucket_finish_def bucket_counts blank_bucket_def)

lemma n_firing_all:
  "n_firing CRITICAL rows + n_firing WARNING rows + n_firing INFO rows = n_state StFiring rows"
proof (induction rows)
  case (Cons r rows)
  then show ?case by (cases "or_severity r") (auto simp: n_firing_def n_state_def)
qed (simp add: n_firing_def n_state_def)

lemma account_bucket:
  "dict_get (account_buckets rows) acct =
     (if acct \<in> or_account ` set rows
      then Some (foldl bucket_add blank_bucket (filter (\<lambda>r. or_account r = acct) rows)) else None)"
  by (simp add: account_buckets_def group_rows_get)

lemma service_bucket:
  "dict_get (service_buckets rows) (acct, svc) =
     (if (acct, svc) \<in> (\<lambda>r. (or_account r, svc_key r)) ` set rows
      then Some (foldl bucket_add blank_bucket
                   (filter (\<lambda>r. or_account r = acct \<and> svc_key r = svc) rows)) else None)"
  by (simp add: service_buckets_def group_rows_get)

lemma service_buckets_wf: "dict_wf (service_buckets rows)"
  by (simp add: service_buckets_def dict_wf_group_rows)

text \<open>The services listed under an account, with the rows each of them counts.\<close>

lemma services_of_wf: "dict_wf (services_of rows acct)"
proof -
  let ?f = "filter (\<lambda>((ac, svc), b). ac = acct) (service_buckets rows)"
  have fst_map: "map fst (services_of rows acct) = map (snd \<circ> fst) ?f"
    by (simp add: services_of_def case_prod_beta comp_def)
  have "distinct (map fst ?f)"
    using service_buckets_wf [of rows] by (simp add: dict_wf_def dict_keys_def distinct_map_filter)
  moreover have "\<forall>x\<in>set ?f. fst (fst x) = acct" by auto
  ultimately have "distinct (map (snd \<circ> fst) ?f)"
    by (auto simp: distinct_map inj_on_def prod_eq_iff)
  then show ?thesis by (simp add: dict_wf_def dict_keys_def fst_map)
qed

lemma services_of_entries:
  "(svc, c) \<in> set (services_of rows acct) \<longleftrightarrow>
     (acct, svc) \<in> (\<lambda>r. (or_account r, svc_key r)) ` set rows \<and>
     c = bucket_finish (foldl bucket_add blank_bucket
           (filter (\<lambda>r. or_account r = acct \<and> svc_key r = svc) rows))"
proof -
  have "(svc, c) \<in> set (services_of rows acct) \<longleftrightarrow>
        (\<exists>b. ((acct, svc), b) \<in> set (service_buckets rows) \<and> c = bucket_finish b)"
    by (force simp: services_of_def)
  also have "\<dots> \<longleftrightarrow> (\<exists>b. dict_get (service_buckets rows) (acct, svc) = Some b \<and> c = bucket_finish b)"
    by (simp add: dict_get_in service_buckets_wf)
  finally show ?thesis by (auto simp: service_bucket split: if_splits)
qed

text \<open>A count that is additive over rows is, for an account, the sum over its services.\<close>

lemma services_sum:
  assumes cnt: "\<And>rs. g (bucket_finish (foldl bucket_add blank_bucket rs)) = length (filter p rs)"
  shows "(\<Sum>(svc, c)\<leftarrow>services_of rows acct. g c) =
         length (filter p (filter (\<lambda>r. or_account r = acct) rows))"
proof -
  let ?rows = "filter (\<lambda>r. or_account r = acct) rows"
  let ?svcs = "map fst (services_of rows acct)"
  have "(\<Sum>(svc, c)\<leftarrow>services_of rows acct. g c) =
        (\<Sum>(svc, c)\<leftarrow>services_of rows acct. length (filter (\<lambda>r. svc_key r = svc \<and> p r) ?rows))"
    by (rule arg_cong [where f = sum_list], rule map_cong)
       (auto simp: services_of_entries cnt intro!: arg_cong [where f = length] filter_cong)
  also have "\<dots> = (\<Sum>svc\<leftarrow>?svcs. length (filter (\<lambda>r. svc_key r = svc \<and> p r) ?rows))"
    by (simp add: case_prod_beta' comp_def)
  also have "\<dots> = length (filter p ?rows)"
  proof (rule length_filter_partition)
    show "distinct ?svcs" using services_of_wf [of rows acct] by (simp add: dict_wf_def dict_keys_def)
    fix r assume "r \<in> set ?rows"
    then have "(svc_key r, bucket_finish (foldl bucket_add blank_bucket
        (filter (\<lambda>x. or_account x = acct \<and> svc_key x = svc_key r) rows))) \<in> set (services_of rows acct)"
      by (auto simp: services_of_entries)
    then show "svc_key r \<in> set ?svcs" by force
  qed
  finally show ?thesis .
qed

subsection \<open>The ring partitions the services\<close>

lemma crit_warn_disjoint:
  "dict_wf d \<Longrightarrow> distinct (crit_services d) \<and> distinct (warn_services d) \<and>
     set (crit_services d) \<inter> set (warn_services d) = {}"
  by (auto simp: crit_services_def warn_services_def dict_wf_def dict_keys_def distinct_map_filter)
     (metis dict_get_in dict_keys_def dict_wf_def not_gr_zero option.inject)

lemma ring_counts:
  assumes "dict_wf d"
  shows "rg_critical (service_ring act d) + rg_warning (service_ring act d) \<le> rg_total (service_ring act d)"
proof -
  let ?c = "crit_services d" and ?w = "warn_services d"
  have "length ?c + length ?w = card (set ?c \<union> set ?w)"
    using crit_warn_disjoint [OF assms] by (simp add: card_Un_disjoint distinct_card)
  also have "\<dots> \<le> card (set act \<union> set ?c \<union> set ?w)" by (rule card_mono) auto
  finally show ?thesis by (simp add: service_ring_def Let_def)
qed

lemma ring_healthy:
  assumes "dict_wf d"
  shows "rg_healthy (service_ring act d) =
     int (card (set act - (set (crit_services d) \<union> set (warn_services d))))"
proof -
  let ?c = "crit_services d" and ?w = "warn_services d"
  have cw: "length ?c + length ?w = card (set ?c \<union> set ?w)"
    using crit_warn_disjoint [OF assms] by (simp add: card_Un_disjoint distinct_card)
  have "set act \<union> set ?c \<union> set ?w = (set act - (set ?c \<union> set ?w)) \<union> (set ?c \<union> set ?w)" by auto
  then have "card (set act \<union> set ?c \<union> set ?w) = card (set act - (set ?c \<union> set ?w)) + card (set ?c \<union> set ?w)"
    by (metis Diff_disjoint List.finite_set card_Un_disjoint finite_Diff finite_Un inf_commute)
  with cw show ?thesis by (simp add: service_ring_def Let_def)
qed

subsection \<open>Every row is counted once\<close>

lemma state_partition:
  "n_state StFiring rows + n_state StStale rows + n_state StAcknowledged rows + n_state StSuppressed rows =
     length (filter (\<lambda>r. or_state r \<noteq> StResolved) rows)"
proof (induction rows)
  case (Cons r rows)
  then show ?case by (cases "or_state r") (auto simp: n_state_def)
qed (simp add: n_state_def)

lemma rollup_account:
  assumes "acct \<in> or_account ` set rows"
  shows "dict_get (ru_accounts (rollup rows)) acct =
     Some (bucket_finish (foldl bucket_add blank_bucket (filter (\<lambda>r. or_account r = acct) rows)),
           services_of rows acct)"
proof -
  have m: "dict_get (map (\<lambda>(k, b). (k, f k b)) d) k = map_option (f k) (dict_get d k)" for f d k
    by (induction d) (auto simp: dict_get_def)
  have "dict_get (ru_accounts (rollup rows)) acct =
      map_option (\<lambda>b. (bucket_finish b, services_of rows acct)) (dict_get (account_buckets rows) acct)"
    using m [of "\<lambda>k b. (bucket_finish b, services_of rows k)"] by (simp add: rollup_def)
  then show ?thesis using assms by (simp add: account_bucket)
qed

end
