(* ===== verification/Priority.thy ===== *)
theory Priority
  imports Env_Classifier
begin

text \<open>
  \<open>app/priority.py\<close>: the priority P1 to P4 of an alert, and the pass that stores it on every
  open alert. A priority is its number, 1 to 4.
\<close>

definition PRIORITIES :: "nat list" where
  "PRIORITIES = [1, 2, 3, 4]"

definition PRIORITY_TABLE :: "tier \<Rightarrow> bool \<Rightarrow> nat" where
  "PRIORITY_TABLE t critical =
     (case t of Prod \<Rightarrow> (if critical then 1 else 2) | Nonprod \<Rightarrow> (if critical then 3 else 4))"

definition tier_for :: "string option \<Rightarrow> tier" where
  "tier_for environment = to_tier environment"

definition is_critical_resource :: "raw_tags \<Rightarrow> bool" where
  "is_critical_resource tags =
     list_ex (\<lambda>(k, v). lower (strip k) = ''criticality'' \<and> lower (strip (py_str v)) = ''critical'')
       (tags_dict tags)"

definition compute_priority :: "string option \<Rightarrow> string \<Rightarrow> raw_tags \<Rightarrow> nat" where
  "compute_priority environment severity tags =
     (let critical = (upper (strip severity) = ''CRITICAL'');
          p = PRIORITY_TABLE (tier_for environment) critical
      in if is_critical_resource tags then max 1 (p - 1) else p)"

definition priority_label :: "nat \<Rightarrow> string option" where
  "priority_label p =
     (if p \<in> set PRIORITIES then
        Some (if p = 1 then ''P1'' else if p = 2 then ''P2'' else if p = 3 then ''P3'' else ''P4'')
      else None)"

subsection \<open>Refreshing the open alerts\<close>

text \<open>A row of the query: one open alert joined with its resource (tags NULL without one).\<close>

record prio_row =
  pq_id :: nat
  pq_severity :: string
  pq_environment :: "string option"
  pq_priority :: "nat option"
  pq_tags :: raw_tags
  pq_env_resolved :: "string option"

definition prio_env :: "bool \<Rightarrow> prio_row \<Rightarrow> string option" where
  "prio_env use_resolved row =
     (if use_resolved \<and> truthy_str (pq_env_resolved row) then pq_env_resolved row
      else pq_environment row)"

definition new_priority :: "bool \<Rightarrow> prio_row \<Rightarrow> nat" where
  "new_priority use_resolved row =
     compute_priority (prio_env use_resolved row) (pq_severity row) (pq_tags row)"

definition priority_changes :: "bool \<Rightarrow> prio_row list \<Rightarrow> (nat \<times> nat option \<times> nat) list" where
  "priority_changes use_resolved rows =
     map (\<lambda>row. (pq_id row, pq_priority row, new_priority use_resolved row))
       (filter (\<lambda>row. pq_priority row \<noteq> Some (new_priority use_resolved row)) rows)"

definition by_priority :: "bool \<Rightarrow> prio_row list \<Rightarrow> nat \<Rightarrow> nat" where
  "by_priority use_resolved rows p = length (filter (\<lambda>row. new_priority use_resolved row = p) rows)"

text \<open>The updates, one per change, written to the priority column (a map from alert ids).\<close>

fun apply_changes :: "(nat \<times> nat option \<times> nat) list \<Rightarrow> (nat \<Rightarrow> nat option) \<Rightarrow> nat \<Rightarrow> nat option" where
  "apply_changes [] col = col"
| "apply_changes ((i, old, new) # cs) col = apply_changes cs (col(i := Some new))"

subsection \<open>Facts\<close>

lemma compute_priority_range: "compute_priority e s t \<in> {1, 2, 3, 4}"
  by (auto simp: compute_priority_def PRIORITY_TABLE_def Let_def split: tier.splits)

lemma compute_priority_cases:
  "compute_priority e s t =
     (let crit = (upper (strip s) = ''CRITICAL'') in
      case to_tier e of
        Prod \<Rightarrow> (if crit then 1 else if is_critical_resource t then 1 else 2)
      | Nonprod \<Rightarrow> (if crit then (if is_critical_resource t then 2 else 3)
                   else if is_critical_resource t then 3 else 4))"
  by (auto simp: compute_priority_def PRIORITY_TABLE_def tier_for_def Let_def split: tier.splits)

lemma apply_changes_other: "i \<notin> fst ` set cs \<Longrightarrow> apply_changes cs col i = col i"
  by (induction cs col rule: apply_changes.induct) auto

lemma apply_changes_in:
  "distinct (map fst cs) \<Longrightarrow> (i, old, new) \<in> set cs \<Longrightarrow> apply_changes cs col i = Some new"
  by (induction cs col rule: apply_changes.induct) (auto simp: apply_changes_other rev_image_eqI)

lemma sum_by_priority: "(\<Sum>p\<in>{1, 2, 3, 4}. by_priority u rows p) = length rows"
proof (induction rows)
  case (Cons r rows)
  have "new_priority u r \<in> {1, 2, 3, 4}"
    unfolding new_priority_def by (rule compute_priority_range)
  with Cons show ?case by (auto simp: by_priority_def)
qed (simp add: by_priority_def)

lemma changes_ids: "map fst (priority_changes u rows) =
    map pq_id (filter (\<lambda>r. pq_priority r \<noteq> Some (new_priority u r)) rows)"
  by (simp add: priority_changes_def)

lemma refresh_other: "i \<notin> pq_id ` set rows \<Longrightarrow> apply_changes (priority_changes u rows) col i = col i"
  by (rule apply_changes_other) (auto simp: priority_changes_def)

lemma refresh_row:
  assumes "distinct (map pq_id rows)" "r \<in> set rows" "col (pq_id r) = pq_priority r"
  shows "apply_changes (priority_changes u rows) col (pq_id r) = Some (new_priority u r)"
proof (cases "pq_priority r = Some (new_priority u r)")
  case True
  have "r = q" if "q \<in> set rows" "pq_id q = pq_id r" for q
    using assms(1,2) that by (auto simp: distinct_map inj_on_def)
  then have "pq_id r \<notin> fst ` set (priority_changes u rows)"
    using True by (auto simp: priority_changes_def)
  then show ?thesis using True assms(3) by (simp add: apply_changes_other)
next
  case False
  have "distinct (map fst (priority_changes u rows))"
    using assms(1) by (simp add: changes_ids distinct_map_filter)
  moreover have "(pq_id r, pq_priority r, new_priority u r) \<in> set (priority_changes u rows)"
    using False assms(2) by (auto simp: priority_changes_def)
  ultimately show ?thesis by (rule apply_changes_in)
qed

end
