(* ===== verification/Alert_Lines.thy ===== *)
theory Alert_Lines
  imports Alert_Rules Priority
begin

text \<open>
  The arithmetic of \<open>app/collector/alert_evaluator.py\<close>: which threshold row governs a reading,
  the learned (dynamic and anomaly) lines and their guard rails, the number of confirmations a
  breach needs, and the verdict on one reading. A \<open>float(None)\<close> is the error \<open>TypeError\<close>.
\<close>

subsection \<open>Rows of the evaluation query\<close>

record eval_row =
  er_account :: nat
  er_resource :: string
  er_rtype :: string
  er_tags :: raw_tags
  er_env_resolved :: "string option"
  er_provider :: "string option"
  er_cadence :: cadence
  er_unit :: "string option"
  er_service :: "string option"
  er_metric :: string
  er_value :: "num_value option"
  er_threshold_id :: nat
  er_warning :: "num_value option"
  er_critical :: "num_value option"
  er_comparison :: comparison
  er_evaluation_period :: "int option"
  er_use_dynamic :: bool
  er_dynamic_k :: "num_value option"

definition row_key :: "eval_row \<Rightarrow> alert_key" where
  "row_key row = (er_account row, er_resource row, er_metric row)"

subsection \<open>Environment label\<close>

text \<open>\<open>json.loads\<close> of a dictionary raises, so only a text yields tags here.\<close>

definition environment_from_tags :: "raw_tags \<Rightarrow> tier" where
  "environment_from_tags raw =
     (let d = (case raw of TagsText (LObject d) \<Rightarrow> d | _ \<Rightarrow> []) in
      case dict_get d ''environment'' of
        Some v \<Rightarrow> to_tier (jval_opt v)
      | None \<Rightarrow>
          (case dict_get d ''Environment'' of
             Some v \<Rightarrow> to_tier (jval_opt v)
           | None \<Rightarrow> to_tier (Some ''prod'')))"

definition classified_environment :: "eval_row \<Rightarrow> tier" where
  "classified_environment row =
     (if truthy_str (er_env_resolved row) then to_tier (er_env_resolved row)
      else env (resolve_environment None (er_tags row) None (Some (er_resource row)) None []))"

subsection \<open>One threshold per reading\<close>

definition sel_key :: "eval_row \<Rightarrow> alert_key" where
  "sel_key row = (er_account row, er_resource row, lower (er_metric row))"

text \<open>An ALB row on an NLB resource, or the reverse, is dropped.\<close>

definition wrong_balancer :: "eval_row \<Rightarrow> bool" where
  "wrong_balancer row =
     (let service = lower (case er_service row of Some s \<Rightarrow> s | None \<Rightarrow> []) in
      er_rtype row = ''elb'' \<and> (service = ''alb'' \<or> service = ''nlb'') \<and>
      (let key_service = normalize_service_key ''elb'' (er_resource row) in
       (key_service = ''alb'' \<or> key_service = ''nlb'') \<and> key_service \<noteq> service))"

definition select_step ::
  "(alert_key, eval_row) dict \<Rightarrow> eval_row \<Rightarrow> (alert_key, eval_row) dict" where
  "select_step chosen row =
     (if wrong_balancer row then chosen
      else (case dict_get chosen (sel_key row) of
              None \<Rightarrow> dict_set chosen (sel_key row) row
            | Some prev \<Rightarrow>
                if er_threshold_id row < er_threshold_id prev
                then dict_set chosen (sel_key row) row else chosen))"

fun select_loop :: "eval_row list \<Rightarrow> (alert_key, eval_row) dict \<Rightarrow> (alert_key, eval_row) dict" where
  "select_loop [] chosen = chosen"
| "select_loop (row # rows) chosen = select_loop rows (select_step chosen row)"

definition select_threshold_rows :: "eval_row list \<Rightarrow> eval_row list" where
  "select_threshold_rows rows = map snd (select_loop rows [])"

subsection \<open>Learned lines\<close>

text \<open>The current hour/weekday bucket of \<open>metric_baseline\<close>: mean, standard deviation, samples.\<close>

type_synonym baseline_bucket = "num_value \<times> num_value \<times> nat"

record baseline_row =
  bl_account :: nat
  bl_resource :: string
  bl_metric :: string
  bl_hour :: int
  bl_weekday :: int
  bl_mean :: num_value
  bl_stddev :: "num_value option"
  bl_samples :: "nat option"

definition utc_hour :: "secs \<Rightarrow> int" where
  "utc_hour now = (now div 3600) mod 24"

text \<open>\<open>WEEKDAY\<close>: Monday is 0; the epoch was a Thursday.\<close>

definition utc_weekday :: "secs \<Rightarrow> int" where
  "utc_weekday now = (now div 86400 + 3) mod 7"

definition baseline_bucket ::
  "baseline_row list \<Rightarrow> secs \<Rightarrow> nat \<Rightarrow> string \<Rightarrow> string \<Rightarrow> baseline_bucket option" where
  "baseline_bucket bls now acct rid metric =
     map_option (\<lambda>b. (bl_mean b, (case bl_stddev b of Some s \<Rightarrow> s | None \<Rightarrow> 0),
                      (case bl_samples b of Some n \<Rightarrow> n | None \<Rightarrow> 0)))
       (find (\<lambda>b. bl_account b = acct \<and> bl_resource b = rid \<and> bl_metric b = metric \<and>
                  bl_hour b = utc_hour now \<and> bl_weekday b = utc_weekday now) bls)"

definition CONFIDENT_SAMPLES :: nat where
  "CONFIDENT_SAMPLES = 20"

definition dynamic_bounds ::
  "comparison \<Rightarrow> num_value \<Rightarrow> num_value option \<Rightarrow> num_value option \<Rightarrow> baseline_bucket option
   \<Rightarrow> (num_value \<times> num_value) option" where
  "dynamic_bounds op k static_warning static_critical bucket =
     (case bucket of
        None \<Rightarrow> None
      | Some (mean, stddev, n) \<Rightarrow>
          if stddev = 0 then None
          else
            (let warn_k = k * (66 / 100);
                 (dw, dc) = (if upward op then (mean + warn_k * stddev, mean + k * stddev)
                             else (mean - warn_k * stddev, mean - k * stddev))
             in (case (static_warning, static_critical) of
                   (Some sw, Some sc) \<Rightarrow>
                     if n \<ge> CONFIDENT_SAMPLES then Some (dw, dc)
                     else (let weight = max 0 (min 1 (of_nat n / of_nat CONFIDENT_SAMPLES)) in
                           Some (weight * dw + (1 - weight) * sw, weight * dc + (1 - weight) * sc))
                 | _ \<Rightarrow> Some (dw, dc))))"

definition MAX_TIGHTEN_FACTOR :: num_value where
  "MAX_TIGHTEN_FACTOR = 1 / 2"

definition PERCENT_CAP :: num_value where
  "PERCENT_CAP = 999 / 10"

definition is_percent :: "string option \<Rightarrow> bool" where
  "is_percent unit = (lower (case unit of Some u \<Rightarrow> u | None \<Rightarrow> []) = ''percent'')"

definition clamp_dynamic_bounds ::
  "num_value \<Rightarrow> num_value \<Rightarrow> num_value \<Rightarrow> num_value \<Rightarrow> comparison \<Rightarrow> string option
   \<Rightarrow> num_value \<times> num_value" where
  "clamp_dynamic_bounds dyn_warning dyn_critical sw sc op unit =
     (if upward op then
        (let w = max dyn_warning (sw * MAX_TIGHTEN_FACTOR);
             c = max dyn_critical sc;
             cap = (if sc \<le> PERCENT_CAP then PERCENT_CAP else sc);
             capped = is_percent unit \<and> sc \<le> 100;
             w' = (if capped then min w cap else w);
             c' = (if capped then min c cap else c)
         in (if w' > c' then c' else w', c'))
      else
        (let ceil_w = (if sw > 0 then sw / MAX_TIGHTEN_FACTOR else sw);
             w = min dyn_warning ceil_w;
             c = min dyn_critical sc
         in (w, if c > w then w else c)))"

definition ANOMALY_MIN_RATIO :: num_value where
  "ANOMALY_MIN_RATIO = 3 / 2"

definition ANOMALY_MIN_CYCLES :: int where
  "ANOMALY_MIN_CYCLES = 3"

definition anomaly_only_bound ::
  "string \<Rightarrow> num_value \<Rightarrow> baseline_bucket option \<Rightarrow> num_value option" where
  "anomaly_only_bound metric_name k bucket =
     (case bucket of
        None \<Rightarrow> None
      | Some (mean, stddev, n) \<Rightarrow>
          if n < CONFIDENT_SAMPLES \<or> stddev = 0 then None
          else (let line = mean + max k 3 * stddev;
                    line' = (if mean > 0 then max line (mean * ANOMALY_MIN_RATIO) else line)
                in Some (max line' (alert_floor metric_name))))"

subsection \<open>Confirmations\<close>

definition CYCLE_MINUTES :: int where
  "CYCLE_MINUTES = 5"

definition required_cycles :: "int option \<Rightarrow> int" where
  "required_cycles evaluation_period =
     (let period = (case evaluation_period of
                      Some p \<Rightarrow> if p = 0 then CYCLE_MINUTES else p | None \<Rightarrow> CYCLE_MINUTES)
      in max 1 \<lceil>(of_int period / of_int CYCLE_MINUTES :: rat)\<rceil>)"

subsection \<open>Flags\<close>

text \<open>
  What the evaluator reads from its environment: the two feature flags, the polling settings,
  the P1 keys and the cached interval overrides.
\<close>

record flags =
  fl_env_aware :: bool
  fl_priority :: bool
  fl_poll :: poll_cfg
  fl_p1 :: "(string \<times> string) list"
  fl_overrides :: override_map

definition env_poll_row_info :: "flags \<Rightarrow> eval_row \<Rightarrow> bool \<times> int" where
  "env_poll_row_info fl row =
     (let provider = (case er_provider row of
                        Some p \<Rightarrow> if p = [] then ''aws'' else p | None \<Rightarrow> ''aws'') in
      if \<not> cfg_on (fl_poll fl) \<or> provider \<noteq> ''aws'' then (True, 1)
      else
        (let metric = lower (er_metric row);
             critical = is_critical_metric (fl_p1 fl) (er_rtype row) metric;
             base = map_option int (base_interval_seconds (fl_overrides fl) (Some ''aws'') (er_rtype row) metric);
             evaluate = evaluate_for_alerts (fl_poll fl) (er_env_resolved row) critical (er_rtype row) base
         in (case base of
               None \<Rightarrow> (evaluate, 1)
             | Some b \<Rightarrow>
                 (evaluate, alert_for_scale (fl_poll fl) (er_env_resolved row) b critical (er_rtype row)))))"

subsection \<open>The verdict on one reading\<close>

record verdict =
  vd_warning :: "num_value option"
  vd_critical :: "num_value option"
  vd_required :: int
  vd_anomaly :: bool
  vd_is_critical :: bool
  vd_is_warning :: bool

definition learned :: "eval_row \<Rightarrow> bool" where
  "learned row \<longleftrightarrow> er_use_dynamic row \<and> \<not> is_static_only_metric (er_metric row)"

definition row_anomaly_only :: "eval_row \<Rightarrow> bool" where
  "row_anomaly_only row =
     is_placeholder_threshold (er_warning row) (er_critical row) (er_comparison row)"

definition row_k :: "eval_row \<Rightarrow> num_value" where
  "row_k row = (case er_dynamic_k row of Some k \<Rightarrow> if k = 0 then 3 else k | None \<Rightarrow> 3)"

text \<open>The lines in force before rounding and the size floor.\<close>

definition raw_lines ::
  "baseline_bucket option \<Rightarrow> eval_row \<Rightarrow> py_error + (num_value option \<times> num_value option)" where
  "raw_lines bucket row =
     (if row_anomaly_only row then
        (let line = anomaly_only_bound (er_metric row) (row_k row) bucket in Inr (line, line))
      else if learned row then
        (case dynamic_bounds (er_comparison row) (row_k row) (er_warning row) (er_critical row) bucket of
           None \<Rightarrow> Inr (er_warning row, er_critical row)
         | Some (dw, dc) \<Rightarrow>
             (case (er_warning row, er_critical row) of
                (Some sw, Some sc) \<Rightarrow>
                  (let wc = clamp_dynamic_bounds dw dc sw sc (er_comparison row) (er_unit row)
                   in Inr (Some (fst wc), Some (snd wc)))
              | _ \<Rightarrow> Inl TypeError))
      else Inr (er_warning row, er_critical row))"

definition rounded_lines ::
  "eval_row \<Rightarrow> num_value option \<times> num_value option \<Rightarrow> num_value option \<times> num_value option" where
  "rounded_lines row wc =
     (if (row_anomaly_only row \<or> learned row) \<and> is_integer_metric (er_unit row) (er_metric row)
      then (integerize_limit (fst wc) (er_comparison row), integerize_limit (snd wc) (er_comparison row))
      else wc)"

definition row_required :: "flags \<Rightarrow> eval_row \<Rightarrow> int" where
  "row_required fl row =
     (if er_cadence row \<noteq> CoreC then 1
      else
        (let base = required_cycles (er_evaluation_period row);
             req = (if row_anomaly_only row then max base ANOMALY_MIN_CYCLES else base);
             scale = (if cfg_on (fl_poll fl) then snd (env_poll_row_info fl row) else 1)
         in if scale > 1 then req * scale else req))"

definition row_verdict :: "flags \<Rightarrow> baseline_bucket option \<Rightarrow> eval_row \<Rightarrow> py_error + verdict" where
  "row_verdict fl bucket row =
     (case raw_lines bucket row of
        Inl e \<Rightarrow> Inl e
      | Inr wc0 \<Rightarrow>
          (let wc = rounded_lines row wc0;
               value = er_value row;
               op = er_comparison row;
               anomaly = row_anomaly_only row;
               crit = compare value (snd wc) op \<and> \<not> anomaly;
               warn = compare value (fst wc) op;
               flr = alert_floor (er_metric row);
               floored = flr \<noteq> 0 \<and> upward op \<and> value \<noteq> None;
               under = floored \<and> the value \<le> flr;
               lift = (\<lambda>x. if floored then map_option (\<lambda>v. max v flr) x else x)
           in Inr \<lparr>vd_warning = lift (fst wc), vd_critical = lift (snd wc),
                   vd_required = row_required fl row, vd_anomaly = anomaly,
                   vd_is_critical = crit \<and> \<not> under, vd_is_warning = warn \<and> \<not> under\<rparr>))"

definition vd_breaching :: "verdict \<Rightarrow> bool" where
  "vd_breaching v \<longleftrightarrow> vd_is_critical v \<or> vd_is_warning v"

subsection \<open>Facts about the selection\<close>

text \<open>The row a key keeps when one more candidate is met.\<close>

definition choose_row :: "eval_row option \<Rightarrow> eval_row \<Rightarrow> eval_row" where
  "choose_row prev row =
     (case prev of
        None \<Rightarrow> row
      | Some p \<Rightarrow> if er_threshold_id row < er_threshold_id p then row else p)"

lemma select_step_wf: "dict_wf ch \<Longrightarrow> dict_wf (select_step ch row)"
  by (simp add: select_step_def split: option.split)

lemma select_loop_wf: "dict_wf ch \<Longrightarrow> dict_wf (select_loop rows ch)"
  by (induction rows arbitrary: ch) (simp_all add: select_step_wf)

lemma select_step_get:
  "dict_get (select_step ch r) k =
     (if \<not> wrong_balancer r \<and> sel_key r = k then Some (choose_row (dict_get ch k) r)
      else dict_get ch k)"
  by (auto simp: select_step_def choose_row_def split: option.split)

text \<open>What the loop holds for a key: the first of the candidates with the lowest threshold id.\<close>

lemma select_loop_get:
  "dict_get (select_loop rows ch) k =
     fold (\<lambda>r acc. Some (choose_row acc r))
       (filter (\<lambda>r. \<not> wrong_balancer r \<and> sel_key r = k) rows) (dict_get ch k)"
  by (induction rows arbitrary: ch) (simp_all add: select_step_get)

lemma fold_choose_Some:
  "\<exists>m. fold (\<lambda>r acc. Some (choose_row acc r)) rs (Some p) = Some m \<and> m \<in> insert p (set rs) \<and>
     (\<forall>r\<in>insert p (set rs). er_threshold_id m \<le> er_threshold_id r)"
proof (induction rs arbitrary: p)
  case (Cons r rs)
  let ?q = "choose_row (Some p) r"
  from Cons.IH obtain m where m:
    "fold (\<lambda>r acc. Some (choose_row acc r)) rs (Some ?q) = Some m"
    "m \<in> insert ?q (set rs)" "\<forall>x\<in>insert ?q (set rs). er_threshold_id m \<le> er_threshold_id x"
    by blast
  have q: "?q \<in> {p, r}" "er_threshold_id ?q \<le> er_threshold_id p" "er_threshold_id ?q \<le> er_threshold_id r"
    by (auto simp: choose_row_def)
  from m(3) have "er_threshold_id m \<le> er_threshold_id ?q" by simp
  with m q show ?case by (intro exI [of _ m]) (auto intro: order_trans)
qed simp

lemma fold_choose_None:
  "fold (\<lambda>r acc. Some (choose_row acc r)) rs None = (case rs of [] \<Rightarrow> None | r # rest \<Rightarrow>
     fold (\<lambda>r acc. Some (choose_row acc r)) rest (Some r))"
  by (cases rs) (simp_all add: choose_row_def)

lemma choose_row_None [simp]: "choose_row None r = r"
  by (simp add: choose_row_def)

text \<open>The rows selected are, key by key, the least of the eligible rows.\<close>

lemma select_loop_keys:
  "fst ` set (select_loop rows []) = sel_key ` {r \<in> set rows. \<not> wrong_balancer r}"
proof -
  have "k \<in> fst ` set (select_loop rows []) \<longleftrightarrow> k \<in> sel_key ` {r \<in> set rows. \<not> wrong_balancer r}" for k
  proof -
    have "k \<in> fst ` set (select_loop rows []) \<longleftrightarrow> dict_get (select_loop rows []) k \<noteq> None"
      using dict_get_None_iff [of "select_loop rows []" k] by (simp add: dict_keys_def)
    also have "\<dots> \<longleftrightarrow> filter (\<lambda>r. \<not> wrong_balancer r \<and> sel_key r = k) rows \<noteq> []"
    proof (cases "filter (\<lambda>r. \<not> wrong_balancer r \<and> sel_key r = k) rows")
      case (Cons q qs)
      with fold_choose_Some [of qs q] show ?thesis
        by (auto simp: select_loop_get fold_choose_None)
    qed (simp add: select_loop_get)
    also have "\<dots> \<longleftrightarrow> k \<in> sel_key ` {r \<in> set rows. \<not> wrong_balancer r}"
      by (auto simp: filter_empty_conv)
    finally show ?thesis .
  qed
  then show ?thesis by blast
qed

lemma select_loop_entry:
  assumes "(k, m) \<in> set (select_loop rows [])"
  shows "m \<in> set rows \<and> \<not> wrong_balancer m \<and> sel_key m = k \<and>
     (\<forall>r\<in>set rows. \<not> wrong_balancer r \<longrightarrow> sel_key r = k \<longrightarrow> er_threshold_id m \<le> er_threshold_id r)"
proof -
  let ?qs = "filter (\<lambda>r. \<not> wrong_balancer r \<and> sel_key r = k) rows"
  have g: "dict_get (select_loop rows []) k = Some m"
    using assms dict_get_in [OF select_loop_wf [OF dict_wf_Nil], of rows k m] by simp
  then obtain q qs where q: "?qs = q # qs"
    by (cases ?qs) (auto simp: select_loop_get)
  from fold_choose_Some [of qs q] obtain n where n: "fold (\<lambda>r acc. Some (choose_row acc r)) qs (Some q) = Some n"
    "n \<in> insert q (set qs)" "\<forall>r\<in>insert q (set qs). er_threshold_id n \<le> er_threshold_id r" by blast
  have "n = m" using g n(1) q by (simp add: select_loop_get fold_choose_None)
  moreover have "insert q (set qs) = set ?qs" by (simp add: q del: set_filter)
  ultimately show ?thesis using n(2,3) by auto
qed

lemma select_rows_keys: "map sel_key (select_threshold_rows rows) = map fst (select_loop rows [])"
  using select_loop_entry [of _ _ rows] by (auto simp: select_threshold_rows_def)

lemma select_rows_least:
  "m \<in> set (select_threshold_rows rows) \<Longrightarrow> m \<in> set rows \<and> \<not> wrong_balancer m \<and>
     (\<forall>r\<in>set rows. \<not> wrong_balancer r \<longrightarrow> sel_key r = sel_key m \<longrightarrow> er_threshold_id m \<le> er_threshold_id r)"
  using select_loop_entry [of _ m rows] by (auto simp: select_threshold_rows_def)

subsection \<open>Facts about the lines\<close>

lemma required_cycles_ge_1: "1 \<le> required_cycles p"
  by (simp add: required_cycles_def Let_def)

lemma row_required_ge_1: "1 \<le> row_required fl row"
proof -
  have r: "1 \<le> required_cycles (er_evaluation_period row)" by (rule required_cycles_ge_1)
  show ?thesis
  proof (cases "er_cadence row = CoreC")
    case True
    let ?req = "if row_anomaly_only row then max (required_cycles (er_evaluation_period row)) ANOMALY_MIN_CYCLES
      else required_cycles (er_evaluation_period row)"
    have q: "1 \<le> ?req" using r by (auto simp: max_def)
    have "1 \<le> ?req * s" if "s > 1" for s :: int
      using mult_mono [of 1 ?req 1 s] q that by simp
    then show ?thesis using q True by (auto simp: row_required_def Let_def)
  qed (simp add: row_required_def)
qed

text \<open>A breach names a line: the critical one or the warning one.\<close>

lemma row_verdict_line:
  "row_verdict fl b row = Inr v \<Longrightarrow> vd_is_critical v \<Longrightarrow> vd_critical v \<noteq> None"
  "row_verdict fl b row = Inr v \<Longrightarrow> vd_is_warning v \<Longrightarrow> vd_warning v \<noteq> None"
  by (auto simp: row_verdict_def Let_def compare_def split: sum.splits option.splits prod.splits if_splits)

text \<open>The number of confirmations is the least that covers the evaluation period.\<close>

lemma required_cycles_cover:
  assumes "0 < p"
  shows "p \<le> CYCLE_MINUTES * required_cycles (Some p) \<and>
     CYCLE_MINUTES * (required_cycles (Some p) - 1) < p"
proof -
  let ?c = "\<lceil>of_int p / 5 :: rat\<rceil>"
  have r: "required_cycles (Some p) = ?c"
    using assms by (simp add: required_cycles_def Let_def CYCLE_MINUTES_def max_def)
  have "of_int p / 5 \<le> (of_int ?c :: rat)" by (rule le_of_int_ceiling)
  then have up: "(of_int p :: rat) \<le> of_int (5 * ?c)"
    unfolding of_int_mult of_int_numeral by linarith
  have "of_int ?c - 1 < (of_int p / 5 :: rat)" using ceiling_correct [of "of_int p / 5 :: rat"] by blast
  then have lo: "(of_int (5 * (?c - 1)) :: rat) < of_int p"
    unfolding of_int_mult of_int_diff of_int_numeral of_int_1
    using pos_less_divide_eq [of "5 :: rat"] by (simp add: mult.commute)
  show ?thesis unfolding r CYCLE_MINUTES_def using up lo unfolding of_int_le_iff of_int_less_iff by simp
qed

end
