(* ===== verification/Cycle_Gate.thy ===== *)
theory Cycle_Gate
  imports Alert_Tables
begin

text \<open>
  The cycle gate of \<open>app/collector/alert_evaluator.py\<close> (\<open>MIN_CYCLE_SECONDS\<close>,
  \<open>_CYCLE_DUE_SQL\<close>, \<open>_PENDING_CYCLE_DUE_SQL\<close>, \<open>_GATED_STREAK_SQL\<close>, \<open>_GATED_CYCLE_AT_SQL\<close>): readings are
  evaluated on every tick, but a breach or recovery counter advances only when at least
  \<open>MIN_CYCLE_SECONDS\<close> have passed since the last counted cycle. The locale is the contract; it
  is interpreted on the two counters of the code, \<open>alert_pending.breach_cycles\<close> and
  \<open>alerts.healthy_streak\<close>.
\<close>

definition MIN_CYCLE_SECONDS :: secs where
  "MIN_CYCLE_SECONDS = 240"

definition cycle_due :: "secs \<Rightarrow> secs option \<Rightarrow> secs \<Rightarrow> bool" where
  "cycle_due now cycle_at base_time \<longleftrightarrow>
     (case cycle_at of Some t \<Rightarrow> t | None \<Rightarrow> base_time) \<le> now - MIN_CYCLE_SECONDS"

text \<open>SQL assigns from left to right: the counter is set before the clock it is gated on.\<close>

definition gated_streak :: "secs \<Rightarrow> alert \<Rightarrow> nat" where
  "gated_streak now a =
     (if cycle_due now (al_cycle_at a) (al_triggered_at a) then al_healthy_streak a + 1
      else al_healthy_streak a)"

definition gated_cycle_at :: "secs \<Rightarrow> alert \<Rightarrow> secs option" where
  "gated_cycle_at now a =
     (if cycle_due now (al_cycle_at a) (al_triggered_at a) then Some now else al_cycle_at a)"

definition alert_clock :: "alert \<Rightarrow> secs" where
  "alert_clock a = (case al_cycle_at a of Some t \<Rightarrow> t | None \<Rightarrow> al_triggered_at a)"

definition pending_clock :: "pending \<Rightarrow> secs" where
  "pending_clock p = (case pd_cycle_at p of Some t \<Rightarrow> t | None \<Rightarrow> pd_first_breach_at p)"

subsection \<open>The two touches\<close>

text \<open>
  The healthy touch of an open alert: \<open>thr\<close> is the line shown on the alert, \<open>None\<close> keeps the
  previous one.
\<close>

definition healthy_touch :: "num_value option \<Rightarrow> num_value option \<Rightarrow> secs \<Rightarrow> alert \<Rightarrow> alert" where
  "healthy_touch v thr now a =
     a\<lparr>al_current_value := v,
       al_threshold := (case thr of None \<Rightarrow> al_threshold a | Some t \<Rightarrow> Some t),
       al_healthy_streak := gated_streak now a,
       al_cycle_at := gated_cycle_at now a,
       al_last_seen_at := Some now\<rparr>"

text \<open>The \<open>ON DUPLICATE KEY UPDATE\<close> of \<open>_touch_pending\<close>.\<close>

definition pending_touch ::
  "severity \<Rightarrow> num_value option \<Rightarrow> num_value option \<Rightarrow> secs \<Rightarrow> pending \<Rightarrow> pending" where
  "pending_touch sev v thr now p =
     (let due = cycle_due now (pd_cycle_at p) (pd_first_breach_at p) in
      p\<lparr>pd_breach_cycles := (if due then pd_breach_cycles p + 1 else pd_breach_cycles p),
        pd_cycle_at := (if due then Some now else pd_cycle_at p),
        pd_last_seen_at := now,
        pd_current_value := v,
        pd_threshold := thr,
        pd_severity := (if sev = CRITICAL then CRITICAL else pd_severity p)\<rparr>)"

subsection \<open>The contract\<close>

locale cycle_gate =
  fixes tick :: "secs \<Rightarrow> 's \<Rightarrow> 's"
    and cycles :: "'s \<Rightarrow> nat"
    and clock :: "'s \<Rightarrow> secs"
  assumes cycles_tick:
      "cycles (tick now s) = (if clock s + MIN_CYCLE_SECONDS \<le> now then Suc (cycles s) else cycles s)"
    and clock_tick:
      "clock (tick now s) = (if clock s + MIN_CYCLE_SECONDS \<le> now then now else clock s)"
begin

lemma cycles_mono: "cycles s \<le> cycles (tick now s)"
  by (simp add: cycles_tick)

lemma clock_mono: "clock s \<le> clock (tick now s)"
  by (simp add: clock_tick MIN_CYCLE_SECONDS_def)

lemma clock_not_future: "clock s \<le> t \<Longrightarrow> now \<le> t \<Longrightarrow> clock (tick now s) \<le> t"
  by (simp add: clock_tick)

text \<open>However often it is ticked, a counter gains at most one per \<open>MIN_CYCLE_SECONDS\<close> of its clock.\<close>

lemma run_bound:
  "MIN_CYCLE_SECONDS * (int (cycles (fold tick ts s)) - int (cycles s)) \<le> clock (fold tick ts s) - clock s"
proof (induction ts arbitrary: s)
  case (Cons t ts)
  have "MIN_CYCLE_SECONDS * (int (cycles (tick t s)) - int (cycles s)) \<le> clock (tick t s) - clock s"
    by (simp add: cycles_tick clock_tick)
  with Cons.IH [of "tick t s"] show ?case
    by (simp add: algebra_simps)
qed simp

lemma run_clock_bound: "clock s \<le> t \<Longrightarrow> \<forall>x\<in>set ts. x \<le> t \<Longrightarrow> clock (fold tick ts s) \<le> t"
  by (induction ts arbitrary: s) (simp_all add: clock_not_future)

text \<open>And it does advance once the time has passed.\<close>

lemma advances: "clock s + MIN_CYCLE_SECONDS \<le> now \<Longrightarrow> cycles (tick now s) = Suc (cycles s)"
  by (simp add: cycles_tick)

text \<open>Ticks that are far enough apart all count, so \<open>n\<close> of them confirm \<open>n\<close> cycles.\<close>

fun spaced :: "secs \<Rightarrow> secs list \<Rightarrow> bool" where
  "spaced t0 [] = True"
| "spaced t0 (t # ts) = (t0 + MIN_CYCLE_SECONDS \<le> t \<and> spaced t ts)"

lemma spaced_counts: "spaced (clock s) ts \<Longrightarrow> cycles (fold tick ts s) = cycles s + length ts"
  by (induction ts arbitrary: s) (simp_all add: cycles_tick clock_tick)

end

interpretation healthy: cycle_gate "healthy_touch v thr" al_healthy_streak alert_clock
  by unfold_locales
     (auto simp: healthy_touch_def gated_streak_def gated_cycle_at_def alert_clock_def cycle_due_def
       split: option.splits)

interpretation breach: cycle_gate "pending_touch sev v thr" pd_breach_cycles pending_clock
  by unfold_locales
     (auto simp: pending_touch_def Let_def pending_clock_def cycle_due_def split: option.splits)

subsection \<open>What the touches keep\<close>

lemma healthy_touch_ident [simp]:
  "alert_ident (healthy_touch v thr now a) = alert_ident a"
  "al_status (healthy_touch v thr now a) = al_status a"
  "al_severity (healthy_touch v thr now a) = al_severity a"
  "is_open (healthy_touch v thr now a) = is_open a"
  "al_healthy_streak (healthy_touch v thr now a) = gated_streak now a"
  by (simp_all add: healthy_touch_def alert_ident_def is_open_def)

lemma pending_touch_keeps [simp]:
  "pending_key (pending_touch sev v thr now p) = pending_key p"
  "pd_first_breach_at (pending_touch sev v thr now p) = pd_first_breach_at p"
  by (simp_all add: pending_touch_def pending_key_def Let_def)

text \<open>
  A pending candidate counts no more cycles than the time since its first breach allows, and
  its clock is not ahead of the wall clock.
\<close>

definition pending_ok :: "secs \<Rightarrow> pending \<Rightarrow> bool" where
  "pending_ok now p \<longleftrightarrow>
     1 \<le> pd_breach_cycles p \<and> pending_clock p \<le> now \<and>
     MIN_CYCLE_SECONDS * (int (pd_breach_cycles p) - 1) \<le> pending_clock p - pd_first_breach_at p"

lemma pending_touch_ok:
  assumes "pending_ok t p" and "t \<le> now"
  shows "pending_ok now (pending_touch sev v thr now p)"
proof -
  let ?q = "pending_touch sev v thr now p"
  have "1 \<le> pd_breach_cycles ?q"
    using assms(1) breach.cycles_mono [of p] by (meson order_trans pending_ok_def)
  moreover have "pending_clock ?q \<le> now"
    using assms by (intro breach.clock_not_future) (auto simp: pending_ok_def)
  moreover have "MIN_CYCLE_SECONDS * (int (pd_breach_cycles ?q) - int (pd_breach_cycles p))
      \<le> pending_clock ?q - pending_clock p"
    using breach.run_bound [of sev v thr "[now]" p] by simp
  ultimately show ?thesis
    using assms(1) by (simp add: pending_ok_def algebra_simps)
qed

lemma pending_ok_mono: "pending_ok t p \<Longrightarrow> t \<le> now \<Longrightarrow> pending_ok now p"
  by (auto simp: pending_ok_def)

text \<open>The breach counter of a candidate is limited by its clock, however often readings arrive.\<close>

lemma breach_counter_bound:
  assumes "pending_ok t p" and "list_all (\<lambda>x. x \<le> now) (t # ts)"
  shows "MIN_CYCLE_SECONDS *
     (int (pd_breach_cycles (fold (pending_touch sev v thr) ts p)) - int (pd_breach_cycles p)) \<le> now - pending_clock p"
proof -
  have "pending_clock p \<le> now" using assms by (auto simp: pending_ok_def)
  then have "pending_clock (fold (pending_touch sev v thr) ts p) \<le> now"
    using assms(2) by (intro breach.run_clock_bound) (auto simp: list_all_iff)
  with breach.run_bound [of sev v thr ts p] show ?thesis by linarith
qed

end
