(* ===== verification/Alert_Evaluator.thy ===== *)
theory Alert_Evaluator
  imports Alert_Lines Cycle_Gate
begin

text \<open>
  The state machine of \<open>app/collector/alert_evaluator.py\<close>: \<open>_touch_pending\<close>, \<open>_clear_pending\<close>,
  \<open>_evaluate_row\<close> and the loop of \<open>_evaluate_alerts_body\<close>, on an explicit store of the tables
  \<open>alerts\<close> and \<open>alert_pending\<close>. A reading is evaluated in one short transaction; what would be
  pushed to clients is returned as data and only kept when the transaction commits.
\<close>

subsection \<open>Store, statistics, messages\<close>

record store =
  st_alerts :: "alert list"
  st_pending :: "pending list"
  st_next_id :: nat

record stats =
  sx_new :: nat
  sx_resolved :: nat
  sx_already_open :: nat
  sx_pending_touched :: nat
  sx_reopened :: nat
  sx_failed :: nat

datatype message =
    PublishResolved nat nat
  | PublishAlert nat severity string "num_value option" "num_value option" nat "nat option"
  | NotifyOpened nat severity string string nat "nat option"
  | RuleMail nat severity string string nat "nat option"

subsection \<open>The pending table\<close>

definition touch_pending ::
  "alert_key \<Rightarrow> severity \<Rightarrow> tier \<Rightarrow> num_value option \<Rightarrow> num_value option \<Rightarrow> secs
   \<Rightarrow> pending list \<Rightarrow> pending list" where
  "touch_pending k sev envt v thr now ps =
     (case pending_get ps k of
        None \<Rightarrow>
          ps @ [\<lparr>pd_account = fst k, pd_resource = fst (snd k), pd_metric = snd (snd k),
                 pd_severity = sev, pd_environment = envt, pd_first_breach_at = now,
                 pd_last_seen_at = now, pd_breach_cycles = 1, pd_cycle_at = Some now,
                 pd_current_value = v, pd_threshold = thr\<rparr>]
      | Some _ \<Rightarrow> update_where (\<lambda>p. pending_key p = k) (pending_touch sev v thr now) ps)"

definition clear_pending :: "alert_key \<Rightarrow> pending list \<Rightarrow> pending list" where
  "clear_pending k ps = pending_del ps k"

subsection \<open>The open alert of a key\<close>

text \<open>\<open>ORDER BY id DESC LIMIT 1\<close>.\<close>

definition find_open :: "alert_key \<Rightarrow> alert list \<Rightarrow> alert option" where
  "find_open k as =
     (case filter (\<lambda>a. key_matches k a \<and> is_open a) as of
        [] \<Rightarrow> None
      | a # rest \<Rightarrow> Some (foldl (\<lambda>b x. if al_id x > al_id b then x else b) a rest))"

definition by_id :: "nat \<Rightarrow> alert \<Rightarrow> bool" where
  "by_id i a \<longleftrightarrow> al_id a = i"

definition streak_of :: "nat \<Rightarrow> alert list \<Rightarrow> nat" where
  "streak_of i as = (case find (by_id i) as of Some a \<Rightarrow> al_healthy_streak a | None \<Rightarrow> 0)"

definition resolve_alert :: "string \<Rightarrow> secs \<Rightarrow> alert \<Rightarrow> alert" where
  "resolve_alert reason now a =
     a\<lparr>al_status := Resolved, al_resolved_at := Some now,
       al_resolution_reason := Some reason, al_resolved_by := Some ''system''\<rparr>"

subsection \<open>A healthy reading\<close>

definition healthy_step ::
  "secs \<Rightarrow> eval_row \<Rightarrow> verdict \<Rightarrow> store \<Rightarrow> stats \<Rightarrow> store \<times> stats \<times> message list" where
  "healthy_step now row v db sx =
     (let k = row_key row;
          db1 = db\<lparr>st_pending := clear_pending k (st_pending db)\<rparr>
      in (case find_open k (st_alerts db) of
            None \<Rightarrow> (db1, sx, [])
          | Some ex \<Rightarrow>
              (let line = (if al_severity ex = CRITICAL then vd_critical v else vd_warning v);
                   as1 = update_where (by_id (al_id ex)) (healthy_touch (er_value row) line now) (st_alerts db)
               in if int (streak_of (al_id ex) as1) \<ge> vd_required v then
                    (let target = (\<lambda>a. by_id (al_id ex) a \<and> is_open a);
                         n = rowcount target as1;
                         reason = (if vd_anomaly v \<and> vd_warning v = None
                                   then ''placeholder_threshold'' else ''recovered'')
                     in (db1\<lparr>st_alerts := update_where target (resolve_alert reason now) as1\<rparr>,
                         sx\<lparr>sx_resolved := sx_resolved sx + n\<rparr>,
                         if n > 0 then [PublishResolved (al_id ex) (er_account row)] else []))
                  else (db1\<lparr>st_alerts := as1\<rparr>, sx, []))))"

subsection \<open>A breach of an open alert\<close>

text \<open>
  The severity moves down when an open CRITICAL no longer breaches critically, and up to
  CRITICAL when it does; getting worse takes back an acknowledgement.
\<close>

definition breach_touch ::
  "severity \<Rightarrow> num_value option \<Rightarrow> num_value option \<Rightarrow> secs \<Rightarrow> alert \<Rightarrow> alert" where
  "breach_touch sev v thr now a =
     (let a1 = a\<lparr>al_current_value := v, al_threshold := thr, al_breach_value := v,
                 al_breach_threshold := thr, al_last_seen_at := Some now,
                 al_healthy_streak := 0, al_cycle_at := Some now\<rparr>
      in if al_severity a = CRITICAL \<and> sev \<noteq> CRITICAL then a1\<lparr>al_severity := sev\<rparr>
         else if al_severity a \<noteq> sev \<and> sev = CRITICAL then
           (let a2 = a1\<lparr>al_severity := sev\<rparr> in
            if al_status a = Acknowledged
            then a2\<lparr>al_status := Active, al_acked := False, al_acked_by := None, al_acked_at := None\<rparr>
            else a2)
         else a1)"

definition reopens :: "severity \<Rightarrow> alert \<Rightarrow> bool" where
  "reopens sev ex \<longleftrightarrow> sev = CRITICAL \<and> al_severity ex \<noteq> CRITICAL \<and> al_status ex = Acknowledged"

subsection \<open>A new alert\<close>

definition promoted_severity :: "verdict \<Rightarrow> pending \<Rightarrow> severity" where
  "promoted_severity v p =
     (if vd_anomaly v \<and> pd_severity p = CRITICAL then WARNING else pd_severity p)"

definition new_alert ::
  "secs \<Rightarrow> eval_row \<Rightarrow> verdict \<Rightarrow> tier \<Rightarrow> pending \<Rightarrow> num_value option \<Rightarrow> string option \<Rightarrow> nat \<Rightarrow> alert" where
  "new_alert now row v envt p thr silence i =
     \<lparr>al_id = i, al_account = Some (er_account row), al_resource = er_resource row,
      al_metric = er_metric row, al_severity = promoted_severity v p, al_environment = envt,
      al_group_key = (er_account row, er_rtype row, er_metric row), al_status = Active,
      al_triggered_at = pd_first_breach_at p, al_last_seen_at = Some now, al_cycle_at = Some now,
      al_healthy_streak = 0, al_current_value = er_value row, al_threshold = thr,
      al_breach_value = er_value row, al_breach_threshold = thr,
      al_silenced = (silence \<noteq> None), al_silenced_reason = silence, al_muted_until = None,
      al_acked = False, al_acked_by = None, al_acked_at = None, al_resolved_at = None,
      al_resolution_reason = None, al_resolved_by = None, al_escalated_at = None,
      al_escalated_group = None\<rparr>"

definition severity_text :: "severity \<Rightarrow> string" where
  "severity_text s = (case s of CRITICAL \<Rightarrow> ''CRITICAL'' | WARNING \<Rightarrow> ''WARNING'' | INFO \<Rightarrow> ''INFO'')"

definition open_messages :: "flags \<Rightarrow> eval_row \<Rightarrow> tier \<Rightarrow> alert \<Rightarrow> message list" where
  "open_messages fl row envt a =
     (let prio = (if fl_priority fl
                  then Some (compute_priority (Some (tier_value envt)) (severity_text (al_severity a)) (er_tags row))
                  else None)
      in [PublishAlert (al_id a) (al_severity a) (er_metric row) (er_value row) (al_threshold a)
            (er_account row) prio,
          NotifyOpened (al_id a) (al_severity a) (er_metric row) (er_resource row) (er_account row) prio,
          RuleMail (al_id a) (al_severity a) (er_metric row) (er_resource row) (er_account row) prio])"

definition row_environment :: "flags \<Rightarrow> eval_row \<Rightarrow> tier" where
  "row_environment fl row =
     (if fl_env_aware fl then classified_environment row else environment_from_tags (er_tags row))"

definition breach_severity :: "flags \<Rightarrow> tier \<Rightarrow> verdict \<Rightarrow> severity" where
  "breach_severity fl envt v =
     (if vd_is_critical v then CRITICAL
      else if fl_env_aware fl then severity_for (Some (tier_value envt)) False
      else if to_tier (Some (tier_value envt)) = Prod then WARNING else INFO)"

definition breach_step ::
  "flags \<Rightarrow> (nat \<times> string \<Rightarrow> string option) \<Rightarrow> secs \<Rightarrow> eval_row \<Rightarrow> verdict \<Rightarrow> store \<Rightarrow> stats
   \<Rightarrow> store \<times> stats \<times> message list" where
  "breach_step fl silenced now row v db sx =
     (let k = row_key row;
          envt = row_environment fl row;
          sev = breach_severity fl envt v;
          thr = (if vd_is_critical v then vd_critical v else vd_warning v)
      in (case find_open k (st_alerts db) of
            Some ex \<Rightarrow>
              (db\<lparr>st_alerts := update_where (by_id (al_id ex))
                    (\<lambda>a. (breach_touch sev (er_value row) thr now a)) (st_alerts db)\<rparr>,
               sx\<lparr>sx_already_open := sx_already_open sx + 1,
                  sx_reopened := (if reopens sev ex then sx_reopened sx + 1 else sx_reopened sx)\<rparr>,
               [])
          | None \<Rightarrow>
              (let ps1 = touch_pending k sev envt (er_value row) thr now (st_pending db);
                   sx1 = sx\<lparr>sx_pending_touched := sx_pending_touched sx + 1\<rparr>
               in (case pending_get ps1 k of
                     None \<Rightarrow> (db\<lparr>st_pending := ps1\<rparr>, sx1, [])
                   | Some p \<Rightarrow>
                       if int (pd_breach_cycles p) < vd_required v then (db\<lparr>st_pending := ps1\<rparr>, sx1, [])
                       else
                         (let thr' = (if promoted_severity v p = CRITICAL \<and> \<not> vd_is_critical v
                                         \<and> vd_critical v \<noteq> None then vd_critical v else thr);
                              silence = silenced (er_account row, er_resource row);
                              a = new_alert now row v envt p thr' silence (st_next_id db)
                          in (\<lparr>st_alerts = st_alerts db @ [a], st_pending = clear_pending k ps1,
                               st_next_id = st_next_id db + 1\<rparr>,
                              sx1\<lparr>sx_new := sx_new sx1 + 1\<rparr>,
                              if silence \<noteq> None then [] else open_messages fl row envt a))))))"

text \<open>\<open>_evaluate_row\<close>. \<open>bls\<close> is the table \<open>metric_baseline\<close>.\<close>

definition evaluate_row ::
  "flags \<Rightarrow> baseline_row list \<Rightarrow> (nat \<times> string \<Rightarrow> string option) \<Rightarrow> secs \<Rightarrow> eval_row
   \<Rightarrow> store \<Rightarrow> stats \<Rightarrow> py_error + (store \<times> stats \<times> message list)" where
  "evaluate_row fl bls silenced now row db sx =
     (case row_verdict fl (baseline_bucket bls now (er_account row) (er_resource row) (er_metric row)) row of
        Inl e \<Rightarrow> Inl e
      | Inr v \<Rightarrow> Inr (if vd_breaching v then breach_step fl silenced now row v db sx
                      else healthy_step now row v db sx))"

subsection \<open>A cycle\<close>

text \<open>
  The loop over the readings. \<open>commit_fails\<close> says for which readings the database refuses the
  transaction (a deadlock, say); such a reading is rolled back and counted as failed, while the
  statistics it had already counted stay, as they do in the code.
\<close>

fun evaluate_rows ::
  "flags \<Rightarrow> baseline_row list \<Rightarrow> (nat \<times> string \<Rightarrow> string option) \<Rightarrow> (eval_row \<Rightarrow> bool) \<Rightarrow> secs
   \<Rightarrow> eval_row list \<Rightarrow> store \<Rightarrow> stats \<Rightarrow> store \<times> stats \<times> message list" where
  "evaluate_rows fl bls silenced commit_fails now [] db sx = (db, sx, [])"
| "evaluate_rows fl bls silenced commit_fails now (row # rows) db sx =
     (case evaluate_row fl bls silenced now row db sx of
        Inl e \<Rightarrow> evaluate_rows fl bls silenced commit_fails now rows db (sx\<lparr>sx_failed := sx_failed sx + 1\<rparr>)
      | Inr (db', sx', msgs) \<Rightarrow>
          if commit_fails row then
            evaluate_rows fl bls silenced commit_fails now rows db (sx'\<lparr>sx_failed := sx_failed sx' + 1\<rparr>)
          else
            (case evaluate_rows fl bls silenced commit_fails now rows db' sx' of
               (db'', sx'', rest) \<Rightarrow> (db'', sx'', msgs @ rest)))"

definition no_stats :: stats where
  "no_stats = \<lparr>sx_new = 0, sx_resolved = 0, sx_already_open = 0, sx_pending_touched = 0,
     sx_reopened = 0, sx_failed = 0\<rparr>"

text \<open>The readings of a cycle: one per key, those the environment evaluates, and P1 only on a P1 tick.\<close>

definition cycle_rows :: "flags \<Rightarrow> bool \<Rightarrow> eval_row list \<Rightarrow> eval_row list" where
  "cycle_rows fl p1_only rows =
     (let rows1 = select_threshold_rows rows;
          rows2 = (if cfg_on (fl_poll fl) then filter (\<lambda>r. fst (env_poll_row_info fl r)) rows1 else rows1)
      in if p1_only then filter (\<lambda>r. (er_rtype r, lower (er_metric r)) \<in> set (fl_p1 fl)) rows2 else rows2)"

definition evaluate_cycle ::
  "flags \<Rightarrow> baseline_row list \<Rightarrow> (nat \<times> string \<Rightarrow> string option) \<Rightarrow> (eval_row \<Rightarrow> bool) \<Rightarrow> bool \<Rightarrow> secs
   \<Rightarrow> eval_row list \<Rightarrow> store \<Rightarrow> store \<times> stats \<times> message list" where
  "evaluate_cycle fl bls silenced commit_fails p1_only now rows db =
     evaluate_rows fl bls silenced commit_fails now (cycle_rows fl p1_only rows) db no_stats"

subsection \<open>Invariant\<close>

text \<open>
  Ids are distinct and below the next one, at most one alert is open per key, and every
  pending candidate respects its clock.
\<close>

definition ids_ok :: "store \<Rightarrow> bool" where
  "ids_ok db \<longleftrightarrow> distinct (map al_id (st_alerts db)) \<and> (\<forall>a\<in>set (st_alerts db). al_id a < st_next_id db)"

definition store_ok :: "secs \<Rightarrow> store \<Rightarrow> bool" where
  "store_ok now db \<longleftrightarrow>
     ids_ok db \<and> one_open_per_key (st_alerts db) \<and> (\<forall>p\<in>set (st_pending db). pending_ok now p)"

lemma store_okD:
  assumes "store_ok now db"
  shows "ids_ok db" "one_open_per_key (st_alerts db)" "\<And>p. p \<in> set (st_pending db) \<Longrightarrow> pending_ok now p"
  using assms by (simp_all add: store_ok_def)

lemma store_ok_mono: "store_ok t db \<Longrightarrow> t \<le> now \<Longrightarrow> store_ok now db"
  by (auto simp: store_ok_def intro: pending_ok_mono)

subsection \<open>The open alert found\<close>

lemma foldl_max_in: "foldl (\<lambda>b x. if al_id x > al_id b then x else b) a rest \<in> set (a # rest)"
proof (induction rest arbitrary: a)
  case (Cons x rest)
  show ?case
  proof (cases "al_id x > al_id a")
    case True
    then show ?thesis using Cons.IH [of x] by auto
  next
    case False
    then show ?thesis using Cons.IH [of a] by auto
  qed
qed simp

lemma find_open_Some:
  assumes "find_open k as = Some a"
  shows "a \<in> set as" "key_matches k a" "is_open a"
proof -
  obtain b rest where f: "filter (\<lambda>a. key_matches k a \<and> is_open a) as = b # rest"
    and a: "a = foldl (\<lambda>b x. if al_id x > al_id b then x else b) b rest"
    using assms by (auto simp: find_open_def split: list.splits)
  have "a \<in> set (filter (\<lambda>a. key_matches k a \<and> is_open a) as)"
    unfolding f a by (rule foldl_max_in)
  then show "a \<in> set as" "key_matches k a" "is_open a" by auto
qed

lemma find_open_None: "find_open k as = None \<longleftrightarrow> open_count k as = 0"
  by (auto simp: find_open_def open_count_def split: list.splits)

lemma resolve_alert_ident [simp]:
  "alert_ident (resolve_alert r now a) = alert_ident a" "\<not> is_open (resolve_alert r now a)"
  by (simp_all add: resolve_alert_def alert_ident_def is_open_def)

lemma breach_touch_ident [simp]: "alert_ident (breach_touch sev v thr now a) = alert_ident a"
  by (simp add: breach_touch_def alert_ident_def Let_def)

lemma breach_touch_open: "is_open a \<Longrightarrow> is_open (breach_touch sev v thr now a)"
  by (auto simp: breach_touch_def is_open_def Let_def)

lemma breach_touch_opens: "is_open (breach_touch sev v thr now a) \<Longrightarrow> is_open a"
  by (cases "al_status a") (auto simp: breach_touch_def is_open_def Let_def split: if_splits)

lemma ident_id: "alert_ident a = alert_ident b \<Longrightarrow> al_id a = al_id b"
  by (simp add: alert_ident_def)

lemma al_id_kept [simp]:
  "al_id (healthy_touch v thr now a) = al_id a" "al_id (resolve_alert r now a) = al_id a"
  "al_id (breach_touch sev v thr now a) = al_id a"
  by (rule ident_id, simp)+

lemmas touch_idents = healthy_touch_ident(1) resolve_alert_ident(1) breach_touch_ident

subsection \<open>Steps keep the invariant\<close>

lemma ids_ok_update:
  assumes "ids_ok db" and "\<And>a. al_id (f a) = al_id a"
  shows "ids_ok (db\<lparr>st_alerts := update_where p f (st_alerts db)\<rparr>)"
  using assms by (auto simp: ids_ok_def map_update_where set_update_where)

lemma pending_ok_clear: "\<forall>p\<in>set ps. pending_ok now p \<Longrightarrow> \<forall>p\<in>set (clear_pending k ps). pending_ok now p"
  by (simp add: clear_pending_def pending_del_def)

lemma pending_ok_touch:
  assumes "\<forall>p\<in>set ps. pending_ok now p"
  shows "\<forall>p\<in>set (touch_pending k sev envt v thr now ps). pending_ok now p"
proof (cases "pending_get ps k")
  case None
  then show ?thesis using assms
    by (auto simp: touch_pending_def pending_ok_def pending_clock_def)
next
  case (Some q)
  then show ?thesis using assms pending_touch_ok [of now _ now sev v thr]
    by (auto simp: touch_pending_def set_update_where)
qed

lemma pending_get_touch:
  "\<exists>p. pending_get (touch_pending k sev envt v thr now ps) k = Some p"
proof (cases "pending_get ps k")
  case None
  then show ?thesis
    by (simp add: touch_pending_def pending_get_append) (simp add: pending_get_def pending_key_def)
next
  case (Some q)
  then show ?thesis by (simp add: touch_pending_def pending_get_update)
qed

lemma pending_get_set: "pending_get ps k = Some p \<Longrightarrow> p \<in> set ps"
  by (auto simp: pending_get_def find_Some_iff)

lemma healthy_step_ok:
  assumes "store_ok now db"
  shows "store_ok now (fst (healthy_step now row v db sx))"
proof (cases "find_open (row_key row) (st_alerts db)")
  case None
  then show ?thesis using assms
    by (auto simp: healthy_step_def Let_def store_ok_def ids_ok_def dest: pending_ok_clear)
next
  case (Some ex)
  let ?line = "if al_severity ex = CRITICAL then vd_critical v else vd_warning v"
  let ?as1 = "update_where (by_id (al_id ex)) (healthy_touch (er_value row) ?line now) (st_alerts db)"
  have one1: "one_open_per_key ?as1"
    using store_okD(2) [OF assms] by (rule one_open_update_where [rotated 2]) simp_all
  have ids1: "ids_ok (db\<lparr>st_alerts := ?as1\<rparr>)"
    using store_okD(1) [OF assms] by (rule ids_ok_update) simp
  have one2: "one_open_per_key (update_where p (resolve_alert r now) ?as1)" for p r
    using one1 by (rule one_open_update_where [rotated 2]) simp_all
  have ids2: "ids_ok (db\<lparr>st_alerts := update_where p (resolve_alert r now) ?as1\<rparr>)" for p r
    using ids_ok_update [OF ids1, of "resolve_alert r now" p] by simp
  have pend: "\<forall>p\<in>set (clear_pending (row_key row) (st_pending db)). pending_ok now p"
    using store_okD(3) [OF assms] by (intro pending_ok_clear) blast
  show ?thesis
    using Some one1 ids1 one2 ids2 pend
    by (simp add: healthy_step_def Let_def store_ok_def ids_ok_def)
qed

lemma breach_step_ok:
  assumes ok: "store_ok now db"
  shows "store_ok now (fst (breach_step fl silenced now row v db sx))"
proof (cases "find_open (row_key row) (st_alerts db)")
  case (Some ex)
  have "one_open_per_key (update_where (by_id (al_id ex)) (breach_touch sev w thr now) (st_alerts db))"
    for sev w thr
    using store_okD(2) [OF ok] by (rule one_open_update_where [rotated 2]) (auto dest: breach_touch_opens)
  moreover have "ids_ok (db\<lparr>st_alerts := update_where (by_id (al_id ex)) (breach_touch sev w thr now) (st_alerts db)\<rparr>)"
    for sev w thr
    using store_okD(1) [OF ok] by (rule ids_ok_update) simp
  ultimately show ?thesis
    using Some store_okD(3) [OF ok] by (simp add: breach_step_def Let_def store_ok_def ids_ok_def)
next
  case None
  let ?k = "row_key row"
  have zero: "open_count ?k (st_alerts db) = 0" using None by (simp add: find_open_None)
  have key: "key_matches ?k (new_alert now row v envt p thr s i)" for envt p thr s i
    by (simp add: row_key_def key_matches_def new_alert_def)
  have one: "one_open_per_key (st_alerts db @ [new_alert now row v envt p thr s i])" for envt p thr s i
    by (rule one_open_append [OF store_okD(2) [OF ok] zero key])
  have ids: "ids_ok \<lparr>st_alerts = st_alerts db @ [new_alert now row v envt p thr s (st_next_id db)],
      st_pending = ps, st_next_id = st_next_id db + 1\<rparr>" for envt p thr s ps
    using store_okD(1) [OF ok] by (auto simp: ids_ok_def new_alert_def less_Suc_eq)
  have pend: "\<forall>p\<in>set (touch_pending ?k sev envt w thr now (st_pending db)). pending_ok now p"
    for sev envt w thr
    using store_okD(3) [OF ok] by (intro pending_ok_touch) blast
  have pend': "\<forall>p\<in>set (clear_pending ?k (touch_pending ?k sev envt w thr now (st_pending db))). pending_ok now p"
    for sev envt w thr
    using pend by (rule pending_ok_clear)
  show ?thesis
    using None store_okD(1,2) [OF ok] one ids pend pend'
    by (auto simp: breach_step_def Let_def store_ok_def ids_ok_def split: option.splits)
qed

lemma evaluate_row_cases:
  assumes "evaluate_row fl bls silenced now row db sx = Inr r"
  obtains (Healthy) v where "row_verdict fl (baseline_bucket bls now (er_account row) (er_resource row)
        (er_metric row)) row = Inr v" "\<not> vd_breaching v" "r = healthy_step now row v db sx"
    | (Breach) v where "row_verdict fl (baseline_bucket bls now (er_account row) (er_resource row)
        (er_metric row)) row = Inr v" "vd_breaching v" "r = breach_step fl silenced now row v db sx"
proof (cases "row_verdict fl (baseline_bucket bls now (er_account row) (er_resource row) (er_metric row)) row")
  case (Inl e)
  then show ?thesis using assms by (simp add: evaluate_row_def)
next
  case (Inr v)
  show ?thesis
  proof (cases "vd_breaching v")
    case True
    then show ?thesis using assms Inr that(2) by (simp add: evaluate_row_def)
  next
    case False
    then show ?thesis using assms Inr that(1) by (simp add: evaluate_row_def)
  qed
qed

lemma evaluate_row_ok:
  assumes "store_ok now db" and "evaluate_row fl bls silenced now row db sx = Inr r"
  shows "store_ok now (fst r)"
  using assms(2)
  by (cases rule: evaluate_row_cases)
     (simp_all add: breach_step_ok [OF assms(1)] healthy_step_ok [OF assms(1)])

text \<open>
  What a cycle does to the store, by induction: a property of the store that every evaluated
  row keeps is kept by the whole loop, whichever rows fail.
\<close>

lemma evaluate_rows_induct:
  assumes step: "\<And>row db sx r. row \<in> set rows \<Longrightarrow> P db \<Longrightarrow>
      evaluate_row fl bls silenced now row db sx = Inr r \<Longrightarrow> P (fst r)"
    and start: "P db"
  shows "P (fst (evaluate_rows fl bls silenced cf now rows db sx))"
  using assms
proof (induction rows arbitrary: db sx)
  case (Cons row rows)
  have IH: "P (fst (evaluate_rows fl bls silenced cf now rows db1 sx1))" if "P db1" for db1 sx1
    by (rule Cons.IH [OF _ that]) (rule Cons.prems(1) [OF list.set_intros(2)])
  show ?case
  proof (cases "evaluate_row fl bls silenced now row db sx")
    case (Inl e)
    then show ?thesis using IH [OF Cons.prems(2)] by simp
  next
    case (Inr r)
    obtain db' sx' msgs where r: "r = (db', sx', msgs)" by (cases r)
    have P': "P db'" using Cons.prems(1) [OF _ Cons.prems(2) Inr] r by simp
    show ?thesis
    proof (cases "cf row")
      case True
      then show ?thesis using IH [OF Cons.prems(2)] Inr r by simp
    next
      case False
      obtain d s m where e: "evaluate_rows fl bls silenced cf now rows db' sx' = (d, s, m)"
        by (metis prod_cases3)
      show ?thesis using IH [OF P', of sx'] Inr r False e by simp
    qed
  qed
qed simp

lemma evaluate_rows_ok:
  "store_ok now db \<Longrightarrow> store_ok now (fst (evaluate_rows fl bls silenced cf now rows db sx))"
  by (rule evaluate_rows_induct [where P = "store_ok now"]) (auto dest: evaluate_row_ok)

subsection \<open>What one row does\<close>

lemma unique_by_id:
  "ids_ok db \<Longrightarrow> a \<in> set (st_alerts db) \<Longrightarrow> b \<in> set (st_alerts db) \<Longrightarrow> al_id a = al_id b \<Longrightarrow> a = b"
  by (auto simp: ids_ok_def distinct_map inj_on_def)

lemma find_by_id: "distinct (map al_id as) \<Longrightarrow> a \<in> set as \<Longrightarrow> find (by_id (al_id a)) as = Some a"
  by (induction as) (auto simp: by_id_def image_iff)

lemma streak_of_touched:
  assumes "ids_ok db" "ex \<in> set (st_alerts db)"
  shows "streak_of (al_id ex) (update_where (by_id (al_id ex)) (healthy_touch v line now) (st_alerts db)) =
     gated_streak now ex"
proof -
  let ?as = "update_where (by_id (al_id ex)) (healthy_touch v line now) (st_alerts db)"
  have "distinct (map al_id ?as)" using assms(1) by (simp add: ids_ok_def map_update_where)
  moreover have "healthy_touch v line now ex \<in> set ?as"
    using assms(2) by (force simp: set_update_where by_id_def)
  ultimately have "find (by_id (al_id (healthy_touch v line now ex))) ?as = Some (healthy_touch v line now ex)"
    by (rule find_by_id)
  then show ?thesis by (simp add: streak_of_def)
qed

text \<open>The rows after a healthy reading of a key with an open alert \<open>ex\<close>.\<close>

definition healthy_line :: "verdict \<Rightarrow> alert \<Rightarrow> num_value option" where
  "healthy_line v ex = (if al_severity ex = CRITICAL then vd_critical v else vd_warning v)"

definition healed :: "secs \<Rightarrow> eval_row \<Rightarrow> verdict \<Rightarrow> alert \<Rightarrow> alert" where
  "healed now row v ex =
     (let a1 = healthy_touch (er_value row) (healthy_line v ex) now ex in
      if int (gated_streak now ex) \<ge> vd_required v
      then resolve_alert (if vd_anomaly v \<and> vd_warning v = None then ''placeholder_threshold'' else ''recovered'') now a1
      else a1)"

lemma healthy_step_alerts:
  assumes ids: "ids_ok db" and ex: "find_open (row_key row) (st_alerts db) = Some ex"
  shows "st_alerts (fst (healthy_step now row v db sx)) =
     update_where (by_id (al_id ex)) (healed now row v) (st_alerts db)"
proof -
  note f = find_open_Some [OF ex]
  have only: "a = ex" if "a \<in> set (st_alerts db)" "by_id (al_id ex) a" for a
    using unique_by_id [OF ids that(1) f(1)] that(2) by (simp add: by_id_def)
  have st: "streak_of (al_id ex) (update_where (by_id (al_id ex))
      (healthy_touch (er_value row) (healthy_line v ex) now) (st_alerts db)) = gated_streak now ex"
    by (rule streak_of_touched [OF ids f(1)])
  show ?thesis
  proof (cases "int (gated_streak now ex) \<ge> vd_required v")
    case True
    have "update_where (\<lambda>a. by_id (al_id ex) a \<and> is_open a) g
        (update_where (by_id (al_id ex)) (healthy_touch (er_value row) (healthy_line v ex) now) (st_alerts db))
      = update_where (by_id (al_id ex)) (\<lambda>a. g (healthy_touch (er_value row) (healthy_line v ex) now a)) (st_alerts db)"
      for g
      unfolding update_where_def map_map using only f(3)
      by (intro map_cong refl) (auto simp: by_id_def)
    moreover have "update_where (by_id (al_id ex)) (healed now row v) (st_alerts db) =
        update_where (by_id (al_id ex)) (\<lambda>a. resolve_alert (if vd_anomaly v \<and> vd_warning v = None
           then ''placeholder_threshold'' else ''recovered'') now
           (healthy_touch (er_value row) (healthy_line v ex) now a)) (st_alerts db)"
      unfolding update_where_def using only True
      by (intro map_cong refl) (auto simp: healed_def Let_def)
    ultimately show ?thesis using ex st True
      by (simp add: healthy_step_def Let_def flip: healthy_line_def)
  next
    case False
    moreover have "update_where (by_id (al_id ex)) (healed now row v) (st_alerts db) =
        update_where (by_id (al_id ex)) (healthy_touch (er_value row) (healthy_line v ex) now) (st_alerts db)"
      unfolding update_where_def using only False
      by (intro map_cong refl) (auto simp: healed_def Let_def)
    ultimately show ?thesis using ex st
      by (simp add: healthy_step_def Let_def flip: healthy_line_def)
  qed
qed

lemma healthy_step_none:
  "find_open (row_key row) (st_alerts db) = None \<Longrightarrow>
     st_alerts (fst (healthy_step now row v db sx)) = st_alerts db"
  by (simp add: healthy_step_def Let_def)

lemma healthy_step_pending:
  "st_pending (fst (healthy_step now row v db sx)) = clear_pending (row_key row) (st_pending db)"
  by (simp add: healthy_step_def Let_def split: option.split)

lemma healthy_step_msgs:
  "m \<in> set (snd (snd (healthy_step now row v db sx))) \<Longrightarrow> \<exists>i acct. m = PublishResolved i acct"
  by (auto simp: healthy_step_def Let_def split: option.splits if_splits)

text \<open>A breach without an open alert: the candidate after its touch, and the alert it may become.\<close>

definition breach_line :: "verdict \<Rightarrow> num_value option" where
  "breach_line v = (if vd_is_critical v then vd_critical v else vd_warning v)"

definition touched ::
  "flags \<Rightarrow> secs \<Rightarrow> eval_row \<Rightarrow> verdict \<Rightarrow> pending list \<Rightarrow> pending list" where
  "touched fl now row v ps =
     touch_pending (row_key row) (breach_severity fl (row_environment fl row) v) (row_environment fl row)
       (er_value row) (breach_line v) now ps"

lemma breach_step_none:
  assumes "find_open (row_key row) (st_alerts db) = None"
  obtains (Waiting) p where "pending_get (touched fl now row v (st_pending db)) (row_key row) = Some p"
      "int (pd_breach_cycles p) < vd_required v"
      "breach_step fl silenced now row v db sx =
         (db\<lparr>st_pending := touched fl now row v (st_pending db)\<rparr>,
          sx\<lparr>sx_pending_touched := sx_pending_touched sx + 1\<rparr>, [])"
    | (Opened) p thr where "pending_get (touched fl now row v (st_pending db)) (row_key row) = Some p"
      "vd_required v \<le> int (pd_breach_cycles p)"
      "st_alerts (fst (breach_step fl silenced now row v db sx)) = st_alerts db @
         [new_alert now row v (row_environment fl row) p thr (silenced (er_account row, er_resource row)) (st_next_id db)]"
      "st_pending (fst (breach_step fl silenced now row v db sx)) =
         clear_pending (row_key row) (touched fl now row v (st_pending db))"
      "snd (snd (breach_step fl silenced now row v db sx)) =
         (if silenced (er_account row, er_resource row) \<noteq> None then []
          else open_messages fl row (row_environment fl row)
            (new_alert now row v (row_environment fl row) p thr (silenced (er_account row, er_resource row)) (st_next_id db)))"
proof -
  obtain p where p: "pending_get (touched fl now row v (st_pending db)) (row_key row) = Some p"
    using pending_get_touch unfolding touched_def by blast
  note t = touched_def breach_line_def
  show ?thesis
  proof (cases "int (pd_breach_cycles p) < vd_required v")
    case True
    then show ?thesis using Waiting [OF p] p assms by (simp add: breach_step_def Let_def t)
  next
    case False
    then have "vd_required v \<le> int (pd_breach_cycles p)" by simp
    from Opened [OF p this] show ?thesis using p assms False by (simp add: breach_step_def Let_def t)
  qed
qed

lemma breach_step_some:
  assumes "find_open (row_key row) (st_alerts db) = Some ex"
  shows "breach_step fl silenced now row v db sx =
     (db\<lparr>st_alerts := update_where (by_id (al_id ex))
           (breach_touch (breach_severity fl (row_environment fl row) v) (er_value row) (breach_line v) now)
           (st_alerts db)\<rparr>,
      sx\<lparr>sx_already_open := sx_already_open sx + 1,
         sx_reopened := (if reopens (breach_severity fl (row_environment fl row) v) ex
                         then sx_reopened sx + 1 else sx_reopened sx)\<rparr>, [])"
  using assms by (simp add: breach_step_def Let_def breach_line_def)

subsection \<open>Other keys\<close>

lemma touched_other:
  assumes "k \<noteq> row_key row"
  shows "pending_get (touched fl now row v ps) k = pending_get ps k"
proof (cases "pending_get ps (row_key row)")
  case None
  then show ?thesis using assms
    by (auto simp: touched_def touch_pending_def pending_get_append pending_get_single pending_key_def
        split: option.split)
next
  case (Some p)
  then show ?thesis using assms
    by (simp add: touched_def touch_pending_def pending_get_update)
qed

lemma clear_other: "k \<noteq> k' \<Longrightarrow> pending_get (clear_pending k' ps) k = pending_get ps k"
  by (simp add: clear_pending_def)

lemma step_other_pending:
  assumes "k \<noteq> row_key row"
  shows "pending_get (st_pending (fst (healthy_step now row v db sx))) k = pending_get (st_pending db) k"
    and "pending_get (st_pending (fst (breach_step fl silenced now row v db sx))) k = pending_get (st_pending db) k"
proof -
  show "pending_get (st_pending (fst (healthy_step now row v db sx))) k = pending_get (st_pending db) k"
    using assms by (simp add: healthy_step_pending clear_other)
  show "pending_get (st_pending (fst (breach_step fl silenced now row v db sx))) k = pending_get (st_pending db) k"
  proof (cases "find_open (row_key row) (st_alerts db)")
    case None
    then show ?thesis
      by (cases rule: breach_step_none [of row db fl now v silenced sx])
         (use assms in \<open>simp_all add: touched_other clear_other\<close>)
  next
    case (Some ex)
    then show ?thesis by (simp add: breach_step_some)
  qed
qed

lemma update_other:
  assumes "ids_ok db" "ex \<in> set (st_alerts db)" "a \<in> set (st_alerts db)" "a \<noteq> ex"
  shows "a \<in> set (update_where (by_id (al_id ex)) f (st_alerts db))"
  using assms unique_by_id [OF assms(1,3,2)] by (force simp: set_update_where by_id_def)

lemma step_other_alerts:
  assumes ids: "ids_ok db" and a: "a \<in> set (st_alerts db)" "\<not> key_matches (row_key row) a"
  shows "a \<in> set (st_alerts (fst (healthy_step now row v db sx)))"
    and "a \<in> set (st_alerts (fst (breach_step fl silenced now row v db sx)))"
proof -
  have ne: "a \<noteq> ex" if "find_open (row_key row) (st_alerts db) = Some ex" for ex
    using find_open_Some(2) [OF that] a(2) by blast
  show "a \<in> set (st_alerts (fst (healthy_step now row v db sx)))"
  proof (cases "find_open (row_key row) (st_alerts db)")
    case None
    then show ?thesis using a by (simp add: healthy_step_none)
  next
    case (Some ex)
    then show ?thesis
      using update_other [OF ids find_open_Some(1) [OF Some] a(1) ne [OF Some]]
      by (simp add: healthy_step_alerts [OF ids])
  qed
  show "a \<in> set (st_alerts (fst (breach_step fl silenced now row v db sx)))"
  proof (cases "find_open (row_key row) (st_alerts db)")
    case None
    then show ?thesis
      by (cases rule: breach_step_none [of row db fl now v silenced sx]) (use a in simp_all)
  next
    case (Some ex)
    then show ?thesis
      using update_other [OF ids find_open_Some(1) [OF Some] a(1) ne [OF Some]]
      by (simp add: breach_step_some)
  qed
qed

subsection \<open>Rows that fail\<close>

text \<open>Whether a reading is evaluated at all: its verdict exists and its transaction commits.\<close>

definition row_raises :: "flags \<Rightarrow> baseline_row list \<Rightarrow> secs \<Rightarrow> eval_row \<Rightarrow> bool" where
  "row_raises fl bls now row \<longleftrightarrow>
     (\<exists>e. row_verdict fl (baseline_bucket bls now (er_account row) (er_resource row) (er_metric row)) row = Inl e)"

lemma row_raises_iff:
  "row_raises fl bls now row \<longleftrightarrow> (\<exists>e. evaluate_row fl bls silenced now row db sx = Inl e)"
  by (auto simp: row_raises_def evaluate_row_def split: sum.splits)

text \<open>The store and the messages do not depend on the statistics.\<close>

lemma step_stats_free:
  "fst (healthy_step now row v db sx) = fst (healthy_step now row v db sx')"
  "snd (snd (healthy_step now row v db sx)) = snd (snd (healthy_step now row v db sx'))"
  "fst (breach_step fl silenced now row v db sx) = fst (breach_step fl silenced now row v db sx')"
  "snd (snd (breach_step fl silenced now row v db sx)) = snd (snd (breach_step fl silenced now row v db sx'))"
  by (simp_all add: healthy_step_def breach_step_def Let_def split: option.split)

lemma evaluate_row_stats_free:
  assumes "evaluate_row fl bls silenced now row db sx = Inr r"
  shows "\<exists>r'. evaluate_row fl bls silenced now row db sx' = Inr r' \<and> fst r' = fst r \<and> snd (snd r') = snd (snd r)"
  using assms
proof (cases rule: evaluate_row_cases)
  case (Healthy v)
  then show ?thesis using step_stats_free(1,2) by (simp add: evaluate_row_def)
next
  case (Breach v)
  then show ?thesis using step_stats_free(3,4) by (simp add: evaluate_row_def)
qed

lemma evaluate_rows_failing:
  "fst (evaluate_rows fl bls silenced cf now rows db sx) =
     fst (evaluate_rows fl bls silenced (\<lambda>_. False) now
            (filter (\<lambda>row. \<not> cf row \<and> \<not> row_raises fl bls now row) rows) db sx') \<and>
   snd (snd (evaluate_rows fl bls silenced cf now rows db sx)) =
     snd (snd (evaluate_rows fl bls silenced (\<lambda>_. False) now
            (filter (\<lambda>row. \<not> cf row \<and> \<not> row_raises fl bls now row) rows) db sx'))"
proof (induction rows arbitrary: db sx sx')
  case (Cons row rows)
  show ?case
  proof (cases "evaluate_row fl bls silenced now row db sx")
    case (Inl e)
    then have "row_raises fl bls now row" using row_raises_iff by blast
    then show ?thesis using Inl Cons.IH by simp
  next
    case (Inr r)
    then have nr: "\<not> row_raises fl bls now row" using row_raises_iff [of fl bls now row silenced db sx] by simp
    obtain d s m where r: "r = (d, s, m)" by (cases r)
    show ?thesis
    proof (cases "cf row")
      case True
      then show ?thesis using Inr r Cons.IH by simp
    next
      case False
      from evaluate_row_stats_free [OF Inr, of sx'] obtain s' where
        r': "evaluate_row fl bls silenced now row db sx' = Inr (d, s', m)" using r by auto
      show ?thesis using Cons.IH [of d s s'] False nr Inr r r' by (simp add: case_prod_unfold)
    qed
  qed
qed simp

subsection \<open>The row that opens an alert\<close>

lemma not_new_update:
  assumes "ids_ok db" "al_id b = st_next_id db" "\<And>c. al_id (f c) = al_id c"
  shows "b \<notin> set (update_where p f (st_alerts db))"
  using assms by (auto simp: ids_ok_def set_update_where)

lemma healed_id [simp]: "al_id (healed now row v c) = al_id c"
  by (simp add: healed_def Let_def)

lemma healthy_opens_none:
  assumes "ids_ok db" "al_id a = st_next_id db"
  shows "a \<notin> set (st_alerts (fst (healthy_step now row v db sx)))"
proof (cases "find_open (row_key row) (st_alerts db)")
  case None
  then show ?thesis using assms by (auto simp: healthy_step_none ids_ok_def)
next
  case (Some ex)
  then show ?thesis using not_new_update [OF assms healed_id] by (simp add: healthy_step_alerts [OF assms(1)])
qed

lemma row_verdict_required: "row_verdict fl b row = Inr v \<Longrightarrow> vd_required v = row_required fl row"
  by (auto simp: row_verdict_def Let_def split: sum.splits)

lemma opened_alert:
  assumes ok: "store_ok t db" and t: "t \<le> now" and r: "evaluate_row fl bls silenced now row db sx = Inr r"
    and a: "a \<in> set (st_alerts (fst r))" "al_id a = st_next_id db"
  obtains v p thr where "vd_required v = row_required fl row" "vd_breaching v" "pending_ok now p"
    "vd_required v \<le> int (pd_breach_cycles p)"
    "a = new_alert now row v (row_environment fl row) p thr
       (silenced (er_account row, er_resource row)) (st_next_id db)"
  using r
proof (cases rule: evaluate_row_cases)
  case (Healthy v)
  then show ?thesis using healthy_opens_none [OF store_okD(1) [OF ok] a(2)] a(1) by simp
next
  case (Breach v)
  note req = row_verdict_required [OF Breach(1)]
  show ?thesis
  proof (cases "find_open (row_key row) (st_alerts db)")
    case (Some ex)
    then show ?thesis
      using a(1) Breach(3) not_new_update [OF store_okD(1) [OF ok] a(2)] by (simp add: breach_step_some)
  next
    case None
    have old: "a \<notin> set (st_alerts db)" using store_okD(1) [OF ok] a(2) by (auto simp: ids_ok_def)
    from None show ?thesis
    proof (cases rule: breach_step_none [of row db fl now v silenced sx])
      case (Waiting p)
      then show ?thesis using a(1) old Breach(3) by simp
    next
      case (Opened p thr)
      have "pending_ok now p"
        using pending_ok_touch [of "st_pending db" now] store_okD(3) [OF ok] t pending_ok_mono
          pending_get_set [OF Opened(1)]
        unfolding touched_def by blast
      moreover have "a = new_alert now row v (row_environment fl row) p thr
          (silenced (er_account row, er_resource row)) (st_next_id db)"
        using a(1) old Breach(3) Opened(3) by simp
      ultimately show ?thesis using that req Breach(2) Opened(2) by blast
    qed
  qed
qed

lemma resolved_by_row:
  assumes ok: "store_ok now db" and r: "evaluate_row fl bls silenced now row db sx = Inr r"
    and a: "a \<in> set (st_alerts db)" "is_open a"
    and b: "b \<in> set (st_alerts (fst r))" "al_id b = al_id a" "\<not> is_open b"
  obtains ex v where "vd_required v = row_required fl row" "\<not> vd_breaching v"
    "find_open (row_key row) (st_alerts db) = Some ex" "b = healed now row v ex"
    "vd_required v \<le> int (gated_streak now ex)"
proof -
  note ids = store_okD(1) [OF ok]
  have same: "c = a" if "c \<in> set (st_alerts db)" "al_id c = al_id b" for c
    using unique_by_id [OF ids that(1) a(1)] that(2) b(2) by simp
  have old: "b \<notin> set (st_alerts db)" using same [of b] a(2) b(3) by auto
  have src: "\<exists>c\<in>set (st_alerts db). b = (if p c then f c else c)"
    if "b \<in> set (update_where p f (st_alerts db))" for p f
    using that by (auto simp: set_update_where)
  from r show ?thesis
  proof (cases rule: evaluate_row_cases)
    case (Healthy v)
    show ?thesis
    proof (cases "find_open (row_key row) (st_alerts db)")
      case None
      then show ?thesis using Healthy(3) b(1) old by (simp add: healthy_step_none)
    next
      case (Some ex)
      have "b \<in> set (update_where (by_id (al_id ex)) (healed now row v) (st_alerts db))"
        using Healthy(3) b(1) by (simp add: healthy_step_alerts [OF ids Some])
      from src [OF this] old obtain c
        where c: "c \<in> set (st_alerts db)" "b = healed now row v c" "al_id c = al_id ex"
        by (auto simp: by_id_def split: if_splits)
      have "c = ex" using unique_by_id [OF ids c(1) find_open_Some(1) [OF Some] c(3)] .
      moreover have "vd_required v \<le> int (gated_streak now ex)"
        using b(3) c(2) \<open>c = ex\<close> find_open_Some(3) [OF Some] by (auto simp: healed_def Let_def split: if_splits)
      ultimately show ?thesis using that [OF row_verdict_required [OF Healthy(1)] Healthy(2) Some] c(2) by simp
    qed
  next
    case (Breach v)
    have new: "is_open (new_alert now row v envt p thr s i)" for envt p thr s i
      by (simp add: is_open_def new_alert_def)
    show ?thesis
    proof (cases "find_open (row_key row) (st_alerts db)")
      case None
      then show ?thesis
      proof (cases rule: breach_step_none [of row db fl now v silenced sx])
        case (Waiting p)
        then show ?thesis using Breach(3) b(1) old by simp
      next
        case (Opened p thr)
        then show ?thesis using Breach(3) b(1,3) old new by auto
      qed
    next
      case (Some ex)
      have "b \<in> set (update_where (by_id (al_id ex))
          (breach_touch (breach_severity fl (row_environment fl row) v) (er_value row) (breach_line v) now)
          (st_alerts db))"
        using Breach(3) b(1) by (simp add: breach_step_some [OF Some])
      from src [OF this] old obtain c where c: "c \<in> set (st_alerts db)" "al_id c = al_id ex"
        "b = breach_touch (breach_severity fl (row_environment fl row) v) (er_value row) (breach_line v) now c"
        by (auto simp: by_id_def split: if_splits)
      have "c = ex" using unique_by_id [OF ids c(1) find_open_Some(1) [OF Some] c(2)] .
      then have "is_open b" using c(3) find_open_Some(3) [OF Some] by (simp add: breach_touch_open)
      then show ?thesis using b(3) by simp
    qed
  qed
qed

lemma silenced_row_messages:
  assumes r: "evaluate_row fl bls silenced now row db sx = Inr (db', sx', msgs)"
    and s: "silenced (er_account row, er_resource row) \<noteq> None" and m: "m \<in> set msgs"
  shows "\<exists>i acct. m = PublishResolved i acct"
  using r
proof (cases rule: evaluate_row_cases)
  case (Healthy v)
  then have "msgs = snd (snd (healthy_step now row v db sx))" by (metis snd_conv)
  then show ?thesis using healthy_step_msgs m by blast
next
  case (Breach v)
  then have msgs: "msgs = snd (snd (breach_step fl silenced now row v db sx))" by (metis snd_conv)
  show ?thesis
  proof (cases "find_open (row_key row) (st_alerts db)")
    case None
    then show ?thesis
      by (cases rule: breach_step_none [of row db fl now v silenced sx]) (use m msgs s in simp_all)
  next
    case (Some ex)
    then show ?thesis using m msgs by (simp add: breach_step_some)
  qed
qed

text \<open>What a breach does to the severity, the acknowledgement and the recovery count of an open alert.\<close>

lemma breach_touch_severity:
  "al_severity (breach_touch sev v thr now a) =
     (if al_severity a = CRITICAL \<or> sev = CRITICAL then sev else al_severity a) \<and>
   al_status (breach_touch sev v thr now a) = (if reopens sev a then Active else al_status a) \<and>
   al_acked (breach_touch sev v thr now a) = (if reopens sev a then False else al_acked a) \<and>
   al_healthy_streak (breach_touch sev v thr now a) = 0 \<and> al_cycle_at (breach_touch sev v thr now a) = Some now"
  by (auto simp: breach_touch_def reopens_def Let_def)

end
