(* ===== verification/Alert_Sweep.thy ===== *)
theory Alert_Sweep
  imports Alert_Evaluator
begin

text \<open>
  \<open>_auto_resolve_stale_alerts\<close> of \<open>app/collector/alert_evaluator.py\<close>: the sweep that closes open
  alerts whose subject is gone. It runs a fixed list of rules, each a query for open alerts
  followed by an update by id in chunks of 500, and records why each alert was closed. The
  lemmas show that the sweep is the function "first matching rule wins" on the open alerts.
\<close>

subsection \<open>Resolving by id\<close>

definition OPEN_STATUSES :: "status list" where
  "OPEN_STATUSES = [Active, Acknowledged]"

definition ORPHAN_GRACE_MINUTES :: int where "ORPHAN_GRACE_MINUTES = 30"
definition RESOURCE_GONE_HOURS :: int where "RESOURCE_GONE_HOURS = 24"
definition PENDING_EXPIRY_MINUTES :: int where "PENDING_EXPIRY_MINUTES = 30"

definition NO_DATA_MEANS_IDLE :: "((string \<times> string) \<times> string) list" where
  "NO_DATA_MEANS_IDLE = [((''elb'', ''responselatency''), ''requestcount'')]"

definition IDLE_RESOLVE_MINUTES :: int where "IDLE_RESOLVE_MINUTES = 60"

definition sweep_resolve :: "string \<Rightarrow> secs \<Rightarrow> alert \<Rightarrow> alert" where
  "sweep_resolve reason now a =
     a\<lparr>al_status := Resolved, al_resolved_at := Some now, al_last_seen_at := Some now,
       al_resolution_reason := Some reason, al_resolved_by := Some ''system''\<rparr>"

text \<open>\<open>ids[i:i + 500]\<close> for \<open>i\<close> in \<open>range(0, len(ids), 500)\<close>.\<close>

function chunks :: "nat \<Rightarrow> 'a list \<Rightarrow> 'a list list" where
  "chunks n xs = (if xs = [] \<or> n = 0 then [] else take n xs # chunks n (drop n xs))"
  by pat_completeness auto
termination by (relation "measure (\<lambda>(n, xs). length xs)") auto

declare chunks.simps [simp del]

fun resolve_chunks :: "string \<Rightarrow> secs \<Rightarrow> nat list list \<Rightarrow> alert list \<Rightarrow> nat \<Rightarrow> alert list \<times> nat" where
  "resolve_chunks reason now [] as n = (as, n)"
| "resolve_chunks reason now (c # cs) as n =
     (let p = (\<lambda>a. al_id a \<in> set c \<and> al_status a \<in> set OPEN_STATUSES)
      in resolve_chunks reason now cs (update_where p (sweep_resolve reason now) as) (n + rowcount p as))"

definition resolve_ids :: "string \<Rightarrow> secs \<Rightarrow> nat list \<Rightarrow> alert list \<Rightarrow> alert list \<times> nat" where
  "resolve_ids reason now ids as = resolve_chunks reason now (chunks 500 ids) as 0"

subsection \<open>What the sweep reads\<close>

record threshold_row =
  tr_account :: nat
  tr_rtype :: string
  tr_enabled :: bool
  tr_catalog_metric :: string

record history_row =
  hr_resource :: nat
  hr_metric :: string
  hr_at :: secs
  hr_value :: num_value

text \<open>
  \<open>sw_session_now\<close> is \<open>NOW()\<close> in the database session's time zone, \<open>sw_now\<close> is
  \<open>UTC_TIMESTAMP()\<close>; \<open>sw_traffic_ok\<close> says that the traffic query does not raise.
\<close>

record sweep_env =
  sw_now :: secs
  sw_session_now :: secs
  sw_resources :: "resource list"
  sw_accounts :: "account list"
  sw_thresholds :: "threshold_row list"
  sw_history :: "history_row list"
  sw_traffic_ok :: bool

definition joined :: "sweep_env \<Rightarrow> alert \<Rightarrow> resource list" where
  "joined w a = (case al_account a of None \<Rightarrow> [] | Some acct \<Rightarrow> find_resource (sw_resources w) acct (al_resource a))"

definition joined_account :: "sweep_env \<Rightarrow> alert \<Rightarrow> account list" where
  "joined_account w a = filter (\<lambda>ac. al_account a = Some (ac_id ac)) (sw_accounts w)"

subsection \<open>The rules\<close>

definition account_inactive :: "sweep_env \<Rightarrow> alert \<Rightarrow> bool" where
  "account_inactive w a \<longleftrightarrow> (\<exists>r\<in>set (joined w a). active_accounts (sw_accounts w) (rs_account r) = [])"

definition resource_missing :: "sweep_env \<Rightarrow> alert \<Rightarrow> bool" where
  "resource_missing w a \<longleftrightarrow> al_account a \<noteq> None \<and> joined w a = []"

definition resource_unseen :: "sweep_env \<Rightarrow> alert \<Rightarrow> bool" where
  "resource_unseen w a \<longleftrightarrow>
     (\<exists>r\<in>set (joined w a).
        (\<exists>ac\<in>set (joined_account w a). ac_provider ac = ''aws'') \<and>
        (case rs_last_seen_at r of None \<Rightarrow> False
         | Some t \<Rightarrow> t < sw_session_now w - RESOURCE_GONE_HOURS * 3600))"

definition instance_stopped :: "sweep_env \<Rightarrow> alert \<Rightarrow> bool" where
  "instance_stopped w a \<longleftrightarrow>
     (\<exists>r\<in>set (joined w a). rs_type r = ''ec2'' \<and>
        (rs_instance_state r = Some ''stopped'' \<or> rs_instance_state r = Some ''terminated''))"

definition governed :: "sweep_env \<Rightarrow> resource \<Rightarrow> alert \<Rightarrow> bool" where
  "governed w r a \<longleftrightarrow>
     (\<exists>t\<in>set (sw_thresholds w). al_account a = Some (tr_account t) \<and> tr_rtype t = rs_type r \<and> tr_enabled t \<and>
        db_metric_name_sql (rs_type r) (tr_catalog_metric t) = al_metric a)"

definition threshold_disabled :: "sweep_env \<Rightarrow> alert \<Rightarrow> bool" where
  "threshold_disabled w a \<longleftrightarrow>
     al_metric a \<notin> set SYSTEM_METRICS \<and> seen_at a < sw_now w - ORPHAN_GRACE_MINUTES * 60 \<and>
     (\<exists>r\<in>set (joined w a). \<not> governed w r a)"

definition no_data_expired :: "sweep_env \<Rightarrow> alert \<Rightarrow> bool" where
  "no_data_expired w a \<longleftrightarrow>
     (\<exists>r\<in>set (joined w a). \<exists>ac\<in>set (joined_account w a).
        seen_at a < sw_now w - int (hard_expiry_hours (ac_provider ac) (rs_type r)) * 3600)"

definition traffic_rows :: "sweep_env \<Rightarrow> resource \<Rightarrow> string \<Rightarrow> history_row list" where
  "traffic_rows w r traffic =
     filter (\<lambda>h. hr_resource h = rs_id r \<and> lower (hr_metric h) = traffic \<and>
                 hr_at h \<ge> sw_now w - IDLE_RESOLVE_MINUTES * 60) (sw_history w)"

definition no_traffic :: "sweep_env \<Rightarrow> (string \<times> string) \<times> string \<Rightarrow> alert \<Rightarrow> bool" where
  "no_traffic w idle a \<longleftrightarrow>
     (case idle of ((rtype, metric), traffic) \<Rightarrow>
        \<exists>r\<in>set (joined w a). rs_type r = rtype \<and> lower (al_metric a) = metric \<and>
          seen_at a < sw_now w - IDLE_RESOLVE_MINUTES * 60 \<and>
          traffic_rows w r traffic \<noteq> [] \<and> (\<forall>h\<in>set (traffic_rows w r traffic). \<not> hr_value h > 0))"

definition unattributable :: "sweep_env \<Rightarrow> alert \<Rightarrow> bool" where
  "unattributable w a \<longleftrightarrow> al_account a = None \<and> seen_at a < sw_now w - 72 * 3600"

definition idle_rules :: "sweep_env \<Rightarrow> (string \<times> (alert \<Rightarrow> bool)) list" where
  "idle_rules w =
     (if sw_traffic_ok w then map (\<lambda>i. (''no_traffic'', no_traffic w i)) NO_DATA_MEANS_IDLE else [])"

definition sweep_rules :: "sweep_env \<Rightarrow> (string \<times> (alert \<Rightarrow> bool)) list" where
  "sweep_rules w =
     [(''account_inactive'', account_inactive w),
      (''resource_gone'', resource_missing w),
      (''resource_gone'', resource_unseen w),
      (''instance_stopped'', instance_stopped w),
      (''threshold_disabled'', threshold_disabled w),
      (''no_data_expired'', no_data_expired w)]
     @ idle_rules w @
     [(''no_data_expired'', unattributable w)]"

subsection \<open>The sweep\<close>

definition run_rule ::
  "secs \<Rightarrow> string \<times> (alert \<Rightarrow> bool) \<Rightarrow> alert list \<times> (string, nat) dict
   \<Rightarrow> alert list \<times> (string, nat) dict" where
  "run_rule now rl s =
     (let ids = map al_id (filter (\<lambda>a. al_status a \<in> set OPEN_STATUSES \<and> snd rl a) (fst s)) in
      if ids = [] then s
      else (let res = resolve_ids (fst rl) now ids (fst s);
                old = (case dict_get (snd s) (fst rl) of Some n \<Rightarrow> n | None \<Rightarrow> 0)
            in (fst res, if snd res = 0 then snd s else dict_set (snd s) (fst rl) (old + snd res))))"

definition expire_pending :: "secs \<Rightarrow> pending list \<Rightarrow> pending list" where
  "expire_pending now ps = filter (\<lambda>p. \<not> pd_last_seen_at p < now - PENDING_EXPIRY_MINUTES * 60) ps"

definition dict_total :: "('k, nat) dict \<Rightarrow> nat" where
  "dict_total d = (\<Sum>(k, n)\<leftarrow>d. n)"

definition auto_resolve_stale_alerts :: "sweep_env \<Rightarrow> store \<Rightarrow> store \<times> nat \<times> (string, nat) dict" where
  "auto_resolve_stale_alerts w db =
     (let s = fold (run_rule (sw_now w)) (sweep_rules w) (st_alerts db, [])
      in (db\<lparr>st_alerts := fst s, st_pending := expire_pending (sw_now w) (st_pending db)\<rparr>,
          dict_total (snd s), snd s))"

subsection \<open>Chunking does not matter\<close>

lemma open_statuses [simp]: "al_status a \<in> set OPEN_STATUSES \<longleftrightarrow> is_open a"
  by (auto simp: OPEN_STATUSES_def is_open_def)

lemma sweep_resolve_simps [simp]:
  "alert_ident (sweep_resolve r now a) = alert_ident a" "\<not> is_open (sweep_resolve r now a)"
  "al_id (sweep_resolve r now a) = al_id a"
  by (simp_all add: sweep_resolve_def alert_ident_def is_open_def)

lemma concat_chunks: "0 < n \<Longrightarrow> concat (chunks n xs) = xs"
  by (induction n xs rule: chunks.induct) (simp add: chunks.simps)

lemma chunk_length: "c \<in> set (chunks n xs) \<Longrightarrow> length c \<le> n \<and> c \<noteq> []"
proof (induction n xs rule: chunks.induct)
  case (1 n xs)
  then show ?case by (cases "xs = [] \<or> n = 0") (auto simp: chunks.simps [of n xs])
qed

lemma update_where_again:
  assumes "\<And>a. \<not> is_open (f a)" "\<And>a. al_id (f a) = al_id a"
  shows "update_where (\<lambda>a. al_id a \<in> B \<and> is_open a) f (update_where (\<lambda>a. al_id a \<in> A \<and> is_open a) f as)
     = update_where (\<lambda>a. al_id a \<in> A \<union> B \<and> is_open a) f as"
  using assms by (induction as) (auto simp: update_where_Cons)

lemma rowcount_again:
  assumes "\<And>a. \<not> is_open (f a)" "\<And>a. al_id (f a) = al_id a"
  shows "rowcount (\<lambda>a. al_id a \<in> A \<and> is_open a) as
       + rowcount (\<lambda>a. al_id a \<in> B \<and> is_open a) (update_where (\<lambda>a. al_id a \<in> A \<and> is_open a) f as)
     = rowcount (\<lambda>a. al_id a \<in> A \<union> B \<and> is_open a) as"
  using assms by (induction as) (auto simp: update_where_Cons rowcount_def)

lemma resolve_chunks_eq:
  "resolve_chunks reason now cs as n =
     (update_where (\<lambda>a. al_id a \<in> set (concat cs) \<and> is_open a) (sweep_resolve reason now) as,
      n + rowcount (\<lambda>a. al_id a \<in> set (concat cs) \<and> is_open a) as)"
proof (induction cs arbitrary: as n)
  case Nil
  then show ?case by (simp add: update_where_none rowcount_def)
next
  case (Cons c cs)
  let ?f = "sweep_resolve reason now"
  note again = update_where_again [of ?f "set (concat cs)" "set c" as]
    and count = rowcount_again [of ?f "set c" as "set (concat cs)"]
  show ?case
    using again count
    by (simp add: Let_def Cons.IH add.assoc del: set_concat)
qed

lemma resolve_ids_eq:
  "resolve_ids reason now ids as =
     (update_where (\<lambda>a. al_id a \<in> set ids \<and> is_open a) (sweep_resolve reason now) as,
      rowcount (\<lambda>a. al_id a \<in> set ids \<and> is_open a) as)"
  by (simp add: resolve_ids_def resolve_chunks_eq concat_chunks del: set_concat)

subsection \<open>The first matching rule wins\<close>

definition first_rule :: "(string \<times> (alert \<Rightarrow> bool)) list \<Rightarrow> alert \<Rightarrow> string option" where
  "first_rule rules a = map_option fst (find (\<lambda>rl. snd rl a) rules)"

definition swept :: "(string \<times> (alert \<Rightarrow> bool)) list \<Rightarrow> secs \<Rightarrow> alert \<Rightarrow> alert" where
  "swept rules now a =
     (if is_open a then (case first_rule rules a of Some r \<Rightarrow> sweep_resolve r now a | None \<Rightarrow> a) else a)"

lemma swept_find:
  "swept rules now a =
     (if is_open a
      then (case find (\<lambda>rl. snd rl a) rules of Some rl \<Rightarrow> sweep_resolve (fst rl) now a | None \<Rightarrow> a)
      else a)"
  by (simp add: swept_def first_rule_def split: option.split)

lemma swept_Nil [simp]: "swept [] now a = a"
  by (simp add: swept_def first_rule_def)

lemma swept_Cons:
  "swept (rl # rules) now a =
     (if is_open a \<and> snd rl a then sweep_resolve (fst rl) now a else swept rules now a)"
  by (simp add: swept_def first_rule_def)

lemma swept_closed [simp]: "\<not> is_open a \<Longrightarrow> swept rules now a = a"
  by (simp add: swept_def)

lemma swept_keeps [simp]:
  "alert_ident (swept rules now a) = alert_ident a" "al_id (swept rules now a) = al_id a"
  by (simp_all add: swept_def split: option.split)

lemma swept_open: "is_open (swept rules now a) \<Longrightarrow> is_open a"
  by (auto simp: swept_def split: if_splits)

text \<open>With distinct ids, selecting rows and updating them by id is updating the rows selected.\<close>

lemma run_rule_alerts:
  assumes "distinct (map al_id as)"
  shows "fst (run_rule now rl (as, d)) =
     update_where (\<lambda>a. is_open a \<and> snd rl a) (sweep_resolve (fst rl) now) as"
proof -
  let ?sel = "filter (\<lambda>a. is_open a \<and> snd rl a) as"
  have same: "al_id a \<in> set (map al_id ?sel) \<and> is_open a \<longleftrightarrow> is_open a \<and> snd rl a" if "a \<in> set as" for a
    using assms that by (auto simp: distinct_map inj_on_def)
  have eq: "update_where (\<lambda>a. al_id a \<in> set (map al_id ?sel) \<and> is_open a) (sweep_resolve (fst rl) now) as
      = update_where (\<lambda>a. is_open a \<and> snd rl a) (sweep_resolve (fst rl) now) as"
    using same by (intro update_where_cong) blast
  show ?thesis
  proof (cases "?sel = []")
    case True
    then have "\<And>a. a \<in> set as \<Longrightarrow> \<not> (is_open a \<and> snd rl a)" by (auto simp: filter_empty_conv)
    then show ?thesis using True by (simp add: run_rule_def update_where_none)
  next
    case False
    then show ?thesis using eq by (simp add: run_rule_def Let_def resolve_ids_eq)
  qed
qed

lemma run_rules_alerts:
  "distinct (map al_id as) \<Longrightarrow> fst (fold (run_rule now) rules (as, d)) = map (swept rules now) as"
proof (induction rules arbitrary: as d)
  case (Cons rl rules)
  obtain as' d' where r: "run_rule now rl (as, d) = (as', d')" by (cases "run_rule now rl (as, d)")
  then have as': "as' = update_where (\<lambda>a. is_open a \<and> snd rl a) (sweep_resolve (fst rl) now) as"
    using run_rule_alerts [OF Cons.prems, of now rl d] by simp
  have "distinct (map al_id as')" using Cons.prems by (simp add: as' map_update_where)
  then have "fst (fold (run_rule now) rules (as', d')) = map (swept rules now) as'" by (rule Cons.IH)
  then show ?case by (simp add: r) (simp add: as' update_where_def swept_Cons)
qed (simp add: map_idI)

subsection \<open>The counts\<close>

definition closed_by :: "(string \<times> (alert \<Rightarrow> bool)) list \<Rightarrow> string \<Rightarrow> alert list \<Rightarrow> nat" where
  "closed_by rules reason as = length (filter (\<lambda>a. is_open a \<and> first_rule rules a = Some reason) as)"

definition dict_count :: "('k, nat) dict \<Rightarrow> 'k \<Rightarrow> nat" where
  "dict_count d k = (case dict_get d k of Some n \<Rightarrow> n | None \<Rightarrow> 0)"

lemma run_rule_count:
  assumes "distinct (map al_id as)"
  shows "dict_count (snd (run_rule now rl (as, d))) reason =
     dict_count d reason + (if reason = fst rl then length (filter (\<lambda>a. is_open a \<and> snd rl a) as) else 0)"
proof -
  let ?sel = "filter (\<lambda>a. is_open a \<and> snd rl a) as"
  have same: "al_id a \<in> set (map al_id ?sel) \<and> is_open a \<longleftrightarrow> is_open a \<and> snd rl a" if "a \<in> set as" for a
    using assms that by (auto simp: distinct_map inj_on_def)
  then have "filter (\<lambda>a. al_id a \<in> set (map al_id ?sel) \<and> is_open a) as = ?sel"
    by (intro filter_cong) blast+
  then have n: "rowcount (\<lambda>a. al_id a \<in> set (map al_id ?sel) \<and> is_open a) as = length ?sel"
    by (simp add: rowcount_def)
  show ?thesis
    using n by (simp add: run_rule_def Let_def resolve_ids_eq dict_count_def)
qed

lemma first_rule_Cons:
  "first_rule (rl # rules) a = (if snd rl a then Some (fst rl) else first_rule rules a)"
  by (simp add: first_rule_def)

lemma first_rule_hit: "snd rl a \<Longrightarrow> first_rule (rl # rules) a = Some (fst rl)"
  and first_rule_miss: "\<not> snd rl a \<Longrightarrow> first_rule (rl # rules) a = first_rule rules a"
  by (simp_all add: first_rule_def)

lemma closed_by_Cons:
  "closed_by (rl # rules) reason as =
     (if reason = fst rl then length (filter (\<lambda>a. is_open a \<and> snd rl a) as) else 0)
     + closed_by rules reason (update_where (\<lambda>a. is_open a \<and> snd rl a) (sweep_resolve (fst rl) now) as)"
  by (induction as)
     (auto simp: closed_by_def first_rule_hit first_rule_miss update_where_Cons)

lemma run_rules_count:
  "distinct (map al_id as) \<Longrightarrow>
     dict_count (snd (fold (run_rule now) rules (as, d))) reason = dict_count d reason + closed_by rules reason as"
proof (induction rules arbitrary: as d)
  case Nil
  then show ?case by (simp add: closed_by_def first_rule_def)
next
  case (Cons rl rules)
  obtain as' d' where r: "run_rule now rl (as, d) = (as', d')" by (cases "run_rule now rl (as, d)")
  then have as': "as' = update_where (\<lambda>a. is_open a \<and> snd rl a) (sweep_resolve (fst rl) now) as"
    using run_rule_alerts [OF Cons.prems, of now rl d] by simp
  have "distinct (map al_id as')" using Cons.prems by (simp add: as' map_update_where)
  from Cons.IH [OF this, of d'] run_rule_count [OF Cons.prems, of now rl d reason]
  show ?case
    by (simp add: r closed_by_Cons [of rl rules reason as now] as')
qed

lemma dict_total_set: "dict_total (dict_set d k (dict_count d k + n)) = dict_total d + n"
  by (induction d) (auto simp: dict_total_def dict_set_def dict_count_def dict_get_def split: if_splits)

lemma run_rule_total:
  assumes "distinct (map al_id as)"
  shows "dict_total (snd (run_rule now rl (as, d))) =
     dict_total d + length (filter (\<lambda>a. is_open a \<and> snd rl a) as)"
proof -
  let ?n = "length (filter (\<lambda>a. is_open a \<and> snd rl a) as)"
  have "dict_count (snd (run_rule now rl (as, d))) (fst rl) = dict_count d (fst rl) + ?n"
    using run_rule_count [OF assms, of now rl d "fst rl"] by simp
  moreover have "snd (run_rule now rl (as, d)) = d \<or>
      (\<exists>m. snd (run_rule now rl (as, d)) = dict_set d (fst rl) (dict_count d (fst rl) + m))"
    by (auto simp: run_rule_def Let_def dict_count_def)
  ultimately show ?thesis
    by (auto simp: dict_total_set) (simp add: dict_count_def)
qed

lemma closed_length_Cons:
  "length (filter (\<lambda>a. is_open a \<and> first_rule (rl # rules) a \<noteq> None) as) =
     length (filter (\<lambda>a. is_open a \<and> snd rl a) as) +
     length (filter (\<lambda>a. is_open a \<and> first_rule rules a \<noteq> None)
       (update_where (\<lambda>a. is_open a \<and> snd rl a) (sweep_resolve (fst rl) now) as))"
  by (induction as)
     (auto simp: first_rule_hit first_rule_miss update_where_Cons simp del: not_None_eq)

lemma run_rules_total:
  "distinct (map al_id as) \<Longrightarrow>
     dict_total (snd (fold (run_rule now) rules (as, d))) =
     dict_total d + length (filter (\<lambda>a. is_open a \<and> first_rule rules a \<noteq> None) as)"
proof (induction rules arbitrary: as d)
  case Nil
  then show ?case by (simp add: first_rule_def)
next
  case (Cons rl rules)
  obtain as' d' where r: "run_rule now rl (as, d) = (as', d')" by (cases "run_rule now rl (as, d)")
  then have as': "as' = update_where (\<lambda>a. is_open a \<and> snd rl a) (sweep_resolve (fst rl) now) as"
    using run_rule_alerts [OF Cons.prems, of now rl d] by simp
  have "distinct (map al_id as')" using Cons.prems by (simp add: as' map_update_where)
  from Cons.IH [OF this, of d'] run_rule_total [OF Cons.prems, of now rl d]
  show ?case
    by (simp add: r closed_length_Cons [of rl rules as now] as' del: not_None_eq)
qed

subsection \<open>The whole sweep\<close>

lemmas sweep_defs = auto_resolve_stale_alerts_def Let_def

lemma sweep_alerts:
  "ids_ok db \<Longrightarrow> st_alerts (fst (auto_resolve_stale_alerts w db)) =
     map (swept (sweep_rules w) (sw_now w)) (st_alerts db)"
  by (simp add: sweep_defs ids_ok_def run_rules_alerts)

lemma sweep_pending:
  "st_pending (fst (auto_resolve_stale_alerts w db)) = expire_pending (sw_now w) (st_pending db)"
  "st_next_id (fst (auto_resolve_stale_alerts w db)) = st_next_id db"
  by (simp_all add: sweep_defs)

lemma sweep_store_ok:
  assumes "store_ok now db"
  shows "store_ok now (fst (auto_resolve_stale_alerts w db))"
proof -
  note ok = store_okD [OF assms]
  let ?f = "swept (sweep_rules w) (sw_now w)"
  have "map ?f (st_alerts db) = update_where (\<lambda>_. True) ?f (st_alerts db)"
    by (simp add: update_where_def)
  moreover have "one_open_per_key (update_where (\<lambda>_. True) ?f (st_alerts db))"
    using ok(2) by (rule one_open_update_where [rotated 2]) (auto dest: swept_open)
  ultimately have "one_open_per_key (st_alerts (fst (auto_resolve_stale_alerts w db)))"
    using ok(1) by (simp add: sweep_alerts)
  moreover have "ids_ok (fst (auto_resolve_stale_alerts w db))"
    using ok(1) by (auto simp: ids_ok_def sweep_alerts [OF ok(1)] sweep_pending o_def)
  ultimately show ?thesis
    using ok(3) by (auto simp: store_ok_def sweep_pending expire_pending_def)
qed

text \<open>No rule applies to a fresh alert of a running resource of an active account.\<close>

lemma hard_expiry_ge: "72 \<le> hard_expiry_hours p t"
  by (cases "cadence_class p t") (simp_all add: hard_expiry_hours_def by_class_def HARD_EXPIRY_HOURS_def)

lemma live_alert_no_rule:
  assumes fresh: "sw_now w - ORPHAN_GRACE_MINUTES * 60 \<le> seen_at a"
    and res: "joined w a = [r]" and act: "active_accounts (sw_accounts w) (rs_account r) \<noteq> []"
    and run: "rs_instance_state r = Some ''running''"
    and seen: "rs_last_seen_at r = Some s" "sw_session_now w - RESOURCE_GONE_HOURS * 3600 \<le> s"
  shows "first_rule (sweep_rules w) a = None"
proof -
  have acct: "al_account a \<noteq> None" using res by (auto simp: joined_def split: option.splits)
  have "\<not> account_inactive w a" using res act by (simp add: account_inactive_def)
  moreover have "\<not> resource_missing w a" using res by (simp add: resource_missing_def)
  moreover have "\<not> resource_unseen w a" using res seen by (simp add: resource_unseen_def)
  moreover have "\<not> instance_stopped w a" using res run by (simp add: instance_stopped_def)
  moreover have "\<not> threshold_disabled w a" using fresh by (simp add: threshold_disabled_def)
  moreover have "\<not> no_data_expired w a"
  proof -
    have "sw_now w - int (hard_expiry_hours p t) * 3600 \<le> seen_at a" for p t
      using fresh hard_expiry_ge [of p t] by (simp add: ORPHAN_GRACE_MINUTES_def)
    then show ?thesis by (auto simp: no_data_expired_def not_less)
  qed
  moreover have "\<not> no_traffic w i a" for i
    using fresh by (auto simp: no_traffic_def IDLE_RESOLVE_MINUTES_def ORPHAN_GRACE_MINUTES_def split: prod.splits)
  moreover have "\<not> unattributable w a" using acct by (simp add: unattributable_def)
  ultimately show ?thesis
    by (auto simp: first_rule_def sweep_rules_def idle_rules_def find_None_iff)
qed

end
