(* ===== verification/Maintenance.thy ===== *)
theory Maintenance
  imports Alert_Sweep
begin

text \<open>
  \<open>app/collector/maintenance.py\<close>: which resources an active maintenance window covers (the root
  and, when asked for, everything that depends on it along at most ten edges of the window's own
  account), and the reconciliation of \<open>alerts.silenced\<close> with it.
\<close>

subsection \<open>Downstream resources\<close>

record relationship =
  rl_account :: nat
  rl_source :: string
  rl_target :: string

record window =
  mw_id :: nat
  mw_account :: nat
  mw_resource :: string
  mw_reason :: string
  mw_downstream :: bool
  mw_starts_at :: secs
  mw_ends_at :: secs

definition MAX_CASCADE_DEPTH :: nat where
  "MAX_CASCADE_DEPTH = 10"

definition in_scope :: "nat option \<Rightarrow> relationship \<Rightarrow> bool" where
  "in_scope acct e \<longleftrightarrow> (case acct of None \<Rightarrow> True | Some a \<Rightarrow> rl_account e = a)"

text \<open>The recursive member of the CTE: the rows of one depth give those of the next.\<close>

definition dependents :: "relationship list \<Rightarrow> nat option \<Rightarrow> string list \<Rightarrow> string list" where
  "dependents es acct level =
     concat (map (\<lambda>rid. map rl_source (filter (\<lambda>e. rl_target e = rid \<and> in_scope acct e) es)) level)"

fun downstream :: "relationship list \<Rightarrow> nat option \<Rightarrow> nat \<Rightarrow> string list \<Rightarrow> string list" where
  "downstream es acct 0 level = level"
| "downstream es acct (Suc n) level = level @ downstream es acct n (dependents es acct level)"

definition anchor :: "relationship list \<Rightarrow> nat option \<Rightarrow> string \<Rightarrow> string list" where
  "anchor es acct start =
     remdups (map rl_target (filter (\<lambda>e. rl_target e = start \<and> in_scope acct e) es))"

definition affected_resource_ids ::
  "relationship list \<Rightarrow> string \<Rightarrow> bool \<Rightarrow> nat option \<Rightarrow> string list" where
  "affected_resource_ids es start silence_downstream acct =
     (if \<not> silence_downstream then [start]
      else remdups (start # downstream es acct MAX_CASCADE_DEPTH (anchor es acct start)))"

subsection \<open>What is silenced now\<close>

definition is_active_window :: "secs \<Rightarrow> window \<Rightarrow> bool" where
  "is_active_window now w \<longleftrightarrow> mw_starts_at w \<le> now \<and> mw_ends_at w \<ge> now"

definition window_text :: "window \<Rightarrow> string" where
  "window_text w = take 500 (''Maintenance window: '' @ mw_reason w)"

definition window_ids :: "relationship list \<Rightarrow> window \<Rightarrow> string list" where
  "window_ids es w = affected_resource_ids es (mw_resource w) (mw_downstream w) (Some (mw_account w))"

definition cover_window ::
  "relationship list \<Rightarrow> window \<Rightarrow> (nat \<times> string, string) dict \<Rightarrow> (nat \<times> string, string) dict" where
  "cover_window es w out =
     fold (\<lambda>rid out. dict_setdefault out (mw_account w, rid) (window_text w)) (window_ids es w) out"

definition active_silenced_map ::
  "relationship list \<Rightarrow> window list \<Rightarrow> secs \<Rightarrow> (nat \<times> string, string) dict" where
  "active_silenced_map es ws now = fold (cover_window es) (filter (is_active_window now) ws) []"

subsection \<open>Reconciliation\<close>

definition silence :: "string \<Rightarrow> alert \<Rightarrow> alert" where
  "silence reason a = a\<lparr>al_silenced := True, al_silenced_reason := Some reason\<rparr>"

definition unsilence :: "alert \<Rightarrow> alert" where
  "unsilence a = a\<lparr>al_silenced := False, al_silenced_reason := None\<rparr>"

definition by_reason_groups ::
  "(nat \<times> string, string) dict \<Rightarrow> (nat \<times> string, string list) dict" where
  "by_reason_groups covered =
     group_rows (\<lambda>((acct, rid), reason). (acct, reason)) (\<lambda>rids ((acct, rid), reason). rids @ [rid]) []
       covered []"

definition silence_target :: "(nat \<times> string) \<times> string list \<Rightarrow> alert \<Rightarrow> bool" where
  "silence_target g a \<longleftrightarrow>
     al_account a = Some (fst (fst g)) \<and> al_resource a \<in> set (snd g) \<and> is_open a \<and> \<not> al_silenced a"

definition silence_group ::
  "(nat \<times> string) \<times> string list \<Rightarrow> alert list \<times> nat \<Rightarrow> alert list \<times> nat" where
  "silence_group g s =
     (update_where (silence_target g) (silence (snd (fst g))) (fst s),
      snd s + rowcount (silence_target g) (fst s))"

definition is_covered :: "(nat \<times> string, string) dict \<Rightarrow> alert \<Rightarrow> bool" where
  "is_covered covered a \<longleftrightarrow>
     (case al_account a of None \<Rightarrow> False | Some acct \<Rightarrow> dict_get covered (acct, al_resource a) \<noteq> None)"

definition unsilence_chunk :: "nat list \<Rightarrow> alert list \<times> nat \<Rightarrow> alert list \<times> nat" where
  "unsilence_chunk c s =
     (update_where (\<lambda>a. al_id a \<in> set c) unsilence (fst s), snd s + rowcount (\<lambda>a. al_id a \<in> set c) (fst s))"

definition sync_maintenance_silencing ::
  "relationship list \<Rightarrow> window list \<Rightarrow> secs \<Rightarrow> alert list \<Rightarrow> alert list \<times> nat \<times> nat" where
  "sync_maintenance_silencing es ws now as =
     (let covered = active_silenced_map es ws now;
          s1 = fold silence_group (by_reason_groups covered) (as, 0);
          stale = map al_id (filter (\<lambda>a. al_silenced a \<and> is_open a \<and> \<not> is_covered covered a) (fst s1));
          s2 = fold unsilence_chunk (chunks 500 stale) (fst s1, 0)
      in (fst s2, snd s1, snd s2))"

subsection \<open>The closure\<close>

text \<open>\<open>depends es acct n x y\<close>: \<open>y\<close> reaches \<open>x\<close> along \<open>n\<close> dependency edges of the account.\<close>

inductive depends :: "relationship list \<Rightarrow> nat option \<Rightarrow> nat \<Rightarrow> string \<Rightarrow> string \<Rightarrow> bool"
  for es acct where
  here: "depends es acct 0 x x"
| edge: "depends es acct n x y \<Longrightarrow> e \<in> set es \<Longrightarrow> in_scope acct e \<Longrightarrow> rl_target e = y
         \<Longrightarrow> depends es acct (Suc n) x (rl_source e)"

inductive_cases depends_0E: "depends es acct 0 x y"
inductive_cases depends_SucE: "depends es acct (Suc n) x y"

lemma depends_0 [simp]: "depends es acct 0 x y \<longleftrightarrow> x = y"
  by (auto intro: here elim: depends_0E)

lemma set_dependents:
  "set (dependents es acct level) =
     {rl_source e | e. e \<in> set es \<and> in_scope acct e \<and> rl_target e \<in> set level}"
  by (auto simp: dependents_def)

lemma depends_front:
  "depends es acct (Suc n) x y \<longleftrightarrow>
     (\<exists>e\<in>set es. in_scope acct e \<and> rl_target e = x \<and> depends es acct n (rl_source e) y)"
proof (induction n arbitrary: y)
  case 0
  show ?case by (auto elim!: depends_SucE intro: edge [OF here])
next
  case (Suc n)
  show ?case
  proof
    assume "depends es acct (Suc (Suc n)) x y"
    then obtain e z where e: "depends es acct (Suc n) x z" "e \<in> set es" "in_scope acct e"
      "rl_target e = z" "y = rl_source e"
      by (rule depends_SucE) blast
    from e(1) Suc.IH obtain f where "f \<in> set es" "in_scope acct f" "rl_target f = x"
      "depends es acct n (rl_source f) z" by blast
    with e show "\<exists>e\<in>set es. in_scope acct e \<and> rl_target e = x \<and> depends es acct (Suc n) (rl_source e) y"
      by (auto intro: edge)
  next
    assume "\<exists>e\<in>set es. in_scope acct e \<and> rl_target e = x \<and> depends es acct (Suc n) (rl_source e) y"
    then obtain f where f: "f \<in> set es" "in_scope acct f" "rl_target f = x"
      "depends es acct (Suc n) (rl_source f) y" by blast
    from f(4) obtain e z where "depends es acct n (rl_source f) z" "e \<in> set es" "in_scope acct e"
      "rl_target e = z" "y = rl_source e"
      by (rule depends_SucE) blast
    moreover from this(1) f Suc.IH [of z] have "depends es acct (Suc n) x z" by blast
    ultimately show "depends es acct (Suc (Suc n)) x y" by (auto intro: edge)
  qed
qed

lemma set_downstream:
  "set (downstream es acct n level) = {y. \<exists>x\<in>set level. \<exists>k\<le>n. depends es acct k x y}"
proof (induction n arbitrary: level)
  case (Suc n)
  have "(\<exists>x\<in>set level. \<exists>k\<le>Suc n. depends es acct k x y) \<longleftrightarrow>
      y \<in> set level \<or> (\<exists>x\<in>set (dependents es acct level). \<exists>k\<le>n. depends es acct k x y)" for y
  proof
    assume "\<exists>x\<in>set level. \<exists>k\<le>Suc n. depends es acct k x y"
    then obtain x k where x: "x \<in> set level" "k \<le> Suc n" "depends es acct k x y" by blast
    show "y \<in> set level \<or> (\<exists>x\<in>set (dependents es acct level). \<exists>k\<le>n. depends es acct k x y)"
    proof (cases k)
      case 0
      then show ?thesis using x by simp
    next
      case (Suc j)
      then show ?thesis using x depends_front [of es acct j x y] by (auto simp: set_dependents)
    qed
  next
    assume "y \<in> set level \<or> (\<exists>x\<in>set (dependents es acct level). \<exists>k\<le>n. depends es acct k x y)"
    then show "\<exists>x\<in>set level. \<exists>k\<le>Suc n. depends es acct k x y"
    proof
      assume "y \<in> set level"
      then show ?thesis by (intro bexI [of _ y] exI [of _ 0]) simp_all
    next
      assume "\<exists>x\<in>set (dependents es acct level). \<exists>k\<le>n. depends es acct k x y"
      then obtain e k where e: "e \<in> set es" "in_scope acct e" "rl_target e \<in> set level" "k \<le> n"
        "depends es acct k (rl_source e) y"
        by (auto simp: set_dependents)
      then have "depends es acct (Suc k) (rl_target e) y" by (auto simp: depends_front)
      with e show ?thesis by (intro bexI [of _ "rl_target e"] exI [of _ "Suc k"]) simp_all
    qed
  qed
  then show ?case by (auto simp: Suc.IH)
qed auto

lemma set_affected:
  "set (affected_resource_ids es start down acct) =
     {y. y = start \<or> (down \<and> (\<exists>k\<le>MAX_CASCADE_DEPTH. depends es acct k start y))}"
proof -
  have nz: "k \<noteq> 0" if "depends es acct k start y" "y \<noteq> start" for k y
    using that by (cases k) auto
  have "(\<exists>x\<in>set (anchor es acct start). \<exists>k\<le>MAX_CASCADE_DEPTH. depends es acct k x y)
      \<longleftrightarrow> (\<exists>k\<le>MAX_CASCADE_DEPTH. depends es acct k start y)" if ny: "y \<noteq> start" for y
  proof
    assume "\<exists>x\<in>set (anchor es acct start). \<exists>k\<le>MAX_CASCADE_DEPTH. depends es acct k x y"
    then show "\<exists>k\<le>MAX_CASCADE_DEPTH. depends es acct k start y" by (auto simp: anchor_def)
  next
    assume "\<exists>k\<le>MAX_CASCADE_DEPTH. depends es acct k start y"
    then obtain k where k: "k \<le> MAX_CASCADE_DEPTH" "depends es acct k start y" by blast
    then obtain j where "k = Suc j" using nz [OF k(2) ny] by (cases k) auto
    then have "start \<in> set (anchor es acct start)"
      using k depends_front [of es acct j start y] by (force simp: anchor_def)
    with k show "\<exists>x\<in>set (anchor es acct start). \<exists>k\<le>MAX_CASCADE_DEPTH. depends es acct k x y" by blast
  qed
  then have "y \<in> set (affected_resource_ids es start down acct) \<longleftrightarrow>
      y = start \<or> (down \<and> (\<exists>k\<le>MAX_CASCADE_DEPTH. depends es acct k start y))" for y
    by (cases "y = start") (simp_all add: affected_resource_ids_def set_downstream)
  then show ?thesis by blast
qed

subsection \<open>The map of covered resources\<close>

lemma get_fold_setdefault:
  "dict_get (fold (\<lambda>rid out. dict_setdefault out (acct, rid) t) rids out) k =
     (case dict_get out k of Some x \<Rightarrow> Some x
      | None \<Rightarrow> if fst k = acct \<and> snd k \<in> set rids then Some t else None)"
  by (induction rids arbitrary: out) (auto split: option.splits)

lemma wf_fold_setdefault:
  "dict_wf out \<Longrightarrow> dict_wf (fold (\<lambda>rid out. dict_setdefault out (acct, rid) t) rids out)"
  by (induction rids arbitrary: out) auto

definition covers :: "relationship list \<Rightarrow> secs \<Rightarrow> nat \<times> string \<Rightarrow> window \<Rightarrow> bool" where
  "covers es now k w \<longleftrightarrow> is_active_window now w \<and> fst k = mw_account w \<and> snd k \<in> set (window_ids es w)"

lemma get_cover_window:
  "dict_get (cover_window es w out) k =
     (case dict_get out k of Some x \<Rightarrow> Some x
      | None \<Rightarrow> if fst k = mw_account w \<and> snd k \<in> set (window_ids es w) then Some (window_text w) else None)"
  unfolding cover_window_def by (rule get_fold_setdefault)

lemma get_fold_cover:
  "dict_get (fold (cover_window es) (filter (is_active_window now) ws) out) k =
     (case dict_get out k of Some x \<Rightarrow> Some x | None \<Rightarrow> map_option window_text (find (covers es now k) ws))"
proof (induction ws arbitrary: out)
  case Nil
  then show ?case by (simp split: option.split)
next
  case (Cons w ws)
  have covers: "covers es now k w \<longleftrightarrow> is_active_window now w \<and> fst k = mw_account w \<and>
      snd k \<in> set (window_ids es w)"
    by (rule covers_def)
  show ?case
    by (cases "is_active_window now w")
       (auto simp: Cons.IH get_cover_window covers split: option.split)
qed

lemma get_silenced_map:
  "dict_get (active_silenced_map es ws now) k = map_option window_text (find (covers es now k) ws)"
  by (simp add: active_silenced_map_def get_fold_cover)

lemma wf_silenced_map: "dict_wf (active_silenced_map es ws now)"
proof -
  have "dict_wf out \<Longrightarrow> dict_wf (fold (cover_window es) vs out)" for out vs
    by (induction vs arbitrary: out) (auto simp: cover_window_def wf_fold_setdefault)
  then show ?thesis by (simp add: active_silenced_map_def)
qed

subsection \<open>The reconciliation\<close>

definition silenced_by :: "((nat \<times> string) \<times> string list) list \<Rightarrow> alert \<Rightarrow> alert" where
  "silenced_by gs a = (case find (\<lambda>g. silence_target g a) gs of Some g \<Rightarrow> silence (snd (fst g)) a | None \<Rightarrow> a)"

lemma not_silence_target [simp]: "\<not> silence_target g (silence t a)"
  by (simp add: silence_target_def silence_def)

lemma find_never [simp]: "find (\<lambda>_. False) xs = None"
  by (simp add: find_None_iff)

lemma silence_group_pair:
  "silence_group g (as, n) =
     (update_where (silence_target g) (silence (snd (fst g))) as, n + rowcount (silence_target g) as)"
  by (simp add: silence_group_def)

lemma silenced_by_Cons:
  "silenced_by (g # gs) a = (if silence_target g a then silence (snd (fst g)) a else silenced_by gs a)"
  by (simp add: silenced_by_def)

lemma silenced_by_silence [simp]: "silenced_by gs (silence t a) = silence t a"
  by (simp add: silenced_by_def)

lemma fold_silence_group:
  "fst (fold silence_group gs (as, n)) = map (silenced_by gs) as"
proof (induction gs arbitrary: as n)
  case Nil
  then show ?case by (simp add: silenced_by_def map_idI)
next
  case (Cons g gs)
  show ?case
    by (simp add: silence_group_pair Cons.IH) (simp add: update_where_def silenced_by_Cons)
qed

lemma fold_silence_count:
  "snd (fold silence_group gs (as, n)) = n + length (filter (\<lambda>a. \<exists>g\<in>set gs. silence_target g a) as)"
proof (induction gs arbitrary: as n)
  case (Cons g gs)
  have "rowcount (silence_target g) as
      + length (filter (\<lambda>a. \<exists>g\<in>set gs. silence_target g a)
          (update_where (silence_target g) (silence (snd (fst g))) as))
      = length (filter (\<lambda>a. \<exists>h\<in>set (g # gs). silence_target h a) as)"
    by (induction as) (auto simp: rowcount_def update_where_Cons)
  then show ?case by (simp add: silence_group_pair Cons.IH)
qed simp

lemma foldl_collect:
  "foldl (\<lambda>rids r. rids @ [f r]) xs rows = xs @ map f rows"
  by (induction rows arbitrary: xs) simp_all

lemma group_in:
  assumes "dict_wf covered"
  shows "((acct, reason), rids) \<in> set (by_reason_groups covered) \<Longrightarrow>
      rid \<in> set rids \<longleftrightarrow> dict_get covered (acct, rid) = Some reason"
proof -
  assume "((acct, reason), rids) \<in> set (by_reason_groups covered)"
  then have "dict_get (by_reason_groups covered) (acct, reason) = Some rids"
    by (simp add: by_reason_groups_def dict_get_in dict_wf_group_rows)
  then have "rids = map (\<lambda>((acct, rid), reason). rid)
      (filter (\<lambda>r. (case r of ((acct, rid), reason) \<Rightarrow> (acct, reason)) = (acct, reason)) covered)"
    by (simp add: by_reason_groups_def group_rows_get case_prod_beta' foldl_collect split: if_splits)
  then show ?thesis using assms by (force simp: dict_get_in)
qed

lemma group_exists:
  assumes "dict_wf covered" and "dict_get covered (acct, rid) = Some reason"
  shows "\<exists>rids. ((acct, reason), rids) \<in> set (by_reason_groups covered) \<and> rid \<in> set rids"
proof -
  have "((acct, rid), reason) \<in> set covered" using assms by (simp add: dict_get_in)
  then have "(acct, reason) \<in> (\<lambda>((acct, rid), reason). (acct, reason)) ` set covered" by force
  then obtain rids where "dict_get (by_reason_groups covered) (acct, reason) = Some rids"
    by (auto simp: by_reason_groups_def group_rows_get)
  then have "((acct, reason), rids) \<in> set (by_reason_groups covered)"
    by (simp add: by_reason_groups_def dict_get_in dict_wf_group_rows)
  with group_in [OF assms(1) this, of rid] assms(2) show ?thesis by blast
qed

definition cover_reason :: "(nat \<times> string, string) dict \<Rightarrow> alert \<Rightarrow> string option" where
  "cover_reason covered a =
     (case al_account a of None \<Rightarrow> None | Some acct \<Rightarrow> dict_get covered (acct, al_resource a))"

lemma is_covered_reason: "is_covered covered a \<longleftrightarrow> cover_reason covered a \<noteq> None"
  by (simp add: is_covered_def cover_reason_def split: option.split)

lemma target_reason:
  assumes "dict_wf covered" and "g \<in> set (by_reason_groups covered)"
  shows "silence_target g a \<longleftrightarrow>
     is_open a \<and> \<not> al_silenced a \<and> al_account a = Some (fst (fst g)) \<and>
     cover_reason covered a = Some (snd (fst g))"
proof -
  obtain acct reason rids where g: "g = ((acct, reason), rids)" by (metis surj_pair)
  show ?thesis
    using group_in [OF assms(1) assms(2) [unfolded g], of "al_resource a"]
    by (auto simp: silence_target_def g cover_reason_def)
qed

lemma silenced_by_groups:
  assumes "dict_wf covered"
  shows "silenced_by (by_reason_groups covered) a =
     (case cover_reason covered a of
        Some t \<Rightarrow> if is_open a \<and> \<not> al_silenced a then silence t a else a
      | None \<Rightarrow> a)"
proof (cases "find (\<lambda>g. silence_target g a) (by_reason_groups covered)")
  case None
  have "\<not> (is_open a \<and> \<not> al_silenced a)" if c: "cover_reason covered a = Some t" for t
  proof -
    from c obtain acct where acct: "al_account a = Some acct" "dict_get covered (acct, al_resource a) = Some t"
      by (auto simp: cover_reason_def split: option.splits)
    from group_exists [OF assms acct(2)] obtain rids
      where g: "((acct, t), rids) \<in> set (by_reason_groups covered)" by blast
    with None have "\<not> silence_target ((acct, t), rids) a" by (auto simp: find_None_iff)
    then show ?thesis using target_reason [OF assms g, of a] acct c by auto
  qed
  with None show ?thesis by (auto simp: silenced_by_def split: option.split)
next
  case (Some g)
  then have "g \<in> set (by_reason_groups covered)" "silence_target g a"
    by (auto simp: find_Some_iff)
  with target_reason [OF assms] Some show ?thesis by (auto simp: silenced_by_def)
qed

lemma some_target:
  assumes "dict_wf covered"
  shows "(\<exists>g\<in>set (by_reason_groups covered). silence_target g a) \<longleftrightarrow>
     is_open a \<and> \<not> al_silenced a \<and> is_covered covered a"
proof
  assume "\<exists>g\<in>set (by_reason_groups covered). silence_target g a"
  then show "is_open a \<and> \<not> al_silenced a \<and> is_covered covered a"
    using target_reason [OF assms] by (auto simp: is_covered_reason)
next
  assume a: "is_open a \<and> \<not> al_silenced a \<and> is_covered covered a"
  then obtain t acct where c: "al_account a = Some acct" "dict_get covered (acct, al_resource a) = Some t"
    by (auto simp: is_covered_def split: option.splits)
  from group_exists [OF assms c(2)] obtain rids
    where g: "((acct, t), rids) \<in> set (by_reason_groups covered)" by blast
  then have "silence_target ((acct, t), rids) a"
    using target_reason [OF assms g, of a] a c by (simp add: cover_reason_def)
  with g show "\<exists>g\<in>set (by_reason_groups covered). silence_target g a" by blast
qed

lemma unsilence_chunk_pair:
  "unsilence_chunk c (as, n) =
     (update_where (\<lambda>a. al_id a \<in> set c) unsilence as, n + rowcount (\<lambda>a. al_id a \<in> set c) as)"
  by (simp add: unsilence_chunk_def)

lemma fold_unsilence_chunks:
  "fst (fold unsilence_chunk cs (as, n)) = update_where (\<lambda>a. al_id a \<in> set (concat cs)) unsilence as"
proof (induction cs arbitrary: as n)
  case Nil
  then show ?case by (simp add: update_where_none)
next
  case (Cons c cs)
  show ?case
    by (simp add: unsilence_chunk_pair Cons.IH) (auto simp: update_where_def unsilence_def)
qed

text \<open>What one reconciliation does to one alert.\<close>

definition reconciled :: "(nat \<times> string, string) dict \<Rightarrow> alert \<Rightarrow> alert" where
  "reconciled covered a =
     (if \<not> is_open a then a
      else (case cover_reason covered a of
              Some t \<Rightarrow> if al_silenced a then a else silence t a
            | None \<Rightarrow> if al_silenced a then unsilence a else a))"

lemma silence_simps [simp]:
  "al_id (silence t a) = al_id a" "is_open (silence t a) = is_open a"
  "cover_reason c (silence t a) = cover_reason c a" "al_silenced (silence t a)"
  "alert_ident (silence t a) = alert_ident a"
  "al_id (unsilence a) = al_id a" "is_open (unsilence a) = is_open a"
  "cover_reason c (unsilence a) = cover_reason c a" "\<not> al_silenced (unsilence a)"
  "alert_ident (unsilence a) = alert_ident a"
  by (simp_all add: silence_def unsilence_def is_open_def cover_reason_def alert_ident_def split: option.split)

lemma sync_alerts:
  assumes "distinct (map al_id as)"
  shows "fst (sync_maintenance_silencing es ws now as) = map (reconciled (active_silenced_map es ws now)) as"
proof -
  let ?c = "active_silenced_map es ws now"
  let ?g = "silenced_by (by_reason_groups ?c)"
  let ?stale = "\<lambda>a. al_silenced a \<and> is_open a \<and> \<not> is_covered ?c a"
  let ?as1 = "map ?g as"
  note g = silenced_by_groups [OF wf_silenced_map]
  have idg: "al_id (?g a) = al_id a" for a by (auto simp: g split: option.split)
  have "al_id a \<in> set (map al_id (filter ?stale ?as1)) \<longleftrightarrow> ?stale a" if "a \<in> set ?as1" for a
    using that assms by (auto simp: distinct_map inj_on_def idg image_iff)
  then have "update_where (\<lambda>a. al_id a \<in> set (map al_id (filter ?stale ?as1))) unsilence ?as1
      = update_where ?stale unsilence ?as1"
    by (rule update_where_cong)
  also have "\<dots> = map (reconciled ?c) as"
    by (simp add: update_where_def reconciled_def g is_covered_reason split: option.split)
  finally show ?thesis
    by (simp add: sync_maintenance_silencing_def Let_def fold_silence_group fold_unsilence_chunks
        concat_chunks del: set_concat)
qed

lemma sync_silenced_count:
  "fst (snd (sync_maintenance_silencing es ws now as)) =
     length (filter (\<lambda>a. is_open a \<and> \<not> al_silenced a \<and> is_covered (active_silenced_map es ws now) a) as)"
  by (simp add: sync_maintenance_silencing_def Let_def fold_silence_count some_target [OF wf_silenced_map])

lemma reconciled_simps [simp]:
  "al_id (reconciled c a) = al_id a" "is_open (reconciled c a) = is_open a"
  "alert_ident (reconciled c a) = alert_ident a"
  by (simp_all add: reconciled_def split: option.split)

lemma reconciled_silenced:
  "is_open a \<Longrightarrow> al_silenced (reconciled c a) \<longleftrightarrow> is_covered c a"
  by (simp add: reconciled_def is_covered_reason split: option.split)

lemma reconciled_idem [simp]: "reconciled c (reconciled c a) = reconciled c a"
  by (simp add: reconciled_def split: option.split)

lemma reconciled_only:
  "(reconciled c a)\<lparr>al_silenced := False, al_silenced_reason := None\<rparr> =
     a\<lparr>al_silenced := False, al_silenced_reason := None\<rparr>"
  by (simp add: reconciled_def silence_def unsilence_def split: option.split)

lemma reconciled_covered:
  "is_open a \<Longrightarrow> al_silenced (reconciled c a) = is_covered c (reconciled c a)"
  by (simp add: reconciled_def is_covered_reason split: option.split)

text \<open>Following only the edges of one account is following the account's own graph.\<close>

lemma depends_scoped:
  "depends es (Some acct) k x y = depends (filter (\<lambda>e. rl_account e = acct) es) None k x y"
proof (induction k arbitrary: x)
  case (Suc k)
  then show ?case by (simp add: depends_front in_scope_def) blast
qed simp

end
