(* ===== verification/Authorization.thy ===== *)
theory Authorization
  imports Prelude
begin

text \<open>
  \<open>app/auth/authorization.py\<close>: what accounts and regions a user may see, from the user's own
  grants, the policies of the groups above the user and the unexpired role bindings, and the
  gate that keeps an editor from granting more than the editor has. Sets are lists here; only
  their elements matter. The tables are arguments, one record per row type.
\<close>

subsection \<open>Rows\<close>

text \<open>
  A JSON list column: \<open>ColText\<close> holds what \<open>json.loads\<close> makes of the text, \<open>None\<close> when it
  raises.
\<close>

datatype json_col = ColNull | ColList "string list" | ColText "string list option"

definition parse_json_list :: "json_col \<Rightarrow> string list option" where
  "parse_json_list value =
     (case value of
        ColNull \<Rightarrow> None
      | ColList xs \<Rightarrow> Some xs
      | ColText None \<Rightarrow> None
      | ColText (Some parsed) \<Rightarrow> if parsed \<noteq> [] then Some parsed else None)"

text \<open>
  \<open>tag_selector\<close>: an object whose values are one allowed value or a list of them, \<open>None\<close> for a
  text that is not JSON.
\<close>

datatype tag_allowed = OneValue string | Values "string list"

datatype tag_col = TagColNull | TagColText "(string \<times> tag_allowed) list option"

datatype grant_source = FromUser | FromGroup | FromBinding

record scope_grant =
  sg_id :: nat
  sg_user :: "nat option"
  sg_cloud :: string
  sg_account :: "nat option"
  sg_regions :: "string list option"
  sg_resource_groups :: "string list option"
  sg_resource_types :: "string list option"
  sg_resource_ids :: "string list option"
  sg_granted_by :: nat
  sg_source :: grant_source
  sg_group_id :: "nat option"
  sg_group_name :: "string option"
  sg_group_level :: "string option"
  sg_binding_role :: "string option"
  sg_binding_label :: "string option"

record user =
  us_id :: nat
  us_role :: string

record org_group =
  og_id :: nat
  og_name :: string
  og_level :: string
  og_parent :: "nat option"

record scope_row =
  sr_id :: nat
  sr_owner :: nat
  sr_cloud :: string
  sr_account :: "nat option"
  sr_regions :: json_col
  sr_resource_groups :: json_col
  sr_resource_types :: json_col
  sr_resource_ids :: json_col
  sr_granted_by :: nat

record cloud_account =
  ca_id :: nat
  ca_provider :: "string option"

datatype principal = PUser nat | PGroup nat

record role_binding =
  rb_id :: nat
  rb_principal :: principal
  rb_role :: nat
  rb_scope :: nat
  rb_granted_by :: nat
  rb_expires_at :: "secs option"

record rbac_scope =
  sc_id :: nat
  sc_label :: string
  sc_cloud :: "string option"
  sc_account :: "nat option"
  sc_regions :: json_col
  sc_services :: json_col
  sc_resource_groups :: json_col
  sc_resource_ids :: json_col
  sc_tag_selector :: tag_col

text \<open>
  The database as these functions read it. \<open>db_bindings\<close> is \<open>None\<close> when the binding query
  raises; \<open>db_roles\<close> maps the ids of \<open>roles\<close> to their keys.
\<close>

record auth_db =
  db_groups :: "org_group list"
  db_memberships :: "(nat \<times> nat) list"
  db_access_scopes :: "scope_row list"
  db_group_policies :: "scope_row list"
  db_bindings :: "role_binding list option"
  db_roles :: "(nat, string) dict"
  db_scopes :: "rbac_scope list"
  db_accounts :: "cloud_account list"
  db_now :: secs

datatype access = FullAccess | Grants "scope_grant list"

definition ROLE_RANK :: "(string, nat) dict" where
  "ROLE_RANK = [(''viewer'', 0), (''editor'', 1), (''admin'', 2)]"

definition GROUP_LEVELS :: "string list" where
  "GROUP_LEVELS = [''L1'', ''L2'', ''L3'']"

definition GROUP_PARENT_LEVEL :: "(string, string option) dict" where
  "GROUP_PARENT_LEVEL = [(''L1'', None), (''L2'', Some ''L1''), (''L3'', Some ''L2'')]"

subsection \<open>Groups\<close>

definition get_group :: "org_group list \<Rightarrow> nat \<Rightarrow> org_group option" where
  "get_group gs i = find (\<lambda>g. og_id g = i) gs"

text \<open>The walks over parents end: every step marks one more group as seen.\<close>

lemma unseen_decreases:
  assumes "g \<in> set gs" "og_id g = i" "i \<notin> set seen"
  shows "length (filter (\<lambda>g. og_id g \<notin> set (i # seen)) gs) < length (filter (\<lambda>g. og_id g \<notin> set seen) gs)"
  using assms
proof (induction gs)
  case (Cons x xs)
  have le: "length (filter (\<lambda>g. og_id g \<notin> set (i # seen)) xs) \<le> length (filter (\<lambda>g. og_id g \<notin> set seen) xs)"
    by (induction xs) auto
  show ?case using Cons le by (cases "x = g") (auto simp: less_Suc_eq_le)
qed simp

function group_chain :: "org_group list \<Rightarrow> nat list \<Rightarrow> nat option \<Rightarrow> org_group list" where
  "group_chain gs seen current =
     (case current of
        None \<Rightarrow> []
      | Some i \<Rightarrow>
          if i \<in> set seen then []
          else (case get_group gs i of
                  None \<Rightarrow> []
                | Some g \<Rightarrow> g # group_chain gs (i # seen) (og_parent g)))"
  by pat_completeness auto
termination
proof (relation "measure (\<lambda>(gs, seen, current). length (filter (\<lambda>g. og_id g \<notin> set seen) gs))", goal_cases)
  case (2 gs seen current i g)
  then have g: "g \<in> set gs" "og_id g = i" by (auto simp: get_group_def find_Some_iff)
  show ?case using unseen_decreases [OF g] 2(2) by simp
qed simp

declare group_chain.simps [simp del]

definition get_group_chain :: "org_group list \<Rightarrow> nat \<Rightarrow> org_group list" where
  "get_group_chain gs i = group_chain gs [] (Some i)"

definition get_user_group_memberships :: "auth_db \<Rightarrow> nat \<Rightarrow> nat list" where
  "get_user_group_memberships db uid = map snd (filter (\<lambda>m. fst m = uid) (db_memberships db))"

definition inherited_groups :: "auth_db \<Rightarrow> nat \<Rightarrow> org_group list" where
  "inherited_groups db uid =
     concat (map (get_group_chain (db_groups db)) (get_user_group_memberships db uid))"

definition get_user_effective_groups :: "auth_db \<Rightarrow> nat \<Rightarrow> org_group list" where
  "get_user_effective_groups db uid =
     map snd (foldl (\<lambda>by_id g. dict_set by_id (og_id g) g) [] (inherited_groups db uid))"

definition group_policy_rows :: "auth_db \<Rightarrow> nat list \<Rightarrow> (scope_row \<times> org_group) list" where
  "group_policy_rows db ids =
     (if ids = [] then []
      else concat (map (\<lambda>p. map (Pair p) (filter (\<lambda>g. og_id g = sr_owner p) (db_groups db)))
             (filter (\<lambda>p. sr_owner p \<in> set ids) (db_group_policies db))))"

datatype group_error =
  InvalidLevel | L1HasParent | ParentRequired | ParentMissing | WrongParentLevel

definition validate_group_level_and_parent ::
  "org_group list \<Rightarrow> string \<Rightarrow> nat option \<Rightarrow> group_error option" where
  "validate_group_level_and_parent gs level parent =
     (if level \<notin> set GROUP_LEVELS then Some InvalidLevel
      else (case dict_get GROUP_PARENT_LEVEL level of
              None \<Rightarrow> Some InvalidLevel
            | Some None \<Rightarrow> if parent \<noteq> None then Some L1HasParent else None
            | Some (Some expected) \<Rightarrow>
                (case parent of
                   None \<Rightarrow> Some ParentRequired
                 | Some p \<Rightarrow>
                     (case get_group gs p of
                        None \<Rightarrow> Some ParentMissing
                      | Some g \<Rightarrow> if og_level g \<noteq> expected then Some WrongParentLevel else None))))"

subsection \<open>Effective scope\<close>

text \<open>
  \<open>_UNENFORCED_SCOPE_COLUMNS\<close>. Only whether a value is empty is read, so the keys of
  \<open>tag_selector\<close> stand for it.
\<close>

definition tag_keys :: "tag_col \<Rightarrow> json_col" where
  "tag_keys v = (case v of TagColNull \<Rightarrow> ColNull | TagColText p \<Rightarrow> ColText (map_option (map fst) p))"

definition unenforced_columns :: "rbac_scope \<Rightarrow> json_col list" where
  "unenforced_columns s = [sc_services s, sc_resource_groups s, sc_resource_ids s, tag_keys (sc_tag_selector s)]"

definition truthy_list :: "string list option \<Rightarrow> bool" where
  "truthy_list v = (case v of None \<Rightarrow> False | Some xs \<Rightarrow> xs \<noteq> [])"

definition binding_applies :: "auth_db \<Rightarrow> nat \<Rightarrow> nat list \<Rightarrow> role_binding \<Rightarrow> bool" where
  "binding_applies db uid gids b \<longleftrightarrow>
     (case rb_principal b of PUser u \<Rightarrow> u = uid | PGroup g \<Rightarrow> g \<in> set gids) \<and>
     (case rb_expires_at b of None \<Rightarrow> True | Some t \<Rightarrow> t > db_now db)"

definition coalesce_provider :: "string option \<Rightarrow> string" where
  "coalesce_provider p = (case p of Some c \<Rightarrow> c | None \<Rightarrow> ''aws'')"

definition account_cloud :: "auth_db \<Rightarrow> nat option \<Rightarrow> string" where
  "account_cloud db acct =
     (case acct of
        None \<Rightarrow> ''aws''
      | Some i \<Rightarrow> (case find (\<lambda>a. ca_id a = i) (db_accounts db) of
                    None \<Rightarrow> ''aws'' | Some a \<Rightarrow> coalesce_provider (ca_provider a)))"

definition all_clouds :: "auth_db \<Rightarrow> string list" where
  "all_clouds db =
     (let cs = remdups (map (\<lambda>a. coalesce_provider (ca_provider a)) (db_accounts db))
      in if cs = [] then [''aws''] else cs)"

definition binding_clouds :: "auth_db \<Rightarrow> rbac_scope \<Rightarrow> string list" where
  "binding_clouds db s =
     (let cloud = (case sc_cloud s of Some c \<Rightarrow> c | None \<Rightarrow> []) in
      if sc_account s \<noteq> None then [if cloud \<noteq> [] then cloud else account_cloud db (sc_account s)]
      else if cloud \<noteq> [] then [cloud]
      else all_clouds db)"

definition binding_grant :: "nat \<Rightarrow> role_binding \<Rightarrow> string \<Rightarrow> rbac_scope \<Rightarrow> string \<Rightarrow> scope_grant" where
  "binding_grant uid b key s cloud =
     \<lparr>sg_id = rb_id b, sg_user = Some uid, sg_cloud = cloud, sg_account = sc_account s,
      sg_regions = parse_json_list (sc_regions s), sg_resource_groups = None,
      sg_resource_types = None, sg_resource_ids = None, sg_granted_by = rb_granted_by b,
      sg_source = FromBinding, sg_group_id = None, sg_group_name = None, sg_group_level = None,
      sg_binding_role = Some key, sg_binding_label = Some (sc_label s)\<rparr>"

definition row_grants :: "auth_db \<Rightarrow> nat \<Rightarrow> role_binding \<Rightarrow> scope_grant list" where
  "row_grants db uid b =
     (case dict_get (db_roles db) (rb_role b) of
        None \<Rightarrow> []
      | Some key \<Rightarrow>
          (case find (\<lambda>s. sc_id s = rb_scope b) (db_scopes db) of
             None \<Rightarrow> []
           | Some s \<Rightarrow>
               if list_ex (\<lambda>c. truthy_list (parse_json_list c)) (unenforced_columns s) then []
               else map (binding_grant uid b key s) (binding_clouds db s)))"

definition binding_scope_grants :: "auth_db \<Rightarrow> nat \<Rightarrow> nat list \<Rightarrow> scope_grant list" where
  "binding_scope_grants db uid gids =
     (case db_bindings db of
        None \<Rightarrow> []
      | Some bs \<Rightarrow> concat (map (row_grants db uid) (filter (binding_applies db uid gids) bs)))"

definition own_grant :: "scope_row \<Rightarrow> scope_grant" where
  "own_grant r =
     \<lparr>sg_id = sr_id r, sg_user = Some (sr_owner r), sg_cloud = sr_cloud r, sg_account = sr_account r,
      sg_regions = parse_json_list (sr_regions r),
      sg_resource_groups = parse_json_list (sr_resource_groups r),
      sg_resource_types = parse_json_list (sr_resource_types r),
      sg_resource_ids = parse_json_list (sr_resource_ids r), sg_granted_by = sr_granted_by r,
      sg_source = FromUser, sg_group_id = None, sg_group_name = None, sg_group_level = None,
      sg_binding_role = None, sg_binding_label = None\<rparr>"

definition group_grant :: "nat \<Rightarrow> scope_row \<times> org_group \<Rightarrow> scope_grant" where
  "group_grant uid rg =
     (own_grant (fst rg))
       \<lparr>sg_user := Some uid, sg_source := FromGroup, sg_group_id := Some (sr_owner (fst rg)),
        sg_group_name := Some (og_name (snd rg)), sg_group_level := Some (og_level (snd rg))\<rparr>"

definition inherited_group_ids :: "auth_db \<Rightarrow> nat \<Rightarrow> nat list" where
  "inherited_group_ids db uid = remdups (map og_id (inherited_groups db uid))"

definition get_effective_scope :: "auth_db \<Rightarrow> user \<Rightarrow> access" where
  "get_effective_scope db u =
     (if us_role u = ''admin'' then FullAccess
      else (let gids = inherited_group_ids db (us_id u) in
            Grants (map own_grant (filter (\<lambda>r. sr_owner r = us_id u) (db_access_scopes db))
                    @ map (group_grant (us_id u)) (group_policy_rows db gids)
                    @ binding_scope_grants db (us_id u) gids)))"

subsection \<open>Accounts and regions\<close>

definition accounts_of :: "auth_db \<Rightarrow> scope_grant list \<Rightarrow> nat list" where
  "accounts_of db scope =
     (let explicit_ids = List.map_filter sg_account scope;
          wildcard_clouds = map sg_cloud (filter (\<lambda>g. sg_account g = None) scope)
      in map ca_id (filter (\<lambda>acc. ca_id acc \<in> set explicit_ids \<or>
             (case ca_provider acc of None \<Rightarrow> False | Some p \<Rightarrow> p \<in> set wildcard_clouds)) (db_accounts db)))"

definition get_accessible_account_ids :: "auth_db \<Rightarrow> user \<Rightarrow> nat list option" where
  "get_accessible_account_ids db u =
     (case get_effective_scope db u of
        FullAccess \<Rightarrow> None
      | Grants scope \<Rightarrow> if scope = [] then Some [] else Some (accounts_of db scope))"

fun regions_loop :: "nat \<Rightarrow> scope_grant list \<Rightarrow> string list \<Rightarrow> string list option" where
  "regions_loop acct [] regions = Some regions"
| "regions_loop acct (g # gs) regions =
     (if sg_account g \<noteq> None \<and> sg_account g \<noteq> Some acct then regions_loop acct gs regions
      else if \<not> truthy_list (sg_regions g) then None
      else regions_loop acct gs (regions @ (case sg_regions g of Some rs \<Rightarrow> rs | None \<Rightarrow> [])))"

definition get_accessible_regions_for_account :: "auth_db \<Rightarrow> user \<Rightarrow> nat \<Rightarrow> string list option" where
  "get_accessible_regions_for_account db u acct =
     (case get_effective_scope db u of FullAccess \<Rightarrow> None | Grants scope \<Rightarrow> regions_loop acct scope [])"

definition can_manage_role :: "user \<Rightarrow> string \<Rightarrow> bool" where
  "can_manage_role actor target_role =
     (if us_role actor = ''admin'' then True
      else if us_role actor = ''editor'' then target_role = ''viewer''
      else False)"

definition require_org_wide :: "auth_db \<Rightarrow> user \<Rightarrow> bool" where
  "require_org_wide db u = (get_accessible_account_ids db u = None)"

subsection \<open>Granting\<close>

text \<open>
  A field of a requested scope: a list, a text (whose \<open>set\<close> is its characters) or null.
\<close>

datatype field = FNull | FList "string list" | FText string

definition field_items :: "field \<Rightarrow> string list" where
  "field_items f = (case f of FNull \<Rightarrow> [] | FList xs \<Rightarrow> xs | FText s \<Rightarrow> map (\<lambda>c. [c]) s)"

record scope_req =
  rq_cloud :: "string option"
  rq_account :: "nat option"
  rq_regions :: field
  rq_resource_groups :: field
  rq_resource_types :: field
  rq_resource_ids :: field

definition covers_dim :: "string list option \<Rightarrow> field \<Rightarrow> bool" where
  "covers_dim actor_list requested =
     (if \<not> truthy_list actor_list then True
      else if field_items requested = [] then False
      else set (field_items requested) \<subseteq> set (case actor_list of Some xs \<Rightarrow> xs | None \<Rightarrow> []))"

definition grant_covers :: "scope_req \<Rightarrow> scope_grant \<Rightarrow> bool" where
  "grant_covers req g \<longleftrightarrow>
     rq_cloud req = Some (sg_cloud g) \<and>
     (sg_account g = None \<or> sg_account g = rq_account req) \<and>
     covers_dim (sg_regions g) (rq_regions req) \<and>
     covers_dim (sg_resource_groups g) (rq_resource_groups req) \<and>
     covers_dim (sg_resource_types g) (rq_resource_types req) \<and>
     covers_dim (sg_resource_ids g) (rq_resource_ids req)"

definition single_scope_within :: "scope_req \<Rightarrow> scope_grant list \<Rightarrow> bool" where
  "single_scope_within req actor_scope = list_ex (grant_covers req) actor_scope"

definition scope_within :: "scope_req list \<Rightarrow> access \<Rightarrow> bool" where
  "scope_within reqs actor =
     (case actor of
        FullAccess \<Rightarrow> True
      | Grants gs \<Rightarrow> if reqs = [] then False else list_all (\<lambda>r. single_scope_within r gs) reqs)"

datatype shape_error = InvalidCloud | UnknownAccount nat | NotAList

definition is_text_field :: "field \<Rightarrow> bool" where
  "is_text_field f = (case f of FText s \<Rightarrow> True | _ \<Rightarrow> False)"

definition validate_scope_shape :: "scope_req \<Rightarrow> (string, nat list) dict \<Rightarrow> shape_error option" where
  "validate_scope_shape req valid_ids =
     (case rq_cloud req of
        None \<Rightarrow> Some InvalidCloud
      | Some cloud \<Rightarrow>
          if cloud \<notin> {''aws'', ''azure'', ''gcp''} then Some InvalidCloud
          else (case rq_account req of
                  Some i \<Rightarrow>
                    if i \<notin> set (case dict_get valid_ids cloud of Some is \<Rightarrow> is | None \<Rightarrow> [])
                    then Some (UnknownAccount i)
                    else if list_ex is_text_field
                       [rq_regions req, rq_resource_groups req, rq_resource_types req, rq_resource_ids req]
                    then Some NotAList else None
                | None \<Rightarrow>
                    if list_ex is_text_field
                       [rq_regions req, rq_resource_groups req, rq_resource_types req, rq_resource_ids req]
                    then Some NotAList else None))"

subsection \<open>Editors granting access: \<open>app/api/admin/users.py\<close>\<close>

definition account_ids_by_cloud :: "cloud_account list \<Rightarrow> (string, nat list) dict" where
  "account_ids_by_cloud accs =
     foldl (\<lambda>d a. case ca_provider a of
              None \<Rightarrow> d
            | Some p \<Rightarrow> dict_set d p ((case dict_get d p of Some is \<Rightarrow> is | None \<Rightarrow> []) @ [ca_id a]))
       [(''aws'', []), (''azure'', []), (''gcp'', [])] accs"

definition list_field :: "string list option \<Rightarrow> field" where
  "list_field v = (case v of None \<Rightarrow> FNull | Some xs \<Rightarrow> FList xs)"

definition grant_request :: "scope_grant \<Rightarrow> scope_req" where
  "grant_request g =
     \<lparr>rq_cloud = Some (sg_cloud g), rq_account = sg_account g, rq_regions = list_field (sg_regions g),
      rq_resource_groups = list_field (sg_resource_groups g),
      rq_resource_types = list_field (sg_resource_types g),
      rq_resource_ids = list_field (sg_resource_ids g)\<rparr>"

definition user_manageable_by :: "auth_db \<Rightarrow> user \<Rightarrow> user \<Rightarrow> bool" where
  "user_manageable_by db actor target =
     (if us_role actor = ''admin'' then True
      else if us_role actor \<noteq> ''editor'' \<or> us_role target \<noteq> ''viewer'' then False
      else (case get_effective_scope db target of
              FullAccess \<Rightarrow> False
            | Grants gs \<Rightarrow>
                if gs = [] then True
                else scope_within (map grant_request gs) (get_effective_scope db actor)))"

datatype grant_error = BadScope shape_error | OutsideScope

text \<open>\<open>json.dumps(x) if x else None\<close>.\<close>

definition dump_field :: "field \<Rightarrow> json_col" where
  "dump_field f = (case f of FList xs \<Rightarrow> if xs = [] then ColNull else ColText (Some xs) | _ \<Rightarrow> ColNull)"

definition stored_scope :: "nat \<Rightarrow> nat \<Rightarrow> nat \<Rightarrow> scope_req \<Rightarrow> scope_row" where
  "stored_scope i uid actor_id req =
     \<lparr>sr_id = i, sr_owner = uid, sr_cloud = (case rq_cloud req of Some c \<Rightarrow> c | None \<Rightarrow> []),
      sr_account = rq_account req, sr_regions = dump_field (rq_regions req),
      sr_resource_groups = dump_field (rq_resource_groups req),
      sr_resource_types = dump_field (rq_resource_types req),
      sr_resource_ids = dump_field (rq_resource_ids req), sr_granted_by = actor_id\<rparr>"

fun first_shape_error :: "scope_req list \<Rightarrow> (string, nat list) dict \<Rightarrow> shape_error option" where
  "first_shape_error [] valid = None"
| "first_shape_error (r # rs) valid =
     (case validate_scope_shape r valid of Some e \<Rightarrow> Some e | None \<Rightarrow> first_shape_error rs valid)"

fun insert_scopes :: "nat \<Rightarrow> nat \<Rightarrow> nat \<Rightarrow> scope_req list \<Rightarrow> scope_row list \<Rightarrow> scope_row list" where
  "insert_scopes i uid actor_id [] rows = rows"
| "insert_scopes i uid actor_id (r # rs) rows =
     insert_scopes (i + 1) uid actor_id rs (rows @ [stored_scope i uid actor_id r])"

text \<open>\<open>_validate_and_insert_scopes\<close>; \<open>i\<close> is the next id of \<open>access_scopes\<close>.\<close>

definition validate_and_insert_scopes ::
  "auth_db \<Rightarrow> nat \<Rightarrow> nat \<Rightarrow> scope_req list \<Rightarrow> user \<Rightarrow> access \<Rightarrow> grant_error + auth_db" where
  "validate_and_insert_scopes db i uid reqs actor actor_scope =
     (if reqs = [] then Inr db
      else (case first_shape_error reqs (account_ids_by_cloud (db_accounts db)) of
              Some e \<Rightarrow> Inl (BadScope e)
            | None \<Rightarrow>
                if us_role actor \<noteq> ''admin'' \<and> \<not> scope_within reqs actor_scope then Inl OutsideScope
                else Inr (db\<lparr>db_access_scopes := insert_scopes i uid (us_id actor) reqs (db_access_scopes db)\<rparr>)))"

subsection \<open>What a list of grants shows\<close>

definition shows_account :: "auth_db \<Rightarrow> scope_grant list \<Rightarrow> nat \<Rightarrow> bool" where
  "shows_account db gs i \<longleftrightarrow> i \<in> set (accounts_of db gs)"

text \<open>The regions of an account shown by a list of grants: all of them, or those listed.\<close>

definition shows_region :: "scope_grant list \<Rightarrow> nat \<Rightarrow> string \<Rightarrow> bool" where
  "shows_region gs i region \<longleftrightarrow>
     (case regions_loop i gs [] of None \<Rightarrow> True | Some rs \<Rightarrow> region \<in> set rs)"

definition applies_to :: "nat \<Rightarrow> scope_grant \<Rightarrow> bool" where
  "applies_to i g \<longleftrightarrow> sg_account g = None \<or> sg_account g = Some i"

definition grant_account :: "cloud_account \<Rightarrow> scope_grant \<Rightarrow> bool" where
  "grant_account a g \<longleftrightarrow> sg_account g = Some (ca_id a) \<or> (sg_account g = None \<and> ca_provider a = Some (sg_cloud g))"

lemma set_explicit: "i \<in> set (List.map_filter sg_account gs) \<longleftrightarrow> (\<exists>g\<in>set gs. sg_account g = Some i)"
  by (simp add: set_map_filter_iff)

lemma shows_account_iff:
  "shows_account db gs i \<longleftrightarrow> (\<exists>a\<in>set (db_accounts db). ca_id a = i \<and> (\<exists>g\<in>set gs. grant_account a g))"
proof -
  have "ca_id a \<in> set (List.map_filter sg_account gs) \<or>
      (case ca_provider a of None \<Rightarrow> False | Some p \<Rightarrow> p \<in> set (map sg_cloud (filter (\<lambda>g. sg_account g = None) gs)))
    \<longleftrightarrow> (\<exists>g\<in>set gs. grant_account a g)" for a
    by (cases "ca_provider a") (auto simp: grant_account_def set_explicit)
  then show ?thesis
    unfolding shows_account_def accounts_of_def Let_def by (simp only: set_map set_filter) blast
qed

lemma regions_loop_eq:
  "regions_loop i gs regions =
     (if \<exists>g\<in>set gs. applies_to i g \<and> \<not> truthy_list (sg_regions g) then None
      else Some (regions @ concat (map (\<lambda>g. the (sg_regions g)) (filter (applies_to i) gs))))"
proof (induction gs arbitrary: regions)
  case (Cons g gs)
  have app: "(sg_account g \<noteq> None \<and> sg_account g \<noteq> Some i) = (\<not> applies_to i g)"
    by (auto simp: applies_to_def)
  show ?case
    by (cases "applies_to i g"; cases "sg_regions g")
       (simp_all only: regions_loop.simps app Cons.IH, auto simp: truthy_list_def)
qed simp

lemma shows_region_iff:
  "shows_region gs i region \<longleftrightarrow>
     (\<exists>g\<in>set gs. applies_to i g \<and> (\<not> truthy_list (sg_regions g) \<or> region \<in> set (the (sg_regions g))))"
  by (auto simp: shows_region_def regions_loop_eq)

lemma shows_mono:
  assumes "set gs \<subseteq> set hs"
  shows "shows_account db gs i \<Longrightarrow> shows_account db hs i"
    and "shows_region gs i region \<Longrightarrow> shows_region hs i region"
  using assms by (auto simp: shows_account_iff shows_region_iff)

subsection \<open>Containment is no escalation\<close>

text \<open>A stored request shows nothing that a covering grant does not show.\<close>

lemma set_account_ids:
  "i \<in> set (case dict_get (account_ids_by_cloud accs) c of Some is \<Rightarrow> is | None \<Rightarrow> []) \<longleftrightarrow>
     (\<exists>a\<in>set accs. ca_id a = i \<and> ca_provider a = Some c)"
proof -
  let ?f = "\<lambda>d a. case ca_provider a of
              None \<Rightarrow> d
            | Some p \<Rightarrow> dict_set d p ((case dict_get d p of Some is \<Rightarrow> is | None \<Rightarrow> []) @ [ca_id a])"
  let ?ids = "\<lambda>d. set (case dict_get d c of Some is \<Rightarrow> is | None \<Rightarrow> [])"
  have "?ids (foldl ?f d accs) = ?ids d \<union> {ca_id a | a. a \<in> set accs \<and> ca_provider a = Some c}" for d
  proof (induction accs arbitrary: d)
    case (Cons a accs)
    have "?ids (?f d a) = ?ids d \<union> (if ca_provider a = Some c then {ca_id a} else {})"
      by (auto split: option.split)
    then show ?case using Cons.IH [of "?f d a"] by auto
  qed simp
  from this [of "[(''aws'', []), (''azure'', []), (''gcp'', [])]"] show ?thesis
    by (auto simp: account_ids_by_cloud_def dict_get_def split: if_splits)
qed

lemma valid_scope:
  assumes "validate_scope_shape req (account_ids_by_cloud accs) = None"
  shows "\<exists>c. rq_cloud req = Some c \<and>
      (\<forall>i. rq_account req = Some i \<longrightarrow> (\<exists>a\<in>set accs. ca_id a = i \<and> ca_provider a = Some c))"
    "\<not> is_text_field (rq_regions req)"
proof -
  obtain c where c: "rq_cloud req = Some c"
    using assms by (cases "rq_cloud req") (simp_all add: validate_scope_shape_def)
  have "i \<in> set (case dict_get (account_ids_by_cloud accs) c of Some is \<Rightarrow> is | None \<Rightarrow> [])"
    if "rq_account req = Some i" for i
    using assms c that by (simp add: validate_scope_shape_def del: set_concat split: if_splits)
  then show "\<exists>c. rq_cloud req = Some c \<and>
      (\<forall>i. rq_account req = Some i \<longrightarrow> (\<exists>a\<in>set accs. ca_id a = i \<and> ca_provider a = Some c))"
    using c by (simp only: set_account_ids) blast
  show "\<not> is_text_field (rq_regions req)"
    using assms c by (cases "rq_account req") (auto simp: validate_scope_shape_def split: if_splits)
qed

lemma first_shape_error_None:
  "first_shape_error reqs valid = None \<longleftrightarrow> (\<forall>r\<in>set reqs. validate_scope_shape r valid = None)"
  by (induction reqs) (auto split: option.splits)

lemma dump_regions:
  "\<not> is_text_field f \<Longrightarrow> parse_json_list (dump_field f) = (if field_items f = [] then None else Some (field_items f))"
  by (cases f) (auto simp: parse_json_list_def dump_field_def field_items_def is_text_field_def)

definition stored_grant :: "nat \<Rightarrow> nat \<Rightarrow> nat \<Rightarrow> scope_req \<Rightarrow> scope_grant" where
  "stored_grant i uid actor_id req = own_grant (stored_scope i uid actor_id req)"

lemma covered_account:
  assumes ids: "distinct (map ca_id accs)"
    and valid: "validate_scope_shape req (account_ids_by_cloud accs) = None"
    and cov: "grant_covers req g" and a: "a \<in> set accs"
    and "grant_account a (stored_grant i uid aid req)"
  shows "grant_account a g"
proof -
  obtain c where c: "rq_cloud req = Some c"
    "\<And>i. rq_account req = Some i \<Longrightarrow> \<exists>a\<in>set accs. ca_id a = i \<and> ca_provider a = Some c"
    using valid_scope [OF valid] by blast
  have eq: "b = a" if "b \<in> set accs" "ca_id b = ca_id a" for b
    using ids that a by (auto simp: distinct_map inj_on_def)
  from assms(5) have "rq_account req = Some (ca_id a) \<or> (rq_account req = None \<and> ca_provider a = Some c)"
    using c(1) by (simp add: grant_account_def stored_grant_def own_grant_def stored_scope_def)
  then show ?thesis
  proof
    assume r: "rq_account req = Some (ca_id a)"
    from c(2) [OF r] eq have "ca_provider a = Some c" by blast
    with cov r c(1) show ?thesis by (auto simp: grant_covers_def grant_account_def)
  next
    assume "rq_account req = None \<and> ca_provider a = Some c"
    with cov c(1) show ?thesis by (auto simp: grant_covers_def grant_account_def)
  qed
qed

lemma covered_region:
  assumes valid: "validate_scope_shape req (account_ids_by_cloud accs) = None"
    and cov: "grant_covers req g" and app: "applies_to j (stored_grant i uid aid req)"
    and reg: "\<not> truthy_list (sg_regions (stored_grant i uid aid req)) \<or>
      region \<in> set (the (sg_regions (stored_grant i uid aid req)))"
  shows "applies_to j g \<and> (\<not> truthy_list (sg_regions g) \<or> region \<in> set (the (sg_regions g)))"
proof -
  have "sg_regions (stored_grant i uid aid req) =
      (if field_items (rq_regions req) = [] then None else Some (field_items (rq_regions req)))"
    using dump_regions [OF valid_scope(2) [OF valid]]
    by (simp add: stored_grant_def own_grant_def stored_scope_def)
  with reg have r: "field_items (rq_regions req) = [] \<or> region \<in> set (field_items (rq_regions req))"
    by (cases "field_items (rq_regions req)") (auto simp: truthy_list_def)
  have "applies_to j g"
    using app cov by (auto simp: applies_to_def grant_covers_def stored_grant_def own_grant_def stored_scope_def)
  moreover have "\<not> truthy_list (sg_regions g) \<or> region \<in> set (the (sg_regions g))"
    using cov r by (auto simp: grant_covers_def covers_dim_def truthy_list_def split: option.splits if_splits)
  ultimately show ?thesis by blast
qed

lemma insert_scopes_in:
  "h \<in> set (insert_scopes i uid aid reqs rows) \<Longrightarrow>
     h \<in> set rows \<or> (\<exists>j. \<exists>r\<in>set reqs. h = stored_scope j uid aid r)"
proof (induction reqs arbitrary: i rows)
  case (Cons r reqs)
  from Cons.prems have "h \<in> set (insert_scopes (i + 1) uid aid reqs (rows @ [stored_scope i uid aid r]))"
    by simp
  from Cons.IH [OF this] consider "h \<in> set rows" | "h = stored_scope i uid aid r"
    | j q where "q \<in> set reqs" "h = stored_scope j uid aid q"
    by auto
  then show ?case
  proof cases
    case 2
    then show ?thesis by (intro disjI2 exI [of _ i] bexI [of _ r]) simp_all
  next
    case 3
    then show ?thesis by (intro disjI2 exI [of _ j] bexI [of _ q]) simp_all
  qed simp
qed simp

text \<open>Whatever the new rows of an accepted request show, the granting scope shows too.\<close>

lemma granted_within:
  assumes ids: "distinct (map ca_id (db_accounts db))"
    and ok: "validate_and_insert_scopes db i uid reqs actor (Grants gs) = Inr db'"
    and na: "us_role actor \<noteq> ''admin''"
  shows "\<And>j. shows_account db (map own_grant (insert_scopes i uid (us_id actor) reqs [])) j
            \<Longrightarrow> shows_account db gs j"
    and "\<And>j region. shows_region (map own_grant (insert_scopes i uid (us_id actor) reqs [])) j region
            \<Longrightarrow> shows_region gs j region"
proof -
  have new: "\<exists>j r. h = stored_grant j uid (us_id actor) r \<and> r \<in> set reqs"
    if "h \<in> set (map own_grant (insert_scopes i uid (us_id actor) reqs []))" for h
  proof -
    from that obtain q where q: "h = own_grant q" "q \<in> set (insert_scopes i uid (us_id actor) reqs [])"
      by auto
    from insert_scopes_in [OF q(2)] obtain j r where "r \<in> set reqs" "q = stored_scope j uid (us_id actor) r"
      by auto
    with q(1) show ?thesis unfolding stored_grant_def by blast
  qed
  have all: "validate_scope_shape r (account_ids_by_cloud (db_accounts db)) = None \<and>
      (\<exists>g\<in>set gs. grant_covers r g)" if "r \<in> set reqs" for r
    using ok na that
    by (auto simp: validate_and_insert_scopes_def first_shape_error_None scope_within_def list_all_iff
        single_scope_within_def list_ex_iff split: option.splits if_splits)
  show "shows_account db gs j"
    if acc: "shows_account db (map own_grant (insert_scopes i uid (us_id actor) reqs [])) j" for j
  proof -
    from acc obtain a h where a: "a \<in> set (db_accounts db)" "ca_id a = j" "grant_account a h"
      "h \<in> set (map own_grant (insert_scopes i uid (us_id actor) reqs []))"
      unfolding shows_account_iff by blast
    from new [OF a(4)] obtain k r where r: "h = stored_grant k uid (us_id actor) r" "r \<in> set reqs" by blast
    from all [OF r(2)] obtain g where g: "g \<in> set gs" "grant_covers r g"
      "validate_scope_shape r (account_ids_by_cloud (db_accounts db)) = None" by blast
    from covered_account [OF ids g(3,2) a(1)] a r g show ?thesis unfolding shows_account_iff by blast
  qed
  show "shows_region gs j region"
    if reg: "shows_region (map own_grant (insert_scopes i uid (us_id actor) reqs [])) j region" for j region
  proof -
    from reg obtain h where h: "h \<in> set (map own_grant (insert_scopes i uid (us_id actor) reqs []))"
      "applies_to j h" "\<not> truthy_list (sg_regions h) \<or> region \<in> set (the (sg_regions h))"
      unfolding shows_region_iff by blast
    from new [OF h(1)] obtain k r where r: "h = stored_grant k uid (us_id actor) r" "r \<in> set reqs" by blast
    from all [OF r(2)] obtain g where g: "g \<in> set gs" "grant_covers r g"
      "validate_scope_shape r (account_ids_by_cloud (db_accounts db)) = None" by blast
    from covered_region [OF g(3,2)] h r g show ?thesis unfolding shows_region_iff by blast
  qed
qed

subsection \<open>Group chains\<close>

lemma group_chain_ids:
  "distinct (map og_id (group_chain gs seen c)) \<and>
     set (map og_id (group_chain gs seen c)) \<inter> set seen = {} \<and> set (group_chain gs seen c) \<subseteq> set gs"
proof (induction gs seen c rule: group_chain.induct)
  case (1 gs seen current)
  show ?case
  proof (cases "\<exists>i g. current = Some i \<and> i \<notin> set seen \<and> get_group gs i = Some g")
    case False
    then have "group_chain gs seen current = []"
      by (cases current; cases "get_group gs (the current)")
         (simp_all add: group_chain.simps [of gs seen])
    then show ?thesis by simp
  next
    case True
    then obtain i g where ig: "current = Some i" "i \<notin> set seen" "get_group gs i = Some g" by blast
    then have g: "og_id g = i" "g \<in> set gs" by (auto simp: get_group_def find_Some_iff)
    have "group_chain gs seen current = g # group_chain gs (i # seen) (og_parent g)"
      using ig by (simp add: group_chain.simps [of gs seen])
    with 1 [OF ig] ig g show ?thesis by auto
  qed
qed

text \<open>
  Under the rule that validation enforces (a group's parent is one level above it) a chain has
  at most three groups.
\<close>

definition level_ok :: "org_group list \<Rightarrow> org_group \<Rightarrow> bool" where
  "level_ok gs g \<longleftrightarrow> validate_group_level_and_parent gs (og_level g) (og_parent g) = None"

definition level_rank :: "string \<Rightarrow> nat" where
  "level_rank l = (if l = ''L1'' then 1 else if l = ''L2'' then 2 else 3)"

lemma level_parent:
  assumes "level_ok gs g" "og_parent g = Some p"
  shows "\<exists>h. get_group gs p = Some h \<and> level_rank (og_level h) < level_rank (og_level g)"
proof (cases "get_group gs p")
  case None
  then show ?thesis using assms
    by (auto simp: level_ok_def validate_group_level_and_parent_def GROUP_LEVELS_def GROUP_PARENT_LEVEL_def
        dict_get_def split: if_splits)
next
  case (Some h)
  then have "level_rank (og_level h) < level_rank (og_level g)" using assms
    by (auto simp: level_ok_def validate_group_level_and_parent_def GROUP_LEVELS_def GROUP_PARENT_LEVEL_def
        dict_get_def level_rank_def split: if_splits)
  with Some show ?thesis by simp
qed

lemma chain_length:
  assumes "\<forall>g\<in>set gs. level_ok gs g" and "get_group gs i = Some g"
  shows "length (group_chain gs seen (Some i)) \<le> level_rank (og_level g)"
  using assms(2)
proof (induction "level_rank (og_level g)" arbitrary: g i seen rule: less_induct)
  case less
  have g: "g \<in> set gs" using less.prems by (auto simp: get_group_def find_Some_iff)
  show ?case
  proof (cases "i \<in> set seen")
    case True
    then show ?thesis by (simp add: group_chain.simps [of gs seen])
  next
    case False
    show ?thesis
    proof (cases "og_parent g")
      case None
      then show ?thesis using False less.prems
        by (simp add: group_chain.simps [of gs seen] group_chain.simps [of gs "i # seen"] level_rank_def)
    next
      case (Some p)
      with level_parent [of gs g] assms(1) g obtain h
        where h: "get_group gs p = Some h" "level_rank (og_level h) < level_rank (og_level g)" by blast
      from less.hyps [OF h(2) h(1)] have "length (group_chain gs (i # seen) (Some p)) \<le> level_rank (og_level h)" .
      then show ?thesis using False less.prems Some h(2) by (simp add: group_chain.simps [of gs seen])
    qed
  qed
qed

lemma level_rank_le: "level_rank l \<le> 3"
  by (simp add: level_rank_def)

text \<open>Every group of a chain but the first is the parent of the one before it.\<close>

lemma chain_head:
  "get_group gs i = Some g \<Longrightarrow> g \<in> set (get_group_chain gs i)"
  by (simp add: get_group_chain_def group_chain.simps [of gs "[]"])

subsection \<open>Bindings only add, and fail closed\<close>

lemma effective_without_bindings:
  assumes "us_role u \<noteq> ''admin''"
  shows "\<exists>own. get_effective_scope (db\<lparr>db_bindings := None\<rparr>) u = Grants own \<and>
    get_effective_scope db u = Grants (own @ binding_scope_grants db (us_id u) (inherited_group_ids db (us_id u)))"
proof -
  let ?db = "db\<lparr>db_bindings := None\<rparr>"
  have "inherited_group_ids ?db i = inherited_group_ids db i" "group_policy_rows ?db ids = group_policy_rows db ids"
    for i ids
    by (simp_all add: inherited_group_ids_def inherited_groups_def get_user_group_memberships_def
        group_policy_rows_def)
  moreover have "binding_scope_grants ?db i ids = []" for i ids
    by (simp add: binding_scope_grants_def)
  ultimately show ?thesis using assms by (simp add: get_effective_scope_def Let_def)
qed

lemma binding_grant_valid:
  assumes "g \<in> set (binding_scope_grants db uid gids)"
  shows "\<exists>b s key. binding_applies db uid gids b \<and> s \<in> set (db_scopes db) \<and> sc_id s = rb_scope b \<and>
     \<not> list_ex (\<lambda>c. truthy_list (parse_json_list c)) (unenforced_columns s) \<and>
     g = binding_grant uid b key s (sg_cloud g) \<and> sg_cloud g \<in> set (binding_clouds db s)"
proof -
  from assms obtain bs b where b: "db_bindings db = Some bs" "b \<in> set bs" "binding_applies db uid gids b"
    "g \<in> set (row_grants db uid b)"
    by (cases "db_bindings db") (auto simp: binding_scope_grants_def)
  from b(4) obtain key where key: "dict_get (db_roles db) (rb_role b) = Some key"
    by (cases "dict_get (db_roles db) (rb_role b)") (auto simp: row_grants_def)
  from b(4) key obtain s where f: "find (\<lambda>s. sc_id s = rb_scope b) (db_scopes db) = Some s"
    by (cases "find (\<lambda>s. sc_id s = rb_scope b) (db_scopes db)") (auto simp: row_grants_def)
  from b(4) key f obtain c where s: "find (\<lambda>s. sc_id s = rb_scope b) (db_scopes db) = Some s"
    "\<not> list_ex (\<lambda>c. truthy_list (parse_json_list c)) (unenforced_columns s)"
    "g = binding_grant uid b key s c" "c \<in> set (binding_clouds db s)"
    by (auto simp: row_grants_def split: if_splits)
  moreover from s(1) have "s \<in> set (db_scopes db)" "sc_id s = rb_scope b" by (auto simp: find_Some_iff)
  moreover have "sg_cloud g = c" using s(3) by (simp add: binding_grant_def)
  ultimately show ?thesis using b(3) by (intro exI [of _ b] exI [of _ s] exI [of _ key]) simp
qed

lemma accessible_admin: "get_accessible_account_ids db u = None \<longleftrightarrow> us_role u = ''admin''"
  by (simp add: get_accessible_account_ids_def get_effective_scope_def Let_def)

lemma accessible_grants:
  "get_effective_scope db u = Grants gs \<Longrightarrow>
     get_accessible_account_ids db u = Some (accounts_of db gs)"
  by (auto simp: get_accessible_account_ids_def accounts_of_def List.map_filter_def split: option.split)

lemma binding_grant_facts:
  assumes "g \<in> set (binding_scope_grants db uid gids)"
  shows "\<exists>b s. binding_applies db uid gids b \<and> s \<in> set (db_scopes db) \<and> sc_id s = rb_scope b \<and>
     filter (\<lambda>c. truthy_list (parse_json_list c)) (unenforced_columns s) = [] \<and>
     sg_source g = FromBinding \<and> sg_account g = sc_account s \<and> sg_regions g = parse_json_list (sc_regions s) \<and>
     sg_cloud g \<in> set (binding_clouds db s)"
proof -
  from binding_grant_valid [OF assms] obtain b s key where
    b: "binding_applies db uid gids b" "s \<in> set (db_scopes db)" "sc_id s = rb_scope b"
    "\<not> list_ex (\<lambda>c. truthy_list (parse_json_list c)) (unenforced_columns s)"
    and g: "g = binding_grant uid b key s (sg_cloud g)" "sg_cloud g \<in> set (binding_clouds db s)"
    by blast
  from b(4) have "filter (\<lambda>c. truthy_list (parse_json_list c)) (unenforced_columns s) = []"
    by (simp add: filter_empty_conv list_ex_iff)
  moreover have "sg_source g = FromBinding \<and> sg_account g = sc_account s \<and> sg_regions g = parse_json_list (sc_regions s)"
    by (subst g(1), subst g(1), subst g(1)) (simp add: binding_grant_def)
  ultimately show ?thesis using b g(2) by blast
qed

subsection \<open>Stored scopes read back\<close>

lemma valid_fields:
  assumes "validate_scope_shape req valid = None"
  shows "\<not> list_ex is_text_field [rq_regions req, rq_resource_groups req, rq_resource_types req, rq_resource_ids req]"
    "rq_cloud req \<noteq> None"
  using assms by (auto simp: validate_scope_shape_def split: option.splits if_splits)

lemma covers_dumped:
  "\<not> is_text_field f \<Longrightarrow> covers_dim d f \<Longrightarrow> covers_dim d (list_field (if field_items f = [] then None else Some (field_items f)))"
  by (cases f) (auto simp: covers_dim_def list_field_def field_items_def is_text_field_def)

lemma stored_scope_reads_back:
  assumes "validate_scope_shape req valid = None"
  shows "rq_cloud req = Some (sg_cloud (own_grant (stored_scope i uid aid req))) \<and>
     sg_account (own_grant (stored_scope i uid aid req)) = rq_account req \<and>
     map (\<lambda>f. f (own_grant (stored_scope i uid aid req))) [sg_regions, sg_resource_groups, sg_resource_types, sg_resource_ids] =
       map (\<lambda>f. if field_items f = [] then None else Some (field_items f))
         [rq_regions req, rq_resource_groups req, rq_resource_types req, rq_resource_ids req] \<and>
     (single_scope_within req gs \<longrightarrow> single_scope_within (grant_request (own_grant (stored_scope i uid aid req))) gs)"
proof -
  note v = valid_fields [OF assms]
  obtain c where c: "rq_cloud req = Some c" using v(2) by auto
  have t: "\<not> is_text_field (rq_regions req)" "\<not> is_text_field (rq_resource_groups req)"
    "\<not> is_text_field (rq_resource_types req)" "\<not> is_text_field (rq_resource_ids req)"
    using v(1) by simp_all
  note read = dump_regions [OF t(1)] dump_regions [OF t(2)] dump_regions [OF t(3)] dump_regions [OF t(4)]
  have cov: "grant_covers (grant_request (own_grant (stored_scope i uid aid req))) g" if g: "grant_covers req g" for g
    using g c covers_dumped [OF t(1)] covers_dumped [OF t(2)] covers_dumped [OF t(3)] covers_dumped [OF t(4)]
    unfolding grant_covers_def grant_request_def own_grant_def stored_scope_def scope_grant.simps scope_row.simps
      scope_req.simps read
    by auto
  have "single_scope_within (grant_request (own_grant (stored_scope i uid aid req))) gs" if "single_scope_within req gs"
    using that cov unfolding single_scope_within_def list_ex_iff by blast
  moreover have "map (\<lambda>f. f (own_grant (stored_scope i uid aid req))) [sg_regions, sg_resource_groups, sg_resource_types, sg_resource_ids] =
       map (\<lambda>f. if field_items f = [] then None else Some (field_items f))
         [rq_regions req, rq_resource_groups req, rq_resource_types req, rq_resource_ids req]"
    by (simp only: own_grant_def stored_scope_def list.map scope_grant.simps scope_row.simps read)
  ultimately show ?thesis using c by (simp add: own_grant_def stored_scope_def)
qed

end
