(* ===== verification/Escalation.thy ===== *)
theory Escalation
  imports Alert_Evaluator Authorization
begin

text \<open>
  \<open>app/collector/escalation.py\<close>: which firing, unacknowledged alerts have outlived the
  acknowledgement time of a policy, the claim that escalates each of them once, and who is
  mailed about it. Sending a mail is an argument; everything that decides whether one is sent is
  modelled.
\<close>

subsection \<open>Candidates\<close>

record policy =
  ep_id :: nat
  ep_account :: "nat option"
  ep_severity :: severity
  ep_enabled :: bool
  ep_sla_minutes :: int
  ep_group :: nat

record esc_db =
  ed_resources :: "resource list"
  ed_accounts :: "account list"
  ed_policies :: "policy list"
  ed_groups :: "org_group list"

type_synonym candidate = "alert \<times> policy \<times> org_group"

definition stale_of :: "flags \<Rightarrow> alert \<Rightarrow> resource \<Rightarrow> account \<Rightarrow> nat" where
  "stale_of fl a r ac =
     stale_minutes (fl_poll fl) (fl_overrides fl) (ac_provider ac) (rs_type r) (rs_env_resolved r) (al_metric a)"

definition policy_due :: "secs \<Rightarrow> alert \<Rightarrow> policy \<Rightarrow> bool" where
  "policy_due now a ep \<longleftrightarrow>
     ep_severity ep = al_severity a \<and> ep_enabled ep \<and>
     (ep_account ep = None \<or> ep_account ep = al_account a) \<and>
     al_triggered_at a \<le> now - ep_sla_minutes ep * 60"

definition pageable :: "flags \<Rightarrow> secs \<Rightarrow> alert \<times> resource \<times> account \<Rightarrow> bool" where
  "pageable fl now arc \<longleftrightarrow>
     (case arc of (a, r, ac) \<Rightarrow>
        firing_where now (stale_of fl a r ac) a \<and> base_where a \<and> \<not> al_acked a \<and> al_escalated_at a = None)"

definition candidates_of :: "esc_db \<Rightarrow> secs \<Rightarrow> alert \<Rightarrow> candidate list" where
  "candidates_of db now a =
     concat (map (\<lambda>ep. map (\<lambda>g. (a, ep, g)) (filter (\<lambda>g. og_id g = ep_group ep) (ed_groups db)))
       (filter (policy_due now a) (ed_policies db)))"

definition candidates :: "flags \<Rightarrow> esc_db \<Rightarrow> secs \<Rightarrow> alert list \<Rightarrow> candidate list" where
  "candidates fl db now as =
     concat (map (\<lambda>(a, r, ac). candidates_of db now a)
       (filter (pageable fl now) (alert_base_from as (ed_resources db) (ed_accounts db))))"

definition global_rank :: "candidate \<Rightarrow> nat" where
  "global_rank c = (if ep_account (fst (snd c)) = None then 1 else 0)"

definition cand_id :: "candidate \<Rightarrow> nat" where
  "cand_id c = al_id (fst c)"

text \<open>\<open>ORDER BY a.id, (ep.aws_account_id IS NULL) ASC\<close>.\<close>

definition ordered :: "candidate list \<Rightarrow> candidate list" where
  "ordered cs = sort_key cand_id (sort_key global_rank cs)"

subsection \<open>Claiming\<close>

definition claim :: "secs \<Rightarrow> candidate \<Rightarrow> alert \<Rightarrow> alert" where
  "claim now c a = a\<lparr>al_escalated_at := Some now, al_escalated_group := Some (ep_group (fst (snd c)))\<rparr>"

definition claimable :: "nat \<Rightarrow> alert \<Rightarrow> bool" where
  "claimable i a \<longleftrightarrow> al_id a = i \<and> al_escalated_at a = None"

fun escalate_loop ::
  "secs \<Rightarrow> candidate list \<Rightarrow> nat list \<Rightarrow> alert list \<Rightarrow> candidate list \<Rightarrow> alert list \<times> candidate list" where
  "escalate_loop now [] seen as claimed = (as, claimed)"
| "escalate_loop now (c # cs) seen as claimed =
     (if cand_id c \<in> set seen then escalate_loop now cs seen as claimed
      else escalate_loop now cs (cand_id c # seen)
             (update_where (claimable (cand_id c)) (claim now c) as)
             (if rowcount (claimable (cand_id c)) as > 0 then claimed @ [c] else claimed))"

definition evaluate_escalations ::
  "flags \<Rightarrow> esc_db \<Rightarrow> secs \<Rightarrow> alert list \<Rightarrow> alert list \<times> candidate list" where
  "evaluate_escalations fl db now as = escalate_loop now (ordered (candidates fl db now as)) [] as []"

subsection \<open>Who is mailed\<close>

record member =
  me_group :: nat
  me_user :: nat
  me_role :: string
  me_email :: "string option"
  me_active :: "bool option"

text \<open>\<open>list(dict.fromkeys(xs))\<close>: the first occurrences, in order.\<close>

fun dedup :: "'a list \<Rightarrow> 'a list \<Rightarrow> 'a list" where
  "dedup seen [] = []"
| "dedup seen (x # xs) = (if x \<in> set seen then dedup seen xs else x # dedup (x # seen) xs)"

definition group_members :: "member list \<Rightarrow> nat \<Rightarrow> member list" where
  "group_members ms gid =
     filter (\<lambda>m. me_group m = gid \<and> me_email m \<noteq> None \<and> me_email m \<noteq> Some [] \<and>
                 (me_active m = None \<or> me_active m = Some True)) ms"

definition may_receive :: "auth_db \<Rightarrow> (nat \<Rightarrow> bool) \<Rightarrow> nat option \<Rightarrow> member \<Rightarrow> bool" where
  "may_receive adb lookup_fails acct m =
     (case acct of
        None \<Rightarrow> True
      | Some i \<Rightarrow>
          if lookup_fails (me_user m) then False
          else (case get_accessible_account_ids adb \<lparr>us_id = me_user m, us_role = me_role m\<rparr> of
                  None \<Rightarrow> True | Some ids \<Rightarrow> i \<in> set ids))"

definition recipients ::
  "auth_db \<Rightarrow> (nat \<Rightarrow> bool) \<Rightarrow> member list \<Rightarrow> nat \<Rightarrow> nat option \<Rightarrow> string list" where
  "recipients adb lookup_fails ms gid acct =
     dedup [] (map (\<lambda>m. the (me_email m)) (filter (may_receive adb lookup_fails acct) (group_members ms gid)))"

datatype esc_event = SmtpNotConfigured | NoRecipient | Emailed nat nat

text \<open>\<open>send\<close> is \<open>mailer.send_email\<close>: whether the mail went out (a raise counts as not sent).\<close>

definition notify_escalation ::
  "bool \<Rightarrow> (string \<Rightarrow> bool) \<Rightarrow> auth_db \<Rightarrow> (nat \<Rightarrow> bool) \<Rightarrow> member list \<Rightarrow> nat \<Rightarrow> nat option
   \<Rightarrow> esc_event \<times> string list" where
  "notify_escalation smtp send adb lookup_fails ms gid acct =
     (if \<not> smtp then (SmtpNotConfigured, [])
      else (let rs = recipients adb lookup_fails ms gid acct in
            if rs = [] then (NoRecipient, [])
            else (let sent = filter send rs in (Emailed (length sent) (length rs), sent))))"

subsection \<open>The order of the candidates\<close>

lemma set_ordered [simp]: "set (ordered cs) = set cs"
  by (simp add: ordered_def)

lemma filter_ordered: "filter P (ordered cs) = ordered (filter P cs)"
  by (simp add: ordered_def filter_sort)

lemma ordered_one_id:
  assumes "\<And>c. c \<in> set cs \<Longrightarrow> cand_id c = i"
  shows "ordered cs = sort_key global_rank cs"
proof -
  have "map cand_id (sort_key global_rank cs) = map (\<lambda>_. i) (sort_key global_rank cs)"
    using assms by (intro map_cong) auto
  then have "sorted (map cand_id (sort_key global_rank cs))"
    by (simp add: map_replicate_const)
  then show ?thesis by (simp add: ordered_def sort_key_id_if_sorted)
qed

text \<open>The candidate the loop meets first for an alert: an account policy if one is due.\<close>

definition chosen :: "candidate list \<Rightarrow> nat \<Rightarrow> candidate option" where
  "chosen cs i = find (\<lambda>c. cand_id c = i) (ordered cs)"

lemma chosen_eq:
  "chosen cs i = (case sort_key global_rank (filter (\<lambda>c. cand_id c = i) cs) of [] \<Rightarrow> None | c # _ \<Rightarrow> Some c)"
  using ordered_one_id [of "filter (\<lambda>c. cand_id c = i) cs" i]
  by (simp add: chosen_def find_filter_hd filter_ordered)

lemma chosen_Some:
  assumes "chosen cs i = Some c"
  shows "c \<in> set cs" "cand_id c = i" "\<And>d. d \<in> set cs \<Longrightarrow> cand_id d = i \<Longrightarrow> global_rank c \<le> global_rank d"
proof -
  let ?ys = "filter (\<lambda>c. cand_id c = i) cs"
  obtain rest where r: "sort_key global_rank ?ys = c # rest"
    using assms by (auto simp: chosen_eq split: list.splits)
  then have "c \<in> set ?ys" by (metis list.set_intros(1) set_sort)
  then show "c \<in> set cs" "cand_id c = i" by auto
  fix d assume "d \<in> set cs" "cand_id d = i"
  then have "d \<in> set (c # rest)" using r by (metis (mono_tags, lifting) mem_Collect_eq set_filter set_sort)
  moreover have "sorted (map global_rank (c # rest))" using r by (metis sorted_sort_key)
  ultimately show "global_rank c \<le> global_rank d" by auto
qed

lemma chosen_None: "chosen cs i = None \<longleftrightarrow> (\<forall>c\<in>set cs. cand_id c \<noteq> i)"
  by (auto simp: chosen_def find_None_iff)

subsection \<open>The loop\<close>

definition escalated :: "secs \<Rightarrow> candidate list \<Rightarrow> nat list \<Rightarrow> alert \<Rightarrow> alert" where
  "escalated now cs seen a =
     (if al_escalated_at a \<noteq> None \<or> al_id a \<in> set seen then a
      else (case find (\<lambda>c. cand_id c = al_id a) cs of Some c \<Rightarrow> claim now c a | None \<Rightarrow> a))"

lemma claim_simps [simp]:
  "al_id (claim now c a) = al_id a" "al_escalated_at (claim now c a) = Some now"
  "alert_ident (claim now c a) = alert_ident a" "is_open (claim now c a) = is_open a"
  by (simp_all add: claim_def alert_ident_def is_open_def)

lemma escalated_Cons:
  "escalated now (c # cs) seen a =
     (if cand_id c \<in> set seen then escalated now cs seen a
      else if claimable (cand_id c) a then claim now c a
      else escalated now cs (cand_id c # seen) a)"
  by (auto simp: escalated_def claimable_def)

lemma escalated_claim [simp]: "escalated now cs seen (claim t c a) = claim t c a"
  by (simp add: escalated_def)

lemma escalate_loop_alerts:
  "fst (escalate_loop now cs seen as claimed) = map (escalated now cs seen) as"
proof (induction cs arbitrary: seen as claimed)
  case Nil
  then show ?case by (simp add: escalated_def map_idI)
next
  case (Cons c cs)
  show ?case
  proof (cases "cand_id c \<in> set seen")
    case True
    then show ?thesis by (simp add: Cons.IH escalated_Cons)
  next
    case False
    then show ?thesis
      by (simp add: Cons.IH) (auto simp: update_where_def escalated_Cons claimable_def escalated_def)
  qed
qed

text \<open>What one run does to one alert: the first candidate claims it.\<close>

lemma evaluate_escalations_alerts:
  "fst (evaluate_escalations fl db now as) =
     map (\<lambda>a. if al_escalated_at a \<noteq> None then a
              else (case chosen (candidates fl db now as) (al_id a) of Some c \<Rightarrow> claim now c a | None \<Rightarrow> a)) as"
  by (simp add: evaluate_escalations_def escalate_loop_alerts escalated_def chosen_def)

lemma set_dedup: "set (dedup seen xs) = set xs - set seen"
  by (induction seen xs rule: dedup.induct) auto

lemma distinct_dedup: "distinct (dedup seen xs)"
  by (induction seen xs rule: dedup.induct) (auto simp: set_dedup)

lemma claimed_eq:
  "map cand_id (snd (escalate_loop now cs seen as claimed)) =
     map cand_id claimed @ filter (\<lambda>i. \<exists>a\<in>set as. claimable i a) (dedup seen (map cand_id cs))"
proof (induction cs arbitrary: seen as claimed)
  case (Cons c cs)
  show ?case
  proof (cases "cand_id c \<in> set seen")
    case True
    then show ?thesis by (simp add: Cons.IH)
  next
    case False
    let ?i = "cand_id c"
    let ?as' = "update_where (claimable ?i) (claim now c) as"
    have other: "(\<exists>a\<in>set ?as'. claimable j a) \<longleftrightarrow> (\<exists>a\<in>set as. claimable j a)" if "j \<noteq> ?i" for j
      using that by (auto simp: set_update_where claimable_def)
    have notin: "j \<in> set (dedup (?i # seen) xs) \<Longrightarrow> j \<noteq> ?i" for j xs seen
      by (auto simp: set_dedup)
    have same: "filter (\<lambda>j. \<exists>a\<in>set ?as'. claimable j a) (dedup (?i # seen) (map cand_id cs)) =
        filter (\<lambda>j. \<exists>a\<in>set as. claimable j a) (dedup (?i # seen) (map cand_id cs))"
      using other notin by (intro filter_cong) blast+
    have "rowcount (claimable ?i) as > 0 \<longleftrightarrow> (\<exists>a\<in>set as. claimable ?i a)"
      by (auto simp: rowcount_def filter_empty_conv)
    with False same show ?thesis by (auto simp: Cons.IH)
  qed
qed simp

lemma candidates_alert:
  "c \<in> set (candidates fl db now as) \<Longrightarrow>
     fst c \<in> set as \<and> al_escalated_at (fst c) = None \<and> \<not> al_acked (fst c) \<and> al_status (fst c) = Active \<and>
     policy_due now (fst c) (fst (snd c))"
  by (auto simp: candidates_def candidates_of_def pageable_def alert_base_from_def firing_where_def
      split: option.splits)

lemma evaluate_escalations_claimed:
  "map cand_id (snd (evaluate_escalations fl db now as)) =
     filter (\<lambda>i. \<exists>a\<in>set as. claimable i a) (dedup [] (map cand_id (ordered (candidates fl db now as))))"
  by (simp add: evaluate_escalations_def claimed_eq)

lemma escalations_distinct: "distinct (map cand_id (snd (evaluate_escalations fl db now as)))"
  by (simp only: evaluate_escalations_claimed distinct_filter distinct_dedup)

text \<open>Whoever is claimed in one run is no candidate of a later one.\<close>

lemma escalations_disjoint:
  "set (map cand_id (snd (evaluate_escalations fl db now as))) \<inter>
     set (map cand_id (snd (evaluate_escalations fl' db' later (fst (evaluate_escalations fl db now as))))) = {}"
proof -
  let ?as = "fst (evaluate_escalations fl db now as)"
  have "i \<notin> cand_id ` set (candidates fl db now as)" if "i \<in> cand_id ` set (candidates fl' db' later ?as)" for i
  proof -
    from that obtain c where c: "c \<in> set (candidates fl' db' later ?as)" "i = cand_id c" by blast
    with candidates_alert have "fst c \<in> set ?as" "al_escalated_at (fst c) = None" by blast+
    then obtain a where a: "al_escalated_at a = None" "fst c = a" "chosen (candidates fl db now as) (al_id a) = None"
      by (auto simp: evaluate_escalations_alerts split: if_splits option.splits)
    then show ?thesis using c(2) by (auto simp: chosen_None cand_id_def)
  qed
  then show ?thesis by (auto simp: evaluate_escalations_claimed set_dedup)
qed

subsection \<open>The recipients\<close>

lemma recipients_distinct: "distinct (recipients adb fails ms gid acct)"
  by (simp add: recipients_def distinct_dedup)

lemma recipients_in:
  assumes "e \<in> set (recipients adb fails ms gid (Some i))"
  shows "\<exists>m\<in>set ms. me_group m = gid \<and> me_email m = Some e \<and> me_active m \<noteq> Some False \<and>
     \<not> fails (me_user m) \<and>
     (case get_accessible_account_ids adb \<lparr>us_id = me_user m, us_role = me_role m\<rparr> of
        None \<Rightarrow> me_role m = ''admin'' | Some ids \<Rightarrow> i \<in> set ids)"
proof -
  from assms obtain m where m: "m \<in> set (group_members ms gid)" "e = the (me_email m)"
    "may_receive adb fails (Some i) m"
    by (auto simp: recipients_def set_dedup)
  then have "m \<in> set ms \<and> me_group m = gid \<and> me_email m = Some e \<and> me_active m \<noteq> Some False"
    by (auto simp: group_members_def)
  moreover have "\<not> fails (me_user m) \<and>
     (case get_accessible_account_ids adb \<lparr>us_id = me_user m, us_role = me_role m\<rparr> of
        None \<Rightarrow> me_role m = ''admin'' | Some ids \<Rightarrow> i \<in> set ids)"
    using m(3) accessible_admin [of adb "\<lparr>us_id = me_user m, us_role = me_role m\<rparr>"]
    by (auto simp: may_receive_def split: if_splits option.splits)
  ultimately show ?thesis by blast
qed

end
