(* ===== verification/Alert_Actions.thy ===== *)
theory Alert_Actions
  imports Alert_Tables Authorization
begin

text \<open>
  What people do to alerts: the lifecycle endpoints of \<open>app/api/alerts.py\<close> (acknowledge, resolve,
  mute, unmute, acknowledge a group, clear). Each first checks that the caller may see the
  alert's account; the route's permission gate comes before and is not modelled. An HTTP error
  is the left value of the result.
\<close>

datatype http_error = NotFound | Forbidden | Conflict

subsection \<open>Access\<close>

definition get_alert_account_id :: "alert list \<Rightarrow> nat \<Rightarrow> nat option" where
  "get_alert_account_id as i =
     (case find (\<lambda>a. al_id a = i) as of None \<Rightarrow> None | Some a \<Rightarrow> al_account a)"

definition require_alert_access :: "auth_db \<Rightarrow> user \<Rightarrow> alert list \<Rightarrow> nat \<Rightarrow> http_error + nat" where
  "require_alert_access adb u as i =
     (case get_alert_account_id as i of
        None \<Rightarrow> Inl NotFound
      | Some acct \<Rightarrow>
          (case get_accessible_account_ids adb u of
             None \<Rightarrow> Inr acct
           | Some ids \<Rightarrow> if acct \<in> set ids then Inr acct else Inl Forbidden))"

text \<open>\<open>_scope_sql\<close>: the condition it adds to a query, \<open>None\<close> when no account is visible.\<close>

definition scope_sql :: "auth_db \<Rightarrow> user \<Rightarrow> (alert \<Rightarrow> bool) option" where
  "scope_sql adb u =
     (case get_accessible_account_ids adb u of
        None \<Rightarrow> Some (\<lambda>a. True)
      | Some ids \<Rightarrow>
          if ids = [] then None
          else Some (\<lambda>a. case al_account a of None \<Rightarrow> False | Some i \<Rightarrow> i \<in> set ids))"

definition current_status :: "alert list \<Rightarrow> nat \<Rightarrow> status option" where
  "current_status as i = map_option al_status (find (\<lambda>a. al_id a = i) as)"

subsection \<open>Single alerts\<close>

definition ack :: "string \<Rightarrow> secs \<Rightarrow> alert \<Rightarrow> alert" where
  "ack who now a =
     a\<lparr>al_acked := True, al_status := Acknowledged, al_acked_by := Some who, al_acked_at := Some now\<rparr>"

definition ack_alert ::
  "auth_db \<Rightarrow> user \<Rightarrow> string \<Rightarrow> secs \<Rightarrow> nat \<Rightarrow> alert list \<Rightarrow> http_error + (alert list \<times> bool)" where
  "ack_alert adb u who now i as =
     (case require_alert_access adb u as i of
        Inl e \<Rightarrow> Inl e
      | Inr _ \<Rightarrow>
          (let target = (\<lambda>a. al_id a = i \<and> al_status a = Active);
               as' = update_where target (ack who now) as
           in if rowcount target as > 0 then Inr (as', True)
              else (case current_status as' i of
                      None \<Rightarrow> Inl NotFound
                    | Some Resolved \<Rightarrow> Inl Conflict
                    | Some _ \<Rightarrow> Inr (as', False))))"

definition manual_resolve :: "string \<Rightarrow> string \<Rightarrow> secs \<Rightarrow> alert \<Rightarrow> alert" where
  "manual_resolve reason who now a =
     a\<lparr>al_resolved_at := Some now, al_last_seen_at := Some now, al_status := Resolved,
       al_resolution_reason := Some reason, al_resolved_by := Some who\<rparr>"

definition resolve_alert_by_user ::
  "auth_db \<Rightarrow> user \<Rightarrow> string \<Rightarrow> secs \<Rightarrow> nat \<Rightarrow> alert list \<Rightarrow> http_error + (alert list \<times> bool)" where
  "resolve_alert_by_user adb u who now i as =
     (case require_alert_access adb u as i of
        Inl e \<Rightarrow> Inl e
      | Inr _ \<Rightarrow>
          (let target = (\<lambda>a. al_id a = i \<and> al_status a \<noteq> Resolved);
               changed = rowcount target as > 0;
               as' = update_where target (manual_resolve ''manual'' who now) as
           in if \<not> changed \<and> current_status as' i = None then Inl NotFound else Inr (as', changed)))"

definition MAX_MUTE_MINUTES :: int where
  "MAX_MUTE_MINUTES = 7 * 24 * 60"

text \<open>The router itself refuses \<open>minutes\<close> outside \<open>[1, MAX_MUTE_MINUTES]\<close>.\<close>

definition mute_alert ::
  "auth_db \<Rightarrow> user \<Rightarrow> int \<Rightarrow> secs \<Rightarrow> nat \<Rightarrow> alert list \<Rightarrow> http_error + alert list" where
  "mute_alert adb u minutes now i as =
     (case require_alert_access adb u as i of
        Inl e \<Rightarrow> Inl e
      | Inr _ \<Rightarrow>
          (let target = (\<lambda>a. al_id a = i \<and> is_open a) in
           if rowcount target as > 0
           then Inr (update_where target (\<lambda>a. a\<lparr>al_muted_until := Some (now + minutes * 60)\<rparr>) as)
           else if current_status as i = None then Inl NotFound else Inl Conflict))"

definition unmute_alert :: "auth_db \<Rightarrow> user \<Rightarrow> nat \<Rightarrow> alert list \<Rightarrow> http_error + alert list" where
  "unmute_alert adb u i as =
     (case require_alert_access adb u as i of
        Inl e \<Rightarrow> Inl e
      | Inr _ \<Rightarrow> Inr (update_where (\<lambda>a. al_id a = i) (\<lambda>a. a\<lparr>al_muted_until := None\<rparr>) as))"

subsection \<open>Many alerts\<close>

definition ack_group ::
  "auth_db \<Rightarrow> user \<Rightarrow> string \<Rightarrow> secs \<Rightarrow> nat \<times> string \<times> string \<Rightarrow> alert list \<Rightarrow> alert list \<times> nat" where
  "ack_group adb u who now gk as =
     (case scope_sql adb u of
        None \<Rightarrow> (as, 0)
      | Some sc \<Rightarrow>
          (let target = (\<lambda>a. al_group_key a = gk \<and> al_status a = Active \<and> sc a)
           in (update_where target (ack who now) as, rowcount target as)))"

definition clear_alerts ::
  "auth_db \<Rightarrow> user \<Rightarrow> string \<Rightarrow> secs \<Rightarrow> nat option \<Rightarrow> alert list \<Rightarrow> http_error + (alert list \<times> nat)" where
  "clear_alerts adb u who now account_id as =
     (let denied = (case account_id of
                      None \<Rightarrow> False
                    | Some i \<Rightarrow> (case get_accessible_account_ids adb u of
                                  None \<Rightarrow> False | Some ids \<Rightarrow> i \<notin> set ids));
          scope = (case account_id of
                     None \<Rightarrow> scope_sql adb u | Some i \<Rightarrow> Some (\<lambda>a. al_account a = Some i))
      in if denied then Inl Forbidden
         else (case scope of
                 None \<Rightarrow> Inr (as, 0)
               | Some sc \<Rightarrow>
                   (let target = (\<lambda>a. al_status a = Active \<and> \<not> al_acked a \<and> sc a)
                    in Inr (update_where target (manual_resolve ''bulk_clear'' who now) as,
                            rowcount target as))))"

subsection \<open>Facts\<close>

text \<open>The caller may see the account of an alert: everything, or an account of the scope.\<close>

definition may_see :: "auth_db \<Rightarrow> user \<Rightarrow> alert \<Rightarrow> bool" where
  "may_see adb u a \<longleftrightarrow>
     (case get_accessible_account_ids adb u of
        None \<Rightarrow> True
      | Some ids \<Rightarrow> (case al_account a of None \<Rightarrow> False | Some i \<Rightarrow> i \<in> set ids))"

lemma scope_sql_may_see: "scope_sql adb u = Some sc \<Longrightarrow> sc a \<longleftrightarrow> may_see adb u a"
  by (auto simp: scope_sql_def may_see_def split: option.splits if_splits)

lemma require_access_may_see:
  assumes "require_alert_access adb u as i = Inr acct" "distinct (map al_id as)" "a \<in> set as" "al_id a = i"
  shows "may_see adb u a"
proof -
  have "find (\<lambda>a. al_id a = i) as = Some a"
    using assms(2,3,4) by (induction as) (auto simp: image_iff)
  then show ?thesis using assms(1)
    by (auto simp: require_alert_access_def get_alert_account_id_def may_see_def split: option.splits if_splits)
qed

lemma action_simps [simp]:
  "alert_ident (ack who now a) = alert_ident a" "is_open (ack who now a)"
  "alert_ident (manual_resolve r who now a) = alert_ident a" "\<not> is_open (manual_resolve r who now a)"
  "alert_ident (a\<lparr>al_muted_until := m\<rparr>) = alert_ident a" "is_open (a\<lparr>al_muted_until := m\<rparr>) = is_open a"
  by (simp_all add: ack_def manual_resolve_def alert_ident_def is_open_def)

text \<open>
  Every action is an update of rows the caller may see, by one of three functions; \<open>acts\<close> names
  what one of them may do to one alert.
\<close>

definition acts :: "string \<Rightarrow> secs \<Rightarrow> alert \<Rightarrow> alert \<Rightarrow> bool" where
  "acts who now a b \<longleftrightarrow>
     b = a \<or> (al_status a = Active \<and> b = ack who now a) \<or>
     (is_open a \<and> (b = manual_resolve ''manual'' who now a \<or> b = manual_resolve ''bulk_clear'' who now a)) \<or> (\<exists>m. b = a\<lparr>al_muted_until := m\<rparr>)"

lemma acts_update:
  assumes "\<And>a. a \<in> set as \<Longrightarrow> p a \<Longrightarrow> acts who now a (f a)"
  shows "list_all2 (acts who now) as (update_where p f as)"
  using assms by (auto simp: update_where_def list_all2_conv_all_nth acts_def)

text \<open>The rows an action may touch are the caller's.\<close>

definition touches_only :: "(alert \<Rightarrow> bool) \<Rightarrow> alert list \<Rightarrow> alert list \<Rightarrow> bool" where
  "touches_only P as bs \<longleftrightarrow> list_all2 (\<lambda>a b. b = a \<or> P a) as bs"

lemma touches_only_update:
  "(\<And>a. a \<in> set as \<Longrightarrow> p a \<Longrightarrow> P a) \<Longrightarrow> touches_only P as (update_where p f as)"
  by (auto simp: touches_only_def update_where_def list_all2_conv_all_nth)

lemma touches_only_refl [simp]: "touches_only P as as"
  by (simp add: touches_only_def list_all2_conv_all_nth)

subsection \<open>One action\<close>

datatype action =
    Ack nat | ResolveManually nat | Mute int nat | Unmute nat
  | AckGroup "nat \<times> string \<times> string" | Clear "nat option"

text \<open>The table after a request; a refused request leaves it alone.\<close>

definition perform :: "auth_db \<Rightarrow> user \<Rightarrow> string \<Rightarrow> secs \<Rightarrow> action \<Rightarrow> alert list \<Rightarrow> alert list" where
  "perform adb u who now x as =
     (case x of
        Ack i \<Rightarrow> (case ack_alert adb u who now i as of Inl _ \<Rightarrow> as | Inr (as', _) \<Rightarrow> as')
      | ResolveManually i \<Rightarrow> (case resolve_alert_by_user adb u who now i as of Inl _ \<Rightarrow> as | Inr (as', _) \<Rightarrow> as')
      | Mute n i \<Rightarrow> (case mute_alert adb u n now i as of Inl _ \<Rightarrow> as | Inr as' \<Rightarrow> as')
      | Unmute i \<Rightarrow> (case unmute_alert adb u i as of Inl _ \<Rightarrow> as | Inr as' \<Rightarrow> as')
      | AckGroup gk \<Rightarrow> fst (ack_group adb u who now gk as)
      | Clear ai \<Rightarrow> (case clear_alerts adb u who now ai as of Inl _ \<Rightarrow> as | Inr (as', _) \<Rightarrow> as'))"

text \<open>Every action is one update of rows its caller may see.\<close>

definition own_update ::
  "auth_db \<Rightarrow> user \<Rightarrow> string \<Rightarrow> secs \<Rightarrow> alert list \<Rightarrow> alert list \<Rightarrow> bool" where
  "own_update adb u who now as bs \<longleftrightarrow>
     (\<exists>p f. bs = update_where p f as \<and> (\<forall>a\<in>set as. p a \<longrightarrow> may_see adb u a \<and> acts who now a (f a)))"

lemma own_update_refl [simp]: "own_update adb u who now as as"
  unfolding own_update_def by (intro exI [of _ "\<lambda>_. False"]) (simp add: update_where_none)

lemma own_updateI:
  "(\<And>a. a \<in> set as \<Longrightarrow> p a \<Longrightarrow> may_see adb u a) \<Longrightarrow> (\<And>a. p a \<Longrightarrow> acts who now a (f a))
   \<Longrightarrow> own_update adb u who now as (update_where p f as)"
  unfolding own_update_def by blast

lemma ack_own:
  assumes d: "distinct (map al_id as)" and r: "ack_alert adb u who now i as = Inr (as', c)"
  shows "own_update adb u who now as as'"
proof -
  let ?p = "\<lambda>a. al_id a = i \<and> al_status a = Active"
  obtain acct where acct: "require_alert_access adb u as i = Inr acct"
    using r by (cases "require_alert_access adb u as i") (auto simp: ack_alert_def)
  then have "as' = update_where ?p (ack who now) as"
    using r by (auto simp: ack_alert_def Let_def split: option.splits status.splits if_splits)
  moreover have "own_update adb u who now as (update_where ?p (ack who now) as)"
    using require_access_may_see [OF acct d] by (intro own_updateI) (auto simp: acts_def)
  ultimately show ?thesis by simp
qed

lemma resolve_own:
  assumes d: "distinct (map al_id as)" and r: "resolve_alert_by_user adb u who now i as = Inr (as', c)"
  shows "own_update adb u who now as as'"
proof -
  let ?p = "\<lambda>a. al_id a = i \<and> al_status a \<noteq> Resolved" and ?f = "manual_resolve ''manual'' who now"
  obtain acct where acct: "require_alert_access adb u as i = Inr acct"
    using r by (cases "require_alert_access adb u as i") (auto simp: resolve_alert_by_user_def)
  then have "as' = update_where ?p ?f as"
    using r by (auto simp: resolve_alert_by_user_def Let_def split: if_splits)
  moreover have "own_update adb u who now as (update_where ?p ?f as)"
    using require_access_may_see [OF acct d] by (intro own_updateI) (auto simp: acts_def is_open_iff)
  ultimately show ?thesis by simp
qed

lemma mute_own:
  assumes d: "distinct (map al_id as)" and r: "mute_alert adb u n now i as = Inr as'"
  shows "own_update adb u who now as as'"
proof -
  let ?p = "\<lambda>a. al_id a = i \<and> is_open a" and ?f = "\<lambda>a. a\<lparr>al_muted_until := Some (now + n * 60)\<rparr>"
  obtain acct where acct: "require_alert_access adb u as i = Inr acct"
    using r by (cases "require_alert_access adb u as i") (auto simp: mute_alert_def)
  then have "as' = update_where ?p ?f as"
    using r by (auto simp: mute_alert_def Let_def split: if_splits)
  moreover have "own_update adb u who now as (update_where ?p ?f as)"
    using require_access_may_see [OF acct d] by (intro own_updateI) (auto simp: acts_def)
  ultimately show ?thesis by simp
qed

lemma unmute_own:
  assumes d: "distinct (map al_id as)" and r: "unmute_alert adb u i as = Inr as'"
  shows "own_update adb u who now as as'"
proof -
  obtain acct where acct: "require_alert_access adb u as i = Inr acct"
    using r by (cases "require_alert_access adb u as i") (auto simp: unmute_alert_def)
  then have "as' = update_where (\<lambda>a. al_id a = i) (\<lambda>a. a\<lparr>al_muted_until := None\<rparr>) as"
    using r by (simp add: unmute_alert_def)
  moreover have "own_update adb u who now as (update_where (\<lambda>a. al_id a = i) (\<lambda>a. a\<lparr>al_muted_until := None\<rparr>) as)"
    using require_access_may_see [OF acct d] by (intro own_updateI) (auto simp: acts_def)
  ultimately show ?thesis by simp
qed

lemma ack_group_own: "own_update adb u who now as (fst (ack_group adb u who now gk as))"
proof (cases "scope_sql adb u")
  case None
  then show ?thesis by (simp add: ack_group_def)
next
  case (Some sc)
  have "own_update adb u who now as
      (update_where (\<lambda>a. al_group_key a = gk \<and> al_status a = Active \<and> sc a) (ack who now) as)"
    using scope_sql_may_see [OF Some] by (intro own_updateI) (auto simp: acts_def)
  with Some show ?thesis by (simp add: ack_group_def Let_def)
qed

lemma clear_own:
  assumes r: "clear_alerts adb u who now ai as = Inr (as', n)"
  shows "own_update adb u who now as as'"
proof -
  have upd: "own_update adb u who now as
      (update_where (\<lambda>a. al_status a = Active \<and> \<not> al_acked a \<and> sc a) (manual_resolve ''bulk_clear'' who now) as)"
    if "\<And>a. sc a \<Longrightarrow> may_see adb u a" for sc
    using that by (intro own_updateI) (auto simp: acts_def is_open_def)
  show ?thesis
  proof (cases ai)
    case None
    show ?thesis
    proof (cases "scope_sql adb u")
      case (Some sc)
      then show ?thesis using upd [of sc] scope_sql_may_see [OF Some] r None
        by (auto simp: clear_alerts_def Let_def)
    qed (use r None in \<open>simp add: clear_alerts_def\<close>)
  next
    case (Some i)
    have "may_see adb u a" if "al_account a = Some i" for a
      using r Some that by (cases "get_accessible_account_ids adb u") (auto simp: clear_alerts_def may_see_def split: if_splits)
    then show ?thesis using upd [of "\<lambda>a. al_account a = Some i"] r Some
      by (simp add: clear_alerts_def Let_def split: if_splits)
  qed
qed

lemma perform_own:
  assumes "distinct (map al_id as)"
  shows "own_update adb u who now as (perform adb u who now x as)"
  unfolding perform_def
  by (cases x)
     (auto split: sum.split prod.split intro: ack_own resolve_own mute_own unmute_own ack_group_own
        clear_own assms)

text \<open>The same, row by row.\<close>

lemma perform_rows:
  assumes "distinct (map al_id as)"
  shows "list_all2 (\<lambda>a b. b = a \<or> (may_see adb u a \<and> alert_ident b = alert_ident a \<and>
        ((al_status a = Active \<and> b = ack who now a) \<or>
         (is_open a \<and> (b = manual_resolve ''manual'' who now a \<or> b = manual_resolve ''bulk_clear'' who now a)) \<or>
         b = a\<lparr>al_muted_until := al_muted_until b\<rparr>)))
       as (perform adb u who now x as)"
proof -
  obtain p f where pf: "perform adb u who now x as = update_where p f as"
    "\<And>a. a \<in> set as \<Longrightarrow> p a \<Longrightarrow> may_see adb u a \<and> acts who now a (f a)"
    using perform_own [OF assms] unfolding own_update_def by blast
  show ?thesis unfolding pf(1)
    by (auto simp: list_all2_conv_all_nth update_where_def dest!: pf(2) [OF nth_mem] simp: acts_def)
qed

end
