(* ===== verification/Synth_Guard.thy ===== *)
theory Synth_Guard
  imports Prelude "HOL-Library.Word"
begin

unbundle bit_operations_syntax

text \<open>
  The address guard of \<open>app/collector/synthetic.py\<close>: a probe may not be pointed at the machine
  itself, at the cloud's metadata service or at private networks that are not explicitly allowed.
  Addresses are 32-bit and 128-bit words; the address classes are those of the standard library's
  \<open>ipaddress\<close> module (CPython 3.11), as lists of networks. The text form of an address is parsed
  before, and \<open>getaddrinfo\<close> is an argument.
\<close>

subsection \<open>Networks\<close>

text \<open>A network is the value of its first bits and their number.\<close>

type_synonym 'a network = "'a word \<times> nat"

definition in_net :: "'a::len word \<Rightarrow> 'a network \<Rightarrow> bool" where
  "in_net a n \<longleftrightarrow> drop_bit (LENGTH('a) - snd n) a = fst n"

definition quad :: "int \<Rightarrow> int \<Rightarrow> int \<Rightarrow> int \<Rightarrow> int" where
  "quad a b c d = ((a * 256 + b) * 256 + c) * 256 + d"

definition net4 :: "int \<Rightarrow> int \<Rightarrow> int \<Rightarrow> int \<Rightarrow> nat \<Rightarrow> 32 network" where
  "net4 a b c d p = (word_of_int (quad a b c d div 2 ^ (32 - p)), p)"

datatype ip = V4 "32 word" | V6 "128 word"

datatype net = N4 "32 network" | N6 "128 network"

subsection \<open>Address classes\<close>

definition loopback4 :: "32 network" where
  "loopback4 = net4 127 0 0 0 8"

definition link_local4 :: "32 network" where
  "link_local4 = net4 169 254 0 0 16"

definition multicast4 :: "32 network" where
  "multicast4 = net4 224 0 0 0 4"

definition reserved4 :: "32 network" where
  "reserved4 = net4 240 0 0 0 4"

definition shared4 :: "32 network" where
  "shared4 = net4 100 64 0 0 10"

definition this_network :: "32 network" where
  "this_network = net4 0 0 0 0 8"

definition private4 :: "32 network list" where
  "private4 =
     [this_network, net4 10 0 0 0 8, loopback4, link_local4, net4 172 16 0 0 12, net4 192 0 0 0 24,
      net4 192 0 0 170 31, net4 192 0 2 0 24, net4 192 168 0 0 16, net4 198 18 0 0 15,
      net4 198 51 100 0 24, net4 203 0 113 0 24, reserved4, net4 255 255 255 255 32]"

definition private_exceptions4 :: "32 network list" where
  "private_exceptions4 = [net4 192 0 0 9 32, net4 192 0 0 10 32]"

definition in_any :: "'a::len word \<Rightarrow> 'a network list \<Rightarrow> bool" where
  "in_any a ns = list_ex (in_net a) ns"

definition is_private4 :: "32 word \<Rightarrow> bool" where
  "is_private4 a \<longleftrightarrow> in_any a private4 \<and> \<not> in_any a private_exceptions4"

definition is_global4 :: "32 word \<Rightarrow> bool" where
  "is_global4 a \<longleftrightarrow> \<not> in_net a shared4 \<and> \<not> is_private4 a"

definition private6 :: "128 network list" where
  "private6 =
     [(1, 128), (0, 128), (0xffff, 96), (0x64ff9b0001, 48), (0x100000000000000, 64), (0x100080, 23),
      (0x20010db8, 32), (0x2002, 16), (0x7e, 7), (0x3fa, 10)]"

definition private_exceptions6 :: "128 network list" where
  "private_exceptions6 =
     [(0x20010001000000000000000000000001, 128), (0x20010001000000000000000000000002, 128),
      (0x20010003, 32), (0x200100040112, 48), (0x2001002, 28), (0x2001003, 28)]"

definition reserved6 :: "128 network list" where
  "reserved6 =
     [(0, 8), (1, 8), (1, 7), (1, 6), (1, 5), (1, 4), (2, 3), (3, 3), (4, 3), (5, 3), (6, 3), (0xe, 4),
      (0x1e, 5), (0x3e, 6), (0x1fc, 9)]"

definition link_local6 :: "128 network" where
  "link_local6 = (0x3fa, 10)"

definition multicast6 :: "128 network" where
  "multicast6 = (0xff, 8)"

definition NAT64_PREFIX :: "128 network" where
  "NAT64_PREFIX = (0x64ff9b0000000000000000, 96)"

definition is_private6 :: "128 word \<Rightarrow> bool" where
  "is_private6 a \<longleftrightarrow> in_any a private6 \<and> \<not> in_any a private_exceptions6"

subsection \<open>The verdict\<close>

definition ipv4_mapped :: "128 word \<Rightarrow> 32 word option" where
  "ipv4_mapped a = (if drop_bit 32 a = 0xffff then Some (ucast a) else None)"

text \<open>An IPv4 address inside an IPv6 one is judged as what it is.\<close>

definition unwrap :: "ip \<Rightarrow> ip" where
  "unwrap i =
     (case i of
        V4 a \<Rightarrow> V4 a
      | V6 a \<Rightarrow> (case ipv4_mapped a of
                   Some v \<Rightarrow> V4 v
                 | None \<Rightarrow> if in_net a NAT64_PREFIX then V4 (ucast a) else V6 a))"

definition never_allowed :: "ip \<Rightarrow> bool" where
  "never_allowed i =
     (case i of
        V4 a \<Rightarrow> in_net a loopback4 \<or> in_net a link_local4 \<or> in_net a multicast4 \<or> a = 0 \<or>
                in_net a reserved4 \<or> in_net a this_network
      | V6 a \<Rightarrow> a = 1 \<or> in_net a link_local6 \<or> in_net a multicast6 \<or> a = 0 \<or> in_any a reserved6)"

definition ip_is_global :: "ip \<Rightarrow> bool" where
  "ip_is_global i = (case i of V4 a \<Rightarrow> is_global4 a | V6 a \<Rightarrow> \<not> is_private6 a)"

definition allowed_in :: "ip \<Rightarrow> net \<Rightarrow> bool" where
  "allowed_in i n = (case (i, n) of (V4 a, N4 m) \<Rightarrow> in_net a m | (V6 a, N6 m) \<Rightarrow> in_net a m | _ \<Rightarrow> False)"

text \<open>
  The configured exceptions: a comma-separated list whose entries that do not read as a network are
  skipped; \<open>ip_network\<close> reads one.
\<close>

definition load_allowed_private_nets :: "(string \<Rightarrow> net option) \<Rightarrow> string option \<Rightarrow> net list" where
  "load_allowed_private_nets ip_network env =
     List.map_filter (\<lambda>raw0. let raw = strip raw0 in if raw = [] then None else ip_network raw)
       (split_ch (CHR '','') (case env of None \<Rightarrow> [] | Some v \<Rightarrow> v))"

definition is_blocked_ip :: "net list \<Rightarrow> ip \<Rightarrow> bool" where
  "is_blocked_ip allowed i0 =
     (let i = unwrap i0 in
      if never_allowed i then True
      else if \<not> ip_is_global i then \<not> list_ex (allowed_in i) allowed
      else False)"

subsection \<open>Resolving a host\<close>

datatype resolve_error = UnsafeTarget string | GaiError

definition rstrip_ch :: "(char \<Rightarrow> bool) \<Rightarrow> string \<Rightarrow> string" where
  "rstrip_ch p s = rev (dropWhile p (rev s))"

definition strip_ch :: "(char \<Rightarrow> bool) \<Rightarrow> string \<Rightarrow> string" where
  "strip_ch p s = rstrip_ch p (dropWhile p s)"

definition clean_host :: "string option \<Rightarrow> string" where
  "clean_host host =
     rstrip_ch (\<lambda>c. c = CHR ''.'')
       (strip_ch (\<lambda>c. c \<in> set ''[]'') (strip (case host of None \<Rightarrow> [] | Some h \<Rightarrow> h)))"

text \<open>\<open>getaddrinfo\<close> answers with addresses or fails (\<open>None\<close>).\<close>

definition resolve_safe_ip ::
  "net list \<Rightarrow> (string \<Rightarrow> int \<Rightarrow> ip list option) \<Rightarrow> string option \<Rightarrow> int \<Rightarrow> resolve_error + ip" where
  "resolve_safe_ip allowed getaddrinfo host0 port =
     (let host = clean_host host0 in
      if host = [] then Inl (UnsafeTarget ''empty host'')
      else
        (case getaddrinfo host port of
           None \<Rightarrow> Inl GaiError
         | Some [] \<Rightarrow> Inl GaiError
         | Some (a # as) \<Rightarrow>
             if list_ex (is_blocked_ip allowed) (a # as)
             then Inl (UnsafeTarget (''target '' @ host @ '' resolves to a blocked (internal/metadata) address''))
             else Inr a))"

subsection \<open>Networks as ranges\<close>

lemma uint_drop_bit: "uint (drop_bit n w) = uint w div 2 ^ n" for w :: "'a::len word"
proof -
  have "uint (drop_bit n w) = drop_bit n (uint w)"
    by (simp only: unsigned_drop_bit_eq bintr_uint [OF order_refl])
  then show ?thesis by (simp only: drop_bit_eq_div)
qed

lemma in_net_range:
  fixes a :: "'a::len word"
  shows "in_net a (b, p) \<longleftrightarrow> uint b * 2 ^ (LENGTH('a) - p) \<le> uint a \<and> uint a < (uint b + 1) * 2 ^ (LENGTH('a) - p)"
proof -
  let ?q = "2 ^ (LENGTH('a) - p) :: int"
  have q: "0 < ?q" by simp
  have "in_net a (b, p) \<longleftrightarrow> uint a div ?q = uint b"
    by (simp only: in_net_def uint_drop_bit word_uint_eq_iff fst_conv snd_conv)
  also have "\<dots> \<longleftrightarrow> uint b * ?q \<le> uint a \<and> uint a < (uint b + 1) * ?q"
  proof
    assume "uint a div ?q = uint b"
    then have "uint a = uint b * ?q + uint a mod ?q" using div_mult_mod_eq [of "uint a" ?q] by simp
    moreover have m: "0 \<le> uint a mod ?q" "uint a mod ?q < ?q" using q by simp_all
    ultimately show "uint b * ?q \<le> uint a \<and> uint a < (uint b + 1) * ?q"
      unfolding distrib_right by linarith
  next
    assume h: "uint b * ?q \<le> uint a \<and> uint a < (uint b + 1) * ?q"
    show "uint a div ?q = uint b"
      by (rule int_div_pos_eq [where r = "uint a - uint b * ?q"]) (use h in \<open>simp_all add: algebra_simps\<close>)
  qed
  finally show ?thesis .
qed

lemma net4_range:
  assumes "0 \<le> quad a b c d div 2 ^ (32 - p)" "quad a b c d div 2 ^ (32 - p) < 2 ^ 32"
  shows "in_net v (net4 a b c d p) \<longleftrightarrow>
     quad a b c d div 2 ^ (32 - p) * 2 ^ (32 - p) \<le> uint v \<and>
     uint v < (quad a b c d div 2 ^ (32 - p) + 1) * 2 ^ (32 - p)"
  using assms by (simp add: net4_def in_net_range uint_word_of_int take_bit_int_eq_self)

subsection \<open>What the guard keeps out\<close>

text \<open>The IPv4 address an address stands for, as a number.\<close>

definition carries :: "ip \<Rightarrow> int \<Rightarrow> bool" where
  "carries i n \<longleftrightarrow> 0 \<le> n \<and> n < 2 ^ 32 \<and>
     (case i of
        V4 v \<Rightarrow> uint v = n
      | V6 a \<Rightarrow> uint a = 0xffff * 2 ^ 32 + n \<or> uint a = 0x64ff9b * 2 ^ 96 + n)"

lemma uint_low_half:
  assumes "uint (a :: 128 word) = k * 2 ^ 32 + n" "0 \<le> n" "n < 2 ^ 32"
  shows "uint (ucast a :: 32 word) = n" "uint (drop_bit 32 a) = k"
proof -
  have "uint (ucast a :: 32 word) = uint a mod 2 ^ 32"
    by (simp add: unsigned_ucast_eq take_bit_eq_mod)
  then show "uint (ucast a :: 32 word) = n" using assms by simp
  show "uint (drop_bit 32 a) = k" using assms by (simp only: uint_drop_bit) simp
qed

lemma unwrap_carries:
  assumes "carries i n"
  shows "\<exists>v. unwrap i = V4 v \<and> uint v = n"
proof (cases i)
  case (V4 v)
  then show ?thesis using assms by (simp add: unwrap_def carries_def)
next
  case (V6 a)
  have n: "0 \<le> n" "n < 2 ^ 32" using assms by (simp_all add: carries_def)
  consider (mapped) "uint a = 0xffff * 2 ^ 32 + n" | (nat64) "uint a = (0x64ff9b * 2 ^ 64) * 2 ^ 32 + n"
    using assms V6 by (auto simp: carries_def)
  then show ?thesis
  proof cases
    case mapped
    note m = uint_low_half [OF mapped n]
    have "drop_bit 32 a = 0xffff" using m(2) by (simp add: word_uint_eq_iff)
    then show ?thesis using V6 m(1) by (simp add: unwrap_def ipv4_mapped_def)
  next
    case nat64
    note m = uint_low_half [OF nat64 n]
    have "drop_bit 32 a = 0x64ff9b0000000000000000" using m(2) by (simp add: word_uint_eq_iff)
    then show ?thesis using V6 m(1) by (simp add: unwrap_def ipv4_mapped_def in_net_def NAT64_PREFIX_def)
  qed
qed

lemma blocked_ranges:
  assumes "\<not> is_blocked_ip allowed i" "carries i n"
  shows "\<not> (quad 127 0 0 0 \<le> n \<and> n \<le> quad 127 255 255 255)"
    "\<not> (quad 169 254 0 0 \<le> n \<and> n \<le> quad 169 254 255 255)"
    "\<not> n \<le> quad 0 255 255 255" "n < quad 224 0 0 0"
proof -
  obtain v where v: "unwrap i = V4 v" "uint v = n" using unwrap_carries [OF assms(2)] by blast
  then have not: "\<not> in_net v loopback4" "\<not> in_net v link_local4" "\<not> in_net v this_network"
    "\<not> in_net v multicast4" "\<not> in_net v reserved4"
    using assms(1) by (auto simp: is_blocked_ip_def never_allowed_def split: if_splits)
  have n: "0 \<le> n" "n < 2 ^ 32" using assms(2) by (simp_all add: carries_def)
  show "\<not> (quad 127 0 0 0 \<le> n \<and> n \<le> quad 127 255 255 255)"
    using not(1) v(2) by (auto simp: loopback4_def net4_range quad_def)
  show "\<not> (quad 169 254 0 0 \<le> n \<and> n \<le> quad 169 254 255 255)"
    using not(2) v(2) by (auto simp: link_local4_def net4_range quad_def)
  show "\<not> n \<le> quad 0 255 255 255"
    using not(3) v(2) n by (simp add: this_network_def net4_range quad_def)
  show "n < quad 224 0 0 0"
    using not(4,5) v(2) n by (simp add: multicast4_def reserved4_def net4_range quad_def)
qed

lemma private_ranges:
  assumes "\<not> is_blocked_ip [] i" "carries i n"
  shows "\<not> (quad 10 0 0 0 \<le> n \<and> n \<le> quad 10 255 255 255)"
    "\<not> (quad 172 16 0 0 \<le> n \<and> n \<le> quad 172 31 255 255)"
    "\<not> (quad 192 168 0 0 \<le> n \<and> n \<le> quad 192 168 255 255)"
    "\<not> (quad 100 64 0 0 \<le> n \<and> n \<le> quad 100 127 255 255)"
proof -
  obtain v where v: "unwrap i = V4 v" "uint v = n" using unwrap_carries [OF assms(2)] by blast
  then have g: "is_global4 v"
    using assms(1) by (auto simp: is_blocked_ip_def ip_is_global_def Let_def split: if_splits)
  have not: "\<not> in_net v m" if "m \<in> set private4" "\<not> in_any v private_exceptions4" for m
    using g that by (auto simp: is_global4_def is_private4_def in_any_def list_ex_iff)
  have exc: "in_any v private_exceptions4 \<Longrightarrow> quad 192 0 0 9 \<le> n \<and> n \<le> quad 192 0 0 10"
    using v(2) by (auto simp: in_any_def private_exceptions4_def net4_range quad_def)
  have mem: "net4 10 0 0 0 8 \<in> set private4" "net4 172 16 0 0 12 \<in> set private4" "net4 192 168 0 0 16 \<in> set private4"
    by (simp_all add: private4_def)
  show "\<not> (quad 10 0 0 0 \<le> n \<and> n \<le> quad 10 255 255 255)"
    using not [OF mem(1)] exc v(2) by (cases "in_any v private_exceptions4") (auto simp: net4_range quad_def)
  show "\<not> (quad 172 16 0 0 \<le> n \<and> n \<le> quad 172 31 255 255)"
    using not [OF mem(2)] exc v(2) by (cases "in_any v private_exceptions4") (auto simp: net4_range quad_def)
  show "\<not> (quad 192 168 0 0 \<le> n \<and> n \<le> quad 192 168 255 255)"
    using not [OF mem(3)] exc v(2) by (cases "in_any v private_exceptions4") (auto simp: net4_range quad_def)
  show "\<not> (quad 100 64 0 0 \<le> n \<and> n \<le> quad 100 127 255 255)"
    using g v(2) by (auto simp: is_global4_def shared4_def net4_range quad_def)
qed

lemma resolved_is_safe:
  "resolve_safe_ip allowed gai host port = Inr i \<Longrightarrow>
     \<exists>as. gai (clean_host host) port = Some (i # as) \<and> list_all (\<lambda>j. \<not> is_blocked_ip allowed j) (i # as)"
  by (auto simp: resolve_safe_ip_def Let_def list_all_iff list_ex_iff split: if_splits option.splits list.splits)

end
