(* ===== verification/Synth_Probe.thy ===== *)
theory Synth_Probe
  imports Synth_Guard Env_Polling Env_Classifier
begin

text \<open>
  What a probe of \<open>app/collector/synthetic.py\<close> makes of the answer it gets: status and keyword,
  the TLS facts and handshake errors, the plain-HTTP redirect check with its cached notice, and
  the certificate thresholds. The network is an argument: a request ends in one of the
  outcomes of \<open>http_reply\<close>, a TLS handshake in one of \<open>tls_entry\<close>; \<open>urlsplit\<close>'s result is a
  record. Error texts are clipped as the code clips them.
\<close>

subsection \<open>Limits and settings\<close>

definition MIN_TIMEOUT_SECONDS :: int where
  "MIN_TIMEOUT_SECONDS = 1"

definition MAX_TIMEOUT_SECONDS :: int where
  "MAX_TIMEOUT_SECONDS = 60"

definition MAX_BODY_BYTES :: nat where
  "MAX_BODY_BYTES = 1000000"

definition DEFAULT_CERT_WARN_DAYS :: int where
  "DEFAULT_CERT_WARN_DAYS = 30"

definition DEFAULT_CERT_CRIT_DAYS :: int where
  "DEFAULT_CERT_CRIT_DAYS = 7"

definition env_text :: "environ \<Rightarrow> string \<Rightarrow> string" where
  "env_text osenv name = (case osenv name of None \<Rightarrow> [] | Some v \<Rightarrow> v)"

definition env_days :: "environ \<Rightarrow> string \<Rightarrow> int \<Rightarrow> int" where
  "env_days osenv name dflt =
     (let raw = strip (env_text osenv name) in
      if raw = [] then dflt
      else (let v = (case py_int raw of Some n \<Rightarrow> n | None \<Rightarrow> 0) in if v < 1 then dflt else v))"

definition load_cert_thresholds :: "environ \<Rightarrow> int \<times> int" where
  "load_cert_thresholds osenv =
     (let w = env_days osenv ''SYNTHETIC_CERT_WARN_DAYS'' DEFAULT_CERT_WARN_DAYS;
          c = env_days osenv ''SYNTHETIC_CERT_CRIT_DAYS'' DEFAULT_CERT_CRIT_DAYS
      in if c \<ge> w then (DEFAULT_CERT_WARN_DAYS, DEFAULT_CERT_CRIT_DAYS) else (w, c))"

datatype redirect_mode = RNotice | RStrict | ROff

definition load_redirect_mode :: "environ \<Rightarrow> redirect_mode" where
  "load_redirect_mode osenv =
     (let name = ''SYNTHETIC_HTTPS_REDIRECT_MODE'';
          raw = lower (strip (if env_text osenv name = [] then ''notice'' else env_text osenv name))
      in if raw = ''strict'' then RStrict else if raw = ''off'' then ROff else RNotice)"

text \<open>\<open>int(timeout)\<close> raises on NULL, which gives the default of 10 seconds.\<close>

definition clamp_timeout :: "int option \<Rightarrow> int" where
  "clamp_timeout t =
     max MIN_TIMEOUT_SECONDS (min MAX_TIMEOUT_SECONDS (case t of Some n \<Rightarrow> n | None \<Rightarrow> 10))"

subsection \<open>Targets\<close>

text \<open>\<open>str.partition\<close> and \<open>str.rpartition\<close> at a character: text before, whether found, text after.\<close>

definition partition_ch :: "char \<Rightarrow> string \<Rightarrow> string \<times> bool \<times> string" where
  "partition_ch c s =
     (let a = takeWhile (\<lambda>x. x \<noteq> c) s in (a, c \<in> set s, drop (length a + 1) s))"

definition rpartition_ch :: "char \<Rightarrow> string \<Rightarrow> string \<times> bool \<times> string" where
  "rpartition_ch c s =
     (if c \<in> set s
      then (let b = rev (takeWhile (\<lambda>x. x \<noteq> c) (rev s)) in (take (length s - length b - 1) s, True, b))
      else ([], False, s))"

definition tcp_error :: string where
  "tcp_error = ''tcp target must be host:port''"

definition checked_port :: "string \<Rightarrow> string \<Rightarrow> string + (string \<times> int)" where
  "checked_port host port_str =
     (case py_int port_str of
        None \<Rightarrow> Inl (''invalid literal for int() with base 10: '' @ quoted port_str)
      | Some p \<Rightarrow>
          if host = [] \<or> \<not> (1 \<le> p \<and> p \<le> 65535) then Inl (tcp_error @ '' with port 1-65535'')
          else Inr (host, p))"

definition split_tcp_target :: "string option \<Rightarrow> string + (string \<times> int)" where
  "split_tcp_target target0 =
     (let target = strip (case target0 of None \<Rightarrow> [] | Some t \<Rightarrow> t) in
      if startswith target ''['' then
        (case partition_ch (CHR '']'') (tl target) of
           (host, found, rest) \<Rightarrow>
             if \<not> found \<or> \<not> startswith rest '':'' then Inl tcp_error else checked_port host (tl rest))
      else (case rpartition_ch (CHR '':'') target of (host, found, port_str) \<Rightarrow> checked_port host port_str))"

text \<open>What \<open>urlsplit\<close> gives; reading \<open>.port\<close> may raise (\<open>PortBad\<close>).\<close>

datatype url_port = PortBad | PortNone | PortIs int

record url_parts =
  up_scheme :: string
  up_host :: "string option"
  up_port :: url_port
  up_ip_literal :: bool

datatype check_type = CkHttp | CkHttps | CkTcp | CkDns | CkOther string

definition url_host :: "url_parts \<Rightarrow> int \<Rightarrow> (string \<times> int) option" where
  "url_host u dflt =
     (case up_port u of
        PortBad \<Rightarrow> None
      | PortNone \<Rightarrow> Some (the (up_host u), dflt)
      | PortIs p \<Rightarrow> Some (the (up_host u), if p = 0 then dflt else p))"

text \<open>The shape checks of \<open>validate_target\<close>: the host and port to resolve, nothing to resolve, or an error.\<close>

definition target_host ::
  "check_type \<Rightarrow> string \<Rightarrow> url_parts \<Rightarrow> bool \<Rightarrow> string + (string \<times> int) option" where
  "target_host ct target u strict_scheme =
     (let has_host = truthy_str (up_host u) in
      case ct of
        CkHttps \<Rightarrow>
          if up_scheme u \<noteq> ''https'' \<or> \<not> has_host then
            Inl ''HTTPS checks need a full https:// URL (use the HTTP type for http:// URLs)''
          else (case url_host u 443 of None \<Rightarrow> Inl ''https target has an invalid port'' | Some hp \<Rightarrow> Inr (Some hp))
      | CkHttp \<Rightarrow>
          if up_scheme u \<notin> {''http'', ''https''} \<or> \<not> has_host then
            Inl ''http checks need a full URL (http:// or https://)''
          else if strict_scheme \<and> up_scheme u = ''https'' then Inl (''This is an https:// URL - choose the '' @ quoted ''HTTPS (with certificate check)'' @
            '' check type (the HTTP type is for http:// URLs)'')
          else (case url_host u (if up_scheme u = ''https'' then 443 else 80) of
                  None \<Rightarrow> Inl ''http target has an invalid port'' | Some hp \<Rightarrow> Inr (Some hp))
      | CkTcp \<Rightarrow> (case split_tcp_target (Some target) of Inl e \<Rightarrow> Inl e | Inr hp \<Rightarrow> Inr (Some hp))
      | CkDns \<Rightarrow> if list_ex (\<lambda>c. c \<in> set ''/: '') target then Inl ''dns checks take a bare hostname'' else Inr None
      | CkOther t \<Rightarrow> Inl ''unknown check_type'')"

definition validate_target ::
  "net list \<Rightarrow> (string \<Rightarrow> int \<Rightarrow> ip list option) \<Rightarrow> (string \<Rightarrow> url_parts) \<Rightarrow> check_type \<Rightarrow> string option \<Rightarrow> bool
   \<Rightarrow> string option" where
  "validate_target allowed gai urlsplit ct target0 strict_scheme =
     (let target = strip (case target0 of None \<Rightarrow> [] | Some t \<Rightarrow> t) in
      if target = [] then Some ''target is required''
      else if length target > 500 then Some ''target must be at most 500 characters''
      else
        (case target_host ct target (urlsplit target) strict_scheme of
           Inl e \<Rightarrow> Some e
         | Inr None \<Rightarrow> None
         | Inr (Some (host, port)) \<Rightarrow>
             (case resolve_safe_ip allowed gai (Some host) port of
                Inl (UnsafeTarget e) \<Rightarrow> Some e
              | _ \<Rightarrow> None)))"

definition redirect_check_eligible :: "url_parts \<Rightarrow> bool" where
  "redirect_check_eligible u \<longleftrightarrow>
     up_port u \<in> {PortNone, PortIs 443} \<and> up_scheme u = ''https'' \<and> truthy_str (up_host u) \<and> \<not> up_ip_literal u"

definition validate_https_redirect_option :: "check_type \<Rightarrow> url_parts \<Rightarrow> string option" where
  "validate_https_redirect_option ct u =
     (if ct \<noteq> CkHttps then Some ''expect_https_redirect is only available for HTTPS checks''
      else if up_port u = PortBad then Some ''https target has an invalid port''
      else if up_scheme u \<noteq> ''https'' \<or> up_port u \<notin> {PortNone, PortIs 443} then
        Some ''expect_https_redirect needs an https:// target on the default port (443)''
      else None)"

subsection \<open>An HTTP answer\<close>

text \<open>
  How a request ends: an answer with its status and the text read of its body (at most
  \<open>MAX_BODY_BYTES\<close> bytes), a blocked target, a timeout, or another failure of the request.
\<close>

datatype http_reply = Replied int string | Blocked string | TimedOut | RequestFailed string

definition clip490 :: "string \<Rightarrow> string" where
  "clip490 t = take 490 t"

definition wanted_status :: "int option \<Rightarrow> int" where
  "wanted_status e = (case e of None \<Rightarrow> 200 | Some n \<Rightarrow> if n = 0 then 200 else n)"

record http_result =
  hr_success :: bool
  hr_elapsed_ms :: int
  hr_status :: "int option"
  hr_error :: "string option"

definition probe_http ::
  "http_reply \<Rightarrow> int \<Rightarrow> int option \<Rightarrow> int option \<Rightarrow> string option \<Rightarrow> http_result" where
  "probe_http reply elapsed timeout0 expected_status expected_keyword =
     (case reply of
        Replied status body \<Rightarrow>
          (let want = wanted_status expected_status;
               status_ok = (status = want);
               keyword_ok = (if truthy_str expected_keyword then contains_str body (the expected_keyword) else True);
               reasons = (if status_ok then [] else [''expected status '' @ int_text want @ '', got '' @ int_text status]) @
                         (if keyword_ok then [] else
                            [''expected keyword '' @ quoted (the expected_keyword) @ '' not found in response''])
           in \<lparr>hr_success = status_ok \<and> keyword_ok, hr_elapsed_ms = elapsed, hr_status = Some status,
               hr_error = (if status_ok \<and> keyword_ok then None else Some (clip490 (py_join ''; '' reasons)))\<rparr>)
      | Blocked e \<Rightarrow> \<lparr>hr_success = False, hr_elapsed_ms = elapsed, hr_status = None, hr_error = Some (clip490 (''blocked: '' @ e))\<rparr>
      | TimedOut \<Rightarrow> \<lparr>hr_success = False, hr_elapsed_ms = elapsed, hr_status = None,
          hr_error = Some (''timed out after '' @ int_text (clamp_timeout timeout0) @ ''s'')\<rparr>
      | RequestFailed e \<Rightarrow> \<lparr>hr_success = False, hr_elapsed_ms = elapsed, hr_status = None, hr_error = Some (clip490 e)\<rparr>)"

subsection \<open>TCP and DNS probes\<close>

text \<open>How dialling an address ends.\<close>

datatype dial = Dialled | DialTimedOut | DialFailed string

definition failed_probe :: "int \<Rightarrow> string \<Rightarrow> http_result" where
  "failed_probe elapsed e = \<lparr>hr_success = False, hr_elapsed_ms = elapsed, hr_status = None, hr_error = Some e\<rparr>"

definition probe_tcp ::
  "net list \<Rightarrow> (string \<Rightarrow> int \<Rightarrow> ip list option) \<Rightarrow> string \<Rightarrow> (ip \<Rightarrow> int \<Rightarrow> dial) \<Rightarrow> string \<Rightarrow> int option \<Rightarrow> int
   \<Rightarrow> http_result" where
  "probe_tcp allowed gai gai_error connect target timeout elapsed =
     (case split_tcp_target (Some target) of
        Inl e \<Rightarrow> failed_probe elapsed (clip490 e)
      | Inr (host, port) \<Rightarrow>
          (case resolve_safe_ip allowed gai (Some host) port of
             Inl (UnsafeTarget e) \<Rightarrow> failed_probe elapsed (clip490 (''blocked: '' @ e))
           | Inl GaiError \<Rightarrow> failed_probe elapsed (clip490 gai_error)
           | Inr i \<Rightarrow>
               (case connect i port of
                  Dialled \<Rightarrow> \<lparr>hr_success = True, hr_elapsed_ms = elapsed, hr_status = None, hr_error = None\<rparr>
                | DialTimedOut \<Rightarrow> failed_probe elapsed (''connection timed out after '' @ int_text (clamp_timeout timeout) @ ''s'')
                | DialFailed e \<Rightarrow> failed_probe elapsed (clip490 e))))"

datatype dns_answer = DnsResolved | DnsTimedOut | DnsFailed string

definition probe_dns :: "dns_answer \<Rightarrow> int option \<Rightarrow> int \<Rightarrow> http_result" where
  "probe_dns answer timeout elapsed =
     (case answer of
        DnsResolved \<Rightarrow> \<lparr>hr_success = True, hr_elapsed_ms = elapsed, hr_status = None, hr_error = None\<rparr>
      | DnsTimedOut \<Rightarrow> failed_probe elapsed (''DNS resolution timed out after '' @ int_text (clamp_timeout timeout) @ ''s'')
      | DnsFailed e \<Rightarrow> failed_probe elapsed (clip490 (''DNS resolution failed: '' @ e)))"

subsection \<open>TLS facts\<close>

record tls_facts =
  tf_days_left :: "int option"
  tf_not_after :: "secs option"
  tf_subject :: "string option"
  tf_issuer :: "string option"
  tf_version :: "string option"
  tf_cipher :: "string option"
  tf_handshake_ms :: "int option"
  tf_valid :: "int option"

definition no_tls :: tls_facts where
  "no_tls = \<lparr>tf_days_left = None, tf_not_after = None, tf_subject = None, tf_issuer = None, tf_version = None,
     tf_cipher = None, tf_handshake_ms = None, tf_valid = None\<rparr>"

text \<open>A distinguished name is the flat list of its attributes; the first value of a kind counts.\<close>

definition dn_short :: "(string \<times> string) list \<Rightarrow> string" where
  "dn_short rdns =
     (case map_of rdns ''commonName'' of
        Some (c # cs) \<Rightarrow> take 120 (c # cs)
      | _ \<Rightarrow> (case map_of rdns ''organizationName'' of Some (c # cs) \<Rightarrow> take 120 (c # cs) | _ \<Rightarrow> []))"

record peer_cert =
  pc_not_after :: "secs option"
  pc_subject :: "(string \<times> string) list"
  pc_issuer :: "(string \<times> string) list"
  pc_dns_names :: "string list"

definition text_or_none :: "string \<Rightarrow> string option" where
  "text_or_none s = (if s = [] then None else Some s)"

text \<open>\<open>pc_not_after\<close> is \<open>None\<close> where the date cannot be read. An empty certificate gives no fields.\<close>

definition summarize_peercert :: "peer_cert option \<Rightarrow> secs \<Rightarrow> tls_facts \<Rightarrow> tls_facts" where
  "summarize_peercert cert now info =
     (case cert of
        None \<Rightarrow> info
      | Some c \<Rightarrow>
          (let subject = dn_short (pc_subject c);
               subject' = (if subject \<noteq> [] then subject
                           else take 120 (case pc_dns_names c of [] \<Rightarrow> [] | d # _ \<Rightarrow> d))
           in info\<lparr>tf_days_left := map_option (\<lambda>t. (t - now) div 86400) (pc_not_after c),
                   tf_not_after := pc_not_after c, tf_subject := text_or_none subject',
                   tf_issuer := text_or_none (dn_short (pc_issuer c))\<rparr>))"

text \<open>
  A handshake error: a verification failure with OpenSSL's code and message, another
  \<open>SSLError\<close> with its reason, or some other exception.
\<close>

datatype tls_error = VerifyError "int option" string | SslError string | OtherTlsError string

definition private_ca_hint :: "environ \<Rightarrow> string" where
  "private_ca_hint osenv =
     (if strip (env_text osenv ''SYNTHETIC_CA_BUNDLE'') \<noteq> [] then []
      else '' (private/corporate CA: set SYNTHETIC_CA_BUNDLE on the server)'')"

definition hostname_mismatch :: "int option \<Rightarrow> string \<Rightarrow> bool" where
  "hostname_mismatch code msg \<longleftrightarrow>
     (case code of Some c \<Rightarrow> c \<in> {62, 64}
      | None \<Rightarrow> contains_str (lower msg) ''hostname'' \<or> contains_str msg (''doesn'' @ [CHR 0x27] @ ''t match''))"

definition describe_tls_error :: "environ \<Rightarrow> tls_error \<Rightarrow> string \<Rightarrow> string \<times> bool option" where
  "describe_tls_error osenv exc host0 =
     (let host = (if host0 = [] then ''the host'' else host0) in
      case exc of
        VerifyError code msg \<Rightarrow>
          (if code = Some 10 then ''TLS: certificate has expired''
           else if code = Some 9 then ''TLS: certificate is not yet valid''
           else if hostname_mismatch code msg then
             ''TLS: certificate is not valid for '' @ quoted host @ '' (hostname mismatch)''
           else if code = Some 18 \<or> code = Some 19 then
             ''TLS: self-signed certificate (not trusted)'' @ private_ca_hint osenv
           else if code = Some 20 \<or> code = Some 21 then
             clip490 (''TLS: certificate chain not trusted ('' @ msg @ '') - the server may not be sending its '' @
               ''intermediate certificate, or its issuer is not in the CA bundle'' @ private_ca_hint osenv)
           else clip490 (''TLS: certificate verification failed: '' @ msg), Some False)
      | SslError reason \<Rightarrow> (clip490 (''TLS handshake failed: '' @ reason), None)
      | OtherTlsError e \<Rightarrow> (clip490 (''TLS handshake failed: '' @ e), None))"

subsection \<open>The redirect from plain HTTP\<close>

text \<open>
  The plain-HTTP twin answers with a status, its \<open>Location\<close> and the scheme that leads to, or the
  request fails.
\<close>

datatype redirect_reply = RAnswer int string string | RBlocked string | RTimeout | RFailed string

datatype redirect_state = RedOk | RedNone | RedUnreachable | RedTimeout | RedBlocked

definition redirect_probe :: "string \<Rightarrow> int \<Rightarrow> redirect_reply \<Rightarrow> redirect_state \<times> string option" where
  "redirect_probe url timeout reply =
     (case reply of
        RAnswer status location scheme \<Rightarrow>
          if status \<in> {301, 302, 303, 307, 308} then
            (if scheme = ''https'' then (RedOk, None)
             else (RedNone, Some (take 480 (''expected HTTP->HTTPS redirect from '' @ url @ '', but it redirects to '' @
                     (if location = [] then ''nowhere'' else location)))))
          else (RedNone, Some (take 480 (''expected HTTP->HTTPS redirect from '' @ url @ '', got status '' @
                  int_text status @ '' (no redirect)'')))
      | RBlocked e \<Rightarrow> (RedBlocked, Some (clip490 (''blocked: '' @ e)))
      | RTimeout \<Rightarrow> (RedTimeout, Some (''HTTP->HTTPS redirect check timed out after '' @ int_text timeout @ ''s''))
      | RFailed e \<Rightarrow> (RedUnreachable, Some (clip490 (''expected HTTP->HTTPS redirect, but '' @ url @ '' is not reachable: '' @ e))))"

definition REDIRECT_NOTICE_TTL :: rat where
  "REDIRECT_NOTICE_TTL = 3600"

type_synonym notice_cache = "(nat option \<times> string, rat \<times> string option) dict"

text \<open>\<open>_redirect_notice\<close>: the notice, and the cache after it.\<close>

definition redirect_notice ::
  "notice_cache \<Rightarrow> rat \<Rightarrow> bool \<Rightarrow> nat option \<times> string \<Rightarrow> redirect_state \<times> string option \<Rightarrow> string option \<times> notice_cache" where
  "redirect_notice cache now eligible key answer =
     (if \<not> eligible then (None, cache)
      else
        (case dict_get cache key of
           Some (ts, notice) \<Rightarrow>
             if now - ts < REDIRECT_NOTICE_TTL then (notice, cache)
             else (let n = (if fst answer = RedNone then Some (''Notice: '' @ the (snd answer)) else None)
                   in (n, dict_set cache key (now, n)))
         | None \<Rightarrow>
             (let n = (if fst answer = RedNone then Some (''Notice: '' @ the (snd answer)) else None)
              in (n, dict_set cache key (now, n)))))"

subsection \<open>An HTTPS probe\<close>

datatype tls_entry = TlsInfo tls_facts | TlsFailed tls_error

record https_result =
  hs_success :: bool
  hs_elapsed_ms :: int
  hs_status :: "int option"
  hs_error :: "string option"
  hs_tls :: tls_facts

text \<open>What the connection to the configured host showed, on top of the HTTP verdict.\<close>

definition with_tls :: "environ \<Rightarrow> string \<Rightarrow> tls_entry option \<Rightarrow> http_result \<Rightarrow> https_result" where
  "with_tls osenv host entry h =
     (case entry of
        None \<Rightarrow> \<lparr>hs_success = hr_success h, hs_elapsed_ms = hr_elapsed_ms h, hs_status = hr_status h,
                 hs_error = hr_error h, hs_tls = no_tls\<rparr>
      | Some (TlsInfo i) \<Rightarrow> \<lparr>hs_success = hr_success h, hs_elapsed_ms = hr_elapsed_ms h, hs_status = hr_status h,
                 hs_error = hr_error h, hs_tls = i\<lparr>tf_valid := Some 1\<rparr>\<rparr>
      | Some (TlsFailed e) \<Rightarrow>
          (case describe_tls_error osenv e host of
             (msg, valid) \<Rightarrow> \<lparr>hs_success = False, hs_elapsed_ms = hr_elapsed_ms h, hs_status = hr_status h,
                 hs_error = Some msg, hs_tls = no_tls\<lparr>tf_valid := map_option of_bool valid\<rparr>\<rparr>))"

definition probe_https ::
  "environ \<Rightarrow> redirect_mode \<Rightarrow> string \<Rightarrow> tls_entry option \<Rightarrow> http_result \<Rightarrow> bool \<Rightarrow> bool
   \<Rightarrow> redirect_state \<times> string option \<Rightarrow> notice_cache \<Rightarrow> rat \<Rightarrow> nat option \<times> string
   \<Rightarrow> https_result \<times> notice_cache" where
  "probe_https osenv mode host entry h expect_redirect eligible answer cache now key =
     (let r = with_tls osenv host entry h in
      if hs_success r \<and> (expect_redirect \<or> mode \<noteq> ROff) then
        (if expect_redirect \<or> (mode = RStrict \<and> eligible) then
           (if fst answer = RedOk then (r, cache) else (r\<lparr>hs_success := False, hs_error := snd answer\<rparr>, cache))
         else
           (case redirect_notice cache now eligible key answer of
              (Some n, cache') \<Rightarrow> (r\<lparr>hs_error := Some n\<rparr>, cache')
            | (None, cache') \<Rightarrow> (r, cache')))
      else (r, cache))"

subsection \<open>Certificate thresholds\<close>

definition effective_cert_thresholds :: "int \<times> int \<Rightarrow> int option \<Rightarrow> int option \<Rightarrow> int \<times> int" where
  "effective_cert_thresholds globals w c =
     (case (w, c) of
        (Some warn, Some crit) \<Rightarrow> if 1 \<le> crit \<and> crit < warn then (warn, crit) else globals
      | _ \<Rightarrow> globals)"

definition cert_alert_level :: "int option \<Rightarrow> int \<Rightarrow> int \<Rightarrow> (severity \<times> int) option" where
  "cert_alert_level days_left warn crit =
     (case days_left of
        None \<Rightarrow> None
      | Some d \<Rightarrow> if d \<le> crit then Some (CRITICAL, crit) else if d \<le> warn then Some (WARNING, warn) else None)"

subsection \<open>Facts\<close>

lemma clamp_timeout_bounds: "MIN_TIMEOUT_SECONDS \<le> clamp_timeout t \<and> clamp_timeout t \<le> MAX_TIMEOUT_SECONDS"
  by (simp add: clamp_timeout_def MIN_TIMEOUT_SECONDS_def MAX_TIMEOUT_SECONDS_def)

lemma load_cert_thresholds_sane:
  "1 \<le> snd (load_cert_thresholds osenv) \<and> snd (load_cert_thresholds osenv) < fst (load_cert_thresholds osenv)"
  by (auto simp: load_cert_thresholds_def env_days_def DEFAULT_CERT_WARN_DAYS_def DEFAULT_CERT_CRIT_DAYS_def Let_def)

lemma effective_cert_sane:
  "1 \<le> snd g \<Longrightarrow> snd g < fst g \<Longrightarrow>
     1 \<le> snd (effective_cert_thresholds g w c) \<and>
     snd (effective_cert_thresholds g w c) < fst (effective_cert_thresholds g w c)"
  by (auto simp: effective_cert_thresholds_def split: option.splits)

text \<open>A probe that fails always says why, and a success at most carries a notice.\<close>

lemma probe_http_error: "hr_success (probe_http r e t s k) \<longleftrightarrow> hr_error (probe_http r e t s k) = None"
  by (cases r) (simp_all add: probe_http_def Let_def)

lemma probe_tcp_error: "hr_success (probe_tcp al gai ge con t to e) \<longleftrightarrow> hr_error (probe_tcp al gai ge con t to e) = None"
  by (simp add: probe_tcp_def failed_probe_def split: sum.split prod.split resolve_error.split dial.split)

lemma probe_dns_error: "hr_success (probe_dns a to e) \<longleftrightarrow> hr_error (probe_dns a to e) = None"
  by (cases a) (simp_all add: probe_dns_def failed_probe_def)

lemma redirect_probe_error: "fst (redirect_probe u t r) \<noteq> RedOk \<Longrightarrow> snd (redirect_probe u t r) \<noteq> None"
  by (cases r) (auto simp: redirect_probe_def)

lemma checked_port_bounds: "checked_port h p = Inr (h', n) \<Longrightarrow> h' = h \<and> h \<noteq> [] \<and> 1 \<le> n \<and> n \<le> 65535"
  by (auto simp: checked_port_def split: option.splits if_splits)

lemma split_tcp_bounds: "split_tcp_target t = Inr (h, n) \<Longrightarrow> h \<noteq> [] \<and> 1 \<le> n \<and> n \<le> 65535"
  by (auto simp: split_tcp_target_def Let_def dest: checked_port_bounds split: if_splits prod.splits)

text \<open>A host and a port read back from the target they are written as, IPv6 hosts in brackets.\<close>

definition tcp_target :: "string \<Rightarrow> int \<Rightarrow> string" where
  "tcp_target host port =
     (if CHR '':'' \<in> set host then ''['' @ host @ '']:'' @ int_text port else host @ '':'' @ int_text port)"

lemma rpartition_last:
  assumes "c \<notin> set b"
  shows "rpartition_ch c (a @ c # b) = (a, True, b)"
proof -
  have "takeWhile (\<lambda>x. x \<noteq> c) (rev b @ c # rev a) = rev b"
    using assms by (subst takeWhile_append2) auto
  then show ?thesis by (simp add: rpartition_ch_def)
qed

lemma partition_first:
  assumes "c \<notin> set a"
  shows "partition_ch c (a @ c # b) = (a, True, b)"
proof -
  have "takeWhile (\<lambda>x. x \<noteq> c) (a @ c # b) = a" using assms by (subst takeWhile_append2) auto
  then show ?thesis by (simp add: partition_ch_def)
qed

lemma port_text_class: "0 \<le> port \<Longrightarrow> CHR '':'' \<notin> set (int_text port) \<and> list_all (\<lambda>c. \<not> is_space_ch c) (int_text port)"
  using nat_text_digits [of "nat port"] digit_ch_class by (auto simp: int_text_def list_all_iff)

lemma tcp_target_reads_back:
  assumes host: "host \<noteq> []" "list_all (\<lambda>c. \<not> is_space_ch c) host" "CHR '']'' \<notin> set host" "hd host \<noteq> CHR ''[''"
    and port: "1 \<le> port" "port \<le> 65535"
  shows "split_tcp_target (Some (tcp_target host port)) = Inr (host, port)"
proof -
  have pt: "CHR '':'' \<notin> set (int_text port)" "list_all (\<lambda>c. \<not> is_space_ch c) (int_text port)"
    using port_text_class [of port] port by auto
  have sep: "\<not> is_space_ch (CHR '':'')" "\<not> is_space_ch (CHR ''['')" "\<not> is_space_ch (CHR '']'')"
    by (simp_all add: is_space_ch_def ch_code_def)
  have st: "strip (tcp_target host port) = tcp_target host port"
    using host(2) pt(2) sep by (intro strip_no_space) (auto simp: tcp_target_def list_all_iff)
  have cp: "checked_port host (int_text port) = Inr (host, port)"
    using host(1) port by (simp add: checked_port_def py_int_text)
  show ?thesis
  proof (cases "CHR '':'' \<in> set host")
    case True
    have "partition_ch (CHR '']'') (host @ CHR '']'' # CHR '':'' # int_text port) = (host, True, CHR '':'' # int_text port)"
      by (rule partition_first [OF host(3)])
    with True st cp show ?thesis by (simp add: split_tcp_target_def tcp_target_def)
  next
    case False
    have "\<not> startswith (host @ CHR '':'' # int_text port) ''[''" using host(1,4) by (cases host) auto
    with False st cp rpartition_last [OF pt(1), of host] show ?thesis
      by (simp add: split_tcp_target_def tcp_target_def)
  qed
qed

end
