(* ===== verification/Alert_Writer.thy ===== *)
theory Alert_Writer
  imports Alert_Evaluator
begin

text \<open>
  How the parts that raise their own alerts (synthetic checks, the host-agent watchdog, the cost
  check, anomaly detection) write the table \<open>alerts\<close>: they look for the open alert of a key,
  refresh it or insert one, and resolve with an UPDATE guarded by the open statuses. The
  interface \<open>alert_writer\<close> is what they share: a refresh that keeps the row's identity and
  status, and an insert of an open row of the key. Each of them interprets it.
\<close>

subsection \<open>Operations\<close>

text \<open>\<open>SELECT ... AND status IN ('active', 'acknowledged') ORDER BY id LIMIT 1\<close>.\<close>

definition open_of :: "alert_key \<Rightarrow> alert list \<Rightarrow> alert option" where
  "open_of k as = find (\<lambda>a. key_matches k a \<and> is_open a) as"

definition add_alert :: "(nat \<Rightarrow> alert) \<Rightarrow> store \<Rightarrow> store" where
  "add_alert f db = db\<lparr>st_alerts := st_alerts db @ [f (st_next_id db)], st_next_id := st_next_id db + 1\<rparr>"

text \<open>Refresh the open alert of the key, or open one.\<close>

definition upsert_alert :: "alert_key \<Rightarrow> (alert \<Rightarrow> alert) \<Rightarrow> (nat \<Rightarrow> alert) \<Rightarrow> store \<Rightarrow> store" where
  "upsert_alert k touch mk db =
     (case open_of k (st_alerts db) of
        Some ex \<Rightarrow> db\<lparr>st_alerts := update_where (by_id (al_id ex)) touch (st_alerts db)\<rparr>
      | None \<Rightarrow> add_alert mk db)"

text \<open>\<open>UPDATE alerts SET status = 'resolved', ... WHERE ... AND status IN ('active', 'acknowledged')\<close>.\<close>

definition resolve_seen :: "string \<Rightarrow> secs \<Rightarrow> alert \<Rightarrow> alert" where
  "resolve_seen reason now a = (resolve_alert reason now a)\<lparr>al_last_seen_at := Some now\<rparr>"

definition resolve_where :: "(alert \<Rightarrow> bool) \<Rightarrow> string \<Rightarrow> secs \<Rightarrow> store \<Rightarrow> store" where
  "resolve_where p reason now db =
     db\<lparr>st_alerts := update_where (\<lambda>a. p a \<and> is_open a) (resolve_seen reason now) (st_alerts db)\<rparr>"

subsection \<open>The open alert of a key\<close>

lemma open_of_Some: "open_of k as = Some a \<Longrightarrow> a \<in> set as \<and> key_matches k a \<and> is_open a"
  by (auto simp: open_of_def dest: find_SomeD)

lemma open_of_None: "open_of k as = None \<longleftrightarrow> open_count k as = 0"
  by (auto simp: open_of_def open_count_def find_None_iff filter_empty_conv)

definition open_alerts :: "alert_key \<Rightarrow> alert list \<Rightarrow> alert list" where
  "open_alerts k as = filter (\<lambda>a. key_matches k a \<and> is_open a) as"

lemma open_of_only:
  assumes "one_open_per_key as"
  shows "open_alerts k as = (case open_of k as of None \<Rightarrow> [] | Some a \<Rightarrow> [a])"
proof -
  have "length (open_alerts k as) \<le> 1"
    using assms unfolding one_open_per_key_def open_count_def open_alerts_def by blast
  then show ?thesis
    unfolding open_of_def find_filter_hd open_alerts_def
    by (cases "filter (\<lambda>a. key_matches k a \<and> is_open a) as") simp_all
qed

text \<open>An update that keeps identity and openness maps through any such selection.\<close>

lemma filter_update_where:
  assumes "\<And>a. q (f a) = q a"
  shows "filter q (update_where p f as) = update_where p f (filter q as)"
  using assms by (induction as) (auto simp: update_where_Cons)

definition keeps :: "(alert \<Rightarrow> alert) \<Rightarrow> bool" where
  "keeps f \<longleftrightarrow> (\<forall>a. alert_ident (f a) = alert_ident a \<and> is_open (f a) = is_open a)"

lemma keepsD: "keeps f \<Longrightarrow> alert_ident (f a) = alert_ident a" "keeps f \<Longrightarrow> is_open (f a) = is_open a"
  by (simp_all add: keeps_def)

lemma keeps_key: "keeps f \<Longrightarrow> key_matches k (f a) = key_matches k a"
  by (rule key_matches_ident) (rule keepsD)

definition makes :: "alert_key \<Rightarrow> (nat \<Rightarrow> alert) \<Rightarrow> bool" where
  "makes k mk \<longleftrightarrow> (\<forall>i. al_id (mk i) = i \<and> is_open (mk i) \<and> (\<forall>k'. key_matches k' (mk i) \<longleftrightarrow> k' = k))"

lemma makesD:
  assumes "makes k mk"
  shows "al_id (mk i) = i" "is_open (mk i)" "key_matches k' (mk i) \<longleftrightarrow> k' = k"
  using assms unfolding makes_def by blast+

lemma refresh_store_ok:
  assumes "keeps f" "store_ok now db"
  shows "store_ok now (db\<lparr>st_alerts := update_where p f (st_alerts db)\<rparr>)"
proof -
  have "one_open_per_key (update_where p f (st_alerts db))"
    using store_okD(2) [OF assms(2)] by (intro one_open_update_where) (simp_all add: keepsD [OF assms(1)])
  moreover have "ids_ok (db\<lparr>st_alerts := update_where p f (st_alerts db)\<rparr>)"
    using store_okD(1) [OF assms(2)] by (intro ids_ok_update ident_id) (simp_all add: keepsD [OF assms(1)])
  ultimately show ?thesis using assms(2) by (simp add: store_ok_def)
qed

subsection \<open>The interface\<close>

locale alert_writer =
  fixes k :: alert_key and touch :: "alert \<Rightarrow> alert" and mk :: "nat \<Rightarrow> alert"
  assumes touch_keeps: "keeps touch" and made: "makes k mk"
begin

lemma upsert_open:
  assumes "one_open_per_key (st_alerts db)"
  shows "open_alerts k (st_alerts (upsert_alert k touch mk db)) =
     [case open_of k (st_alerts db) of Some ex \<Rightarrow> touch ex | None \<Rightarrow> mk (st_next_id db)]"
proof -
  note one = open_of_only [OF assms, of k]
  have f: "open_alerts k (update_where p touch (st_alerts db)) = update_where p touch (open_alerts k (st_alerts db))" for p
    unfolding open_alerts_def
    by (rule filter_update_where) (simp add: keeps_key [OF touch_keeps] keepsD [OF touch_keeps])
  show ?thesis
  proof (cases "open_of k (st_alerts db)")
    case None
    then show ?thesis using one
      by (simp add: upsert_alert_def add_alert_def open_alerts_def makesD [OF made])
  next
    case (Some ex)
    then show ?thesis using one
      by (simp add: upsert_alert_def f update_where_Cons by_id_def)
  qed
qed

lemma upsert_other:
  assumes "ids_ok db" "k' \<noteq> k"
  shows "filter (key_matches k') (st_alerts (upsert_alert k touch mk db)) = filter (key_matches k') (st_alerts db)"
proof (cases "open_of k (st_alerts db)")
  case None
  then show ?thesis using assms(2) by (simp add: upsert_alert_def add_alert_def makesD [OF made])
next
  case (Some ex)
  note ex = open_of_Some [OF Some]
  have "\<not> by_id (al_id ex) a" if "a \<in> set (st_alerts db)" "key_matches k' a" for a
  proof
    assume "by_id (al_id ex) a"
    then have "a = ex" using assms(1) ex that(1) by (auto simp: ids_ok_def distinct_map inj_on_def by_id_def)
    then show False using key_matches_unique ex that(2) assms(2) by blast
  qed
  then have "update_where (by_id (al_id ex)) touch (filter (key_matches k') (st_alerts db)) =
      filter (key_matches k') (st_alerts db)"
    by (intro update_where_none) simp
  then show ?thesis using Some
    by (simp add: upsert_alert_def filter_update_where keeps_key [OF touch_keeps])
qed

lemma upsert_store_ok:
  assumes "store_ok now db"
  shows "store_ok now (upsert_alert k touch mk db)"
proof (cases "open_of k (st_alerts db)")
  case None
  then have "one_open_per_key (st_alerts db @ [mk (st_next_id db)])"
    using assms by (intro one_open_append [of _ k]) (simp_all add: open_of_None store_ok_def makesD [OF made])
  moreover have "ids_ok (add_alert mk db)"
    using store_okD(1) [OF assms] by (force simp: ids_ok_def add_alert_def makesD [OF made])
  ultimately show ?thesis using None assms by (simp add: upsert_alert_def add_alert_def store_ok_def)
next
  case (Some ex)
  then show ?thesis using refresh_store_ok [OF touch_keeps assms] by (simp add: upsert_alert_def)
qed

end

subsection \<open>Resolving\<close>

lemma resolve_seen_ident [simp]:
  "alert_ident (resolve_seen r now a) = alert_ident a" "\<not> is_open (resolve_seen r now a)"
  by (simp_all add: resolve_seen_def resolve_alert_def alert_ident_def is_open_def)

lemma resolve_where_open:
  assumes "\<And>a. a \<in> set (st_alerts db) \<Longrightarrow> key_matches k a \<Longrightarrow> is_open a \<Longrightarrow> p a"
  shows "open_alerts k (st_alerts (resolve_where p r now db)) = []"
  using assms by (auto simp: open_alerts_def resolve_where_def filter_empty_conv set_update_where
      key_matches_ident [OF resolve_seen_ident(1)])

lemma resolve_where_other:
  assumes "\<And>a. a \<in> set (st_alerts db) \<Longrightarrow> key_matches k a \<Longrightarrow> is_open a \<Longrightarrow> \<not> p a"
  shows "filter (key_matches k) (st_alerts (resolve_where p r now db)) = filter (key_matches k) (st_alerts db)"
proof -
  have "update_where (\<lambda>a. p a \<and> is_open a) (resolve_seen r now) (filter (key_matches k) (st_alerts db)) =
      filter (key_matches k) (st_alerts db)"
    by (rule update_where_none) (use assms in auto)
  then show ?thesis
    by (simp add: resolve_where_def filter_update_where key_matches_ident [OF resolve_seen_ident(1)])
qed

lemma resolve_where_ok:
  assumes "store_ok now db"
  shows "store_ok now (resolve_where p r t db)"
proof -
  have "one_open_per_key (update_where q (resolve_seen r t) (st_alerts db))" for q
    using store_okD(2) [OF assms] by (intro one_open_update_where) simp_all
  moreover have "ids_ok (db\<lparr>st_alerts := update_where q (resolve_seen r t) (st_alerts db)\<rparr>)" for q
    using store_okD(1) [OF assms] by (intro ids_ok_update ident_id) simp_all
  ultimately show ?thesis using assms by (simp add: resolve_where_def store_ok_def)
qed

lemma open_alerts_other:
  "filter (key_matches k) as = filter (key_matches k) bs \<Longrightarrow> open_alerts k as = open_alerts k bs"
proof -
  have eq: "open_alerts k xs = filter is_open (filter (key_matches k) xs)" for xs
    by (simp add: open_alerts_def conj_commute)
  show "filter (key_matches k) as = filter (key_matches k) bs \<Longrightarrow> ?thesis" unfolding eq by (rule arg_cong)
qed

end
