(* ===== verification/Synthetic.thy ===== *)
theory Synthetic
  imports Synth_Probe Alert_Writer
begin

text \<open>
  The loop of \<open>app/collector/synthetic.py\<close>: which checks are due, what a probe writes (result,
  streak and status, resource row, outage and certificate alerts), and the lock that discards the
  probe of a check that was edited meanwhile. People edit checks while probes run; \<open>check_step\<close> is
  that interleaving for one check.
\<close>

subsection \<open>Tables\<close>

datatype check_status = CkUnknown | CkUp | CkDown

record check =
  ck_id :: nat
  ck_account :: nat
  ck_name :: string
  ck_type :: check_type
  ck_target :: string
  ck_expected_status :: "int option"
  ck_keyword :: "string option"
  ck_redirect :: bool
  ck_timeout :: int
  ck_interval :: int
  ck_threshold :: nat
  ck_environment :: string
  ck_enabled :: bool
  ck_cert_warn :: "int option"
  ck_cert_crit :: "int option"
  ck_next_at :: "secs option"
  ck_checked_at :: "secs option"
  ck_target_changed_at :: "secs option"
  ck_failures :: nat
  ck_status :: check_status

record result =
  re_check :: nat
  re_at :: secs
  re_ok :: bool
  re_ms :: "int option"
  re_status :: "int option"
  re_error :: "string option"
  re_tls :: "tls_facts option"

text \<open>What a probe returns; \<open>pb_tls\<close> only for https checks.\<close>

record probe =
  pb_ok :: bool
  pb_ms :: "int option"
  pb_status :: "int option"
  pb_error :: "string option"
  pb_tls :: "tls_facts option"

text \<open>
  \<open>sy_resources\<close> are the rows of \<open>resources\<close> the checks create: account and resource id to name
  and environment.
\<close>

record synth_db =
  sy_checks :: "check list"
  sy_results :: "result list"
  sy_resources :: "(nat \<times> string, string \<times> tier) dict"
  sy_store :: store

subsection \<open>Due checks\<close>

definition MAX_CHECKS_PER_CYCLE :: nat where
  "MAX_CHECKS_PER_CYCLE = 100"

definition is_due :: "secs \<Rightarrow> check \<Rightarrow> bool" where
  "is_due now c \<longleftrightarrow> ck_enabled c \<and> (case ck_next_at c of None \<Rightarrow> True | Some t \<Rightarrow> t \<le> now)"

text \<open>\<open>ORDER BY next_check_at IS NULL DESC, next_check_at ASC LIMIT\<close>.\<close>

definition due_checks :: "secs \<Rightarrow> check list \<Rightarrow> check list" where
  "due_checks now cs =
     (let due = filter (is_due now) cs in
      take MAX_CHECKS_PER_CYCLE
        (filter (\<lambda>c. ck_next_at c = None) due @
         sort_key (\<lambda>c. the (ck_next_at c)) (filter (\<lambda>c. ck_next_at c \<noteq> None) due)))"

subsection \<open>The outage alert\<close>

definition synthetic_resource_id :: "nat \<Rightarrow> string" where
  "synthetic_resource_id i = ''synthetic-'' @ nat_text i"

definition CERT_ALERT_METRIC :: string where
  "CERT_ALERT_METRIC = ''synthetic_cert_expiry''"

definition UPTIME_METRIC :: string where
  "UPTIME_METRIC = ''synthetic_uptime''"

definition check_key :: "check \<Rightarrow> string \<Rightarrow> alert_key" where
  "check_key c metric = (ck_account c, synthetic_resource_id (ck_id c), metric)"

definition synth_alert :: "secs \<Rightarrow> check \<Rightarrow> string \<Rightarrow> severity \<Rightarrow> rat \<Rightarrow> rat \<Rightarrow> rat option \<Rightarrow> nat \<Rightarrow> alert" where
  "synth_alert now c metric sev cur thr breach i =
     \<lparr>al_id = i, al_account = Some (ck_account c), al_resource = synthetic_resource_id (ck_id c),
      al_metric = metric, al_severity = sev, al_environment = to_tier (Some (ck_environment c)),
      al_group_key = (ck_account c, ''synthetic_check'', metric), al_status = Active,
      al_triggered_at = now, al_last_seen_at = Some now, al_cycle_at = None, al_healthy_streak = 0,
      al_current_value = Some cur, al_threshold = Some thr, al_breach_value = breach,
      al_breach_threshold = (if breach = None then None else Some thr), al_silenced = False,
      al_silenced_reason = None, al_muted_until = None, al_acked = False, al_acked_by = None,
      al_acked_at = None, al_resolved_at = None, al_resolution_reason = None, al_resolved_by = None,
      al_escalated_at = None, al_escalated_group = None\<rparr>"

definition refresh_failures :: "secs \<Rightarrow> nat \<Rightarrow> alert \<Rightarrow> alert" where
  "refresh_failures now n a = a\<lparr>al_current_value := Some (of_nat n), al_last_seen_at := Some now\<rparr>"

definition write_or_update_alert :: "secs \<Rightarrow> check \<Rightarrow> store \<Rightarrow> store" where
  "write_or_update_alert now c =
     upsert_alert (check_key c UPTIME_METRIC) (refresh_failures now (ck_failures c))
       (synth_alert now c UPTIME_METRIC CRITICAL (of_nat (ck_failures c)) (of_nat (ck_threshold c)) None)"

definition resolve_synth :: "secs \<Rightarrow> alert_key \<Rightarrow> store \<Rightarrow> store" where
  "resolve_synth now k = resolve_where (key_matches k) ''recovered'' now"

subsection \<open>The certificate alert\<close>

definition cert_touch :: "secs \<Rightarrow> severity \<Rightarrow> int \<Rightarrow> int \<Rightarrow> alert \<Rightarrow> alert" where
  "cert_touch now sev days thr a =
     (let a1 = a\<lparr>al_current_value := Some (of_int days), al_threshold := Some (of_int thr),
                 al_breach_value := Some (of_int days), al_breach_threshold := Some (of_int thr),
                 al_last_seen_at := Some now\<rparr>
      in if al_severity a \<noteq> sev then
           (let a2 = a1\<lparr>al_severity := sev\<rparr> in
            if sev = CRITICAL \<and> al_status a = Acknowledged
            then a2\<lparr>al_status := Active, al_acked := False, al_acked_by := None, al_acked_at := None\<rparr> else a2)
         else a1)"

definition write_or_update_cert_alert :: "secs \<Rightarrow> check \<Rightarrow> int \<Rightarrow> severity \<Rightarrow> int \<Rightarrow> store \<Rightarrow> store" where
  "write_or_update_cert_alert now c days sev thr =
     upsert_alert (check_key c CERT_ALERT_METRIC) (cert_touch now sev days thr)
       (synth_alert now c CERT_ALERT_METRIC sev (of_int days) (of_int thr) (Some (of_int days)))"

definition apply_cert_alert :: "secs \<Rightarrow> int \<times> int \<Rightarrow> check \<Rightarrow> tls_facts \<Rightarrow> store \<Rightarrow> store" where
  "apply_cert_alert now globals c tls db =
     (case tf_days_left tls of
        None \<Rightarrow> db
      | Some days \<Rightarrow>
          (case effective_cert_thresholds globals (ck_cert_warn c) (ck_cert_crit c) of
             (w, k) \<Rightarrow>
               (case cert_alert_level (Some days) w k of
                  None \<Rightarrow> resolve_synth now (check_key c CERT_ALERT_METRIC) db
                | Some (sev, thr) \<Rightarrow> write_or_update_cert_alert now c days sev thr db)))"

subsection \<open>What a probe writes\<close>

definition new_failures :: "check \<Rightarrow> bool \<Rightarrow> nat" where
  "new_failures c ok = (if ok then 0 else ck_failures c + 1)"

definition new_status :: "check \<Rightarrow> bool \<Rightarrow> check_status" where
  "new_status c ok =
     (if ok then CkUp else if new_failures c ok \<ge> ck_threshold c then CkDown else ck_status c)"

datatype outage_change = WentDown | Recovered

text \<open>The UPDATE of the check's row, from the copy \<open>c\<close> that was read before the probe.\<close>

definition update_row :: "secs \<Rightarrow> check \<Rightarrow> bool \<Rightarrow> check \<Rightarrow> check" where
  "update_row now c ok r =
     r\<lparr>ck_checked_at := Some now, ck_next_at := Some (now + ck_interval r),
       ck_failures := new_failures c ok, ck_status := new_status c ok\<rparr>"

definition probe_alerts :: "secs \<Rightarrow> check \<Rightarrow> bool \<Rightarrow> store \<Rightarrow> store" where
  "probe_alerts now c ok db =
     (let c' = c\<lparr>ck_failures := new_failures c ok\<rparr> in
      if new_status c ok = CkDown then write_or_update_alert now c' db
      else if new_status c ok = CkUp \<and> ck_status c = CkDown
      then resolve_synth now (check_key c UPTIME_METRIC) db else db)"

definition outage_event :: "check \<Rightarrow> bool \<Rightarrow> outage_change option" where
  "outage_event c ok =
     (if new_status c ok = CkDown \<and> ck_status c \<noteq> CkDown then Some WentDown
      else if new_status c ok = CkUp \<and> ck_status c = CkDown then Some Recovered else None)"

definition apply_probe :: "secs \<Rightarrow> int \<times> int \<Rightarrow> check \<Rightarrow> probe \<Rightarrow> synth_db \<Rightarrow> synth_db" where
  "apply_probe now globals c pr db =
     \<lparr>sy_checks = update_where (\<lambda>r. ck_id r = ck_id c) (update_row now c (pb_ok pr)) (sy_checks db),
      sy_results = sy_results db @ [\<lparr>re_check = ck_id c, re_at = now, re_ok = pb_ok pr, re_ms = pb_ms pr,
        re_status = pb_status pr, re_error = pb_error pr, re_tls = pb_tls pr\<rparr>],
      sy_resources = dict_set (sy_resources db) (ck_account c, synthetic_resource_id (ck_id c))
        (ck_name c, to_tier (Some (ck_environment c))),
      sy_store = (let st = probe_alerts now c (pb_ok pr) (sy_store db) in
                  case pb_tls pr of None \<Rightarrow> st
                  | Some tls \<Rightarrow> apply_cert_alert now globals (c\<lparr>ck_failures := new_failures c (pb_ok pr)\<rparr>) tls st)\<rparr>"

subsection \<open>The loop\<close>

text \<open>The columns that decide what a probe does, as \<open>_check_unchanged_since_read\<close> compares them.\<close>

definition settings :: "check \<Rightarrow> string \<times> int option \<times> string option \<times> bool \<times> int" where
  "settings c = (ck_target c, ck_expected_status c, ck_keyword c, ck_redirect c, ck_timeout c)"

definition unchanged_since_read :: "check list \<Rightarrow> check \<Rightarrow> bool" where
  "unchanged_since_read cs c \<longleftrightarrow> list_ex (\<lambda>r. ck_id r = ck_id c \<and> ck_enabled r \<and> settings r = settings c) cs"

text \<open>
  One check of the batch: \<open>edit\<close> is what people did to the checks while the probe ran, \<open>outcome\<close>
  the probe (\<open>None\<close> when it raised), \<open>commits\<close> whether the transaction was accepted.
\<close>

definition process_check ::
  "secs \<Rightarrow> int \<times> int \<Rightarrow> (check list \<Rightarrow> check list) \<Rightarrow> probe option \<Rightarrow> bool \<Rightarrow> check \<Rightarrow> synth_db
   \<Rightarrow> synth_db \<times> outage_change option \<times> bool" where
  "process_check now globals edit outcome commits c db =
     (let db1 = db\<lparr>sy_checks := edit (sy_checks db)\<rparr> in
      case outcome of
        None \<Rightarrow> (db1, None, False)
      | Some pr \<Rightarrow>
          if \<not> unchanged_since_read (sy_checks db1) c then (db1, None, False)
          else if \<not> commits then (db1, None, False)
          else (apply_probe now globals c pr db1, outage_event c (pb_ok pr), True))"

fun run_checks ::
  "(nat \<Rightarrow> secs) \<Rightarrow> int \<times> int \<Rightarrow> (nat \<Rightarrow> check list \<Rightarrow> check list) \<Rightarrow> (check \<Rightarrow> probe option) \<Rightarrow> (nat \<Rightarrow> bool)
   \<Rightarrow> check list \<Rightarrow> synth_db \<Rightarrow> synth_db \<times> (nat \<times> outage_change) list \<times> nat" where
  "run_checks clock globals edit net commits [] db = (db, [], 0)"
| "run_checks clock globals edit net commits (c # cs) db =
     (case process_check (clock (ck_id c)) globals (edit (ck_id c)) (net c) (commits (ck_id c)) c db of
        (db1, ev, counted) \<Rightarrow>
          (case run_checks clock globals edit net commits cs db1 of
             (db2, evs, n) \<Rightarrow>
               (db2, (case ev of None \<Rightarrow> evs | Some e \<Rightarrow> (ck_id c, e) # evs), (if counted then n + 1 else n))))"

definition run_due_checks ::
  "secs \<Rightarrow> (nat \<Rightarrow> secs) \<Rightarrow> int \<times> int \<Rightarrow> (nat \<Rightarrow> check list \<Rightarrow> check list) \<Rightarrow> (check \<Rightarrow> probe option) \<Rightarrow> (nat \<Rightarrow> bool)
   \<Rightarrow> synth_db \<Rightarrow> synth_db \<times> (nat \<times> outage_change) list \<times> nat" where
  "run_due_checks now clock globals edit net commits db =
     run_checks clock globals edit net commits (due_checks now (sy_checks db)) db"

subsection \<open>Editing a check\<close>

text \<open>
  \<open>PATCH\<close> of \<open>app/api/synthetic.py\<close>, after validation: a field that is given is written, and one
  that bears on the probe restarts the streak and the schedule.
\<close>

record check_patch =
  cp_name :: "string option"
  cp_target :: "string option"
  cp_expected_status :: "int option option"
  cp_keyword :: "string option option"
  cp_timeout :: "int option"
  cp_interval :: "int option"
  cp_threshold :: "nat option"
  cp_environment :: "string option"
  cp_enabled :: "bool option"
  cp_redirect :: "bool option"
  cp_cert :: "(int option \<times> int option) option"

definition given :: "'a option \<Rightarrow> 'a \<Rightarrow> 'a" where
  "given v old = (case v of None \<Rightarrow> old | Some x \<Rightarrow> x)"

definition probe_affecting :: "check_patch \<Rightarrow> bool" where
  "probe_affecting p \<longleftrightarrow> cp_target p \<noteq> None \<or> cp_expected_status p \<noteq> None \<or> cp_keyword p \<noteq> None \<or>
     cp_timeout p \<noteq> None \<or> cp_redirect p \<noteq> None"

definition patch_row :: "secs \<Rightarrow> check_patch \<Rightarrow> check \<Rightarrow> check" where
  "patch_row now p c =
     (let c1 = c\<lparr>ck_name := given (cp_name p) (ck_name c), ck_target := given (cp_target p) (ck_target c),
                 ck_expected_status := given (cp_expected_status p) (ck_expected_status c),
                 ck_keyword := given (cp_keyword p) (ck_keyword c), ck_timeout := given (cp_timeout p) (ck_timeout c),
                 ck_interval := given (cp_interval p) (ck_interval c),
                 ck_threshold := given (cp_threshold p) (ck_threshold c),
                 ck_environment := given (cp_environment p) (ck_environment c),
                 ck_enabled := given (cp_enabled p) (ck_enabled c), ck_redirect := given (cp_redirect p) (ck_redirect c),
                 ck_cert_warn := (case cp_cert p of None \<Rightarrow> ck_cert_warn c | Some (w, k) \<Rightarrow> w),
                 ck_cert_crit := (case cp_cert p of None \<Rightarrow> ck_cert_crit c | Some (w, k) \<Rightarrow> k),
                 ck_target_changed_at := (if given (cp_target p) (ck_target c) \<noteq> ck_target c then Some now
                                          else ck_target_changed_at c)\<rparr>
      in if probe_affecting p then c1\<lparr>ck_failures := 0, ck_next_at := Some now\<rparr>
         else (case cp_interval p of
                 None \<Rightarrow> c1
               | Some i \<Rightarrow> c1\<lparr>ck_next_at := Some (min (given (ck_next_at c) now) (now + i))\<rparr>))"

definition update_check :: "secs \<Rightarrow> nat \<Rightarrow> check_patch \<Rightarrow> check list \<Rightarrow> check list" where
  "update_check now i p cs = update_where (\<lambda>c. ck_id c = i) (patch_row now p) cs"

text \<open>\<open>DELETE\<close>: the open alerts of the check are resolved by the person, then the rows go.\<close>

definition delete_resolve :: "secs \<Rightarrow> string \<Rightarrow> alert \<Rightarrow> alert" where
  "delete_resolve now who a =
     a\<lparr>al_status := Resolved, al_resolved_at := Some now, al_last_seen_at := Some now,
       al_resolution_reason := Some ''check_deleted'', al_resolved_by := Some who\<rparr>"

definition delete_check :: "secs \<Rightarrow> string \<Rightarrow> nat \<Rightarrow> nat \<Rightarrow> synth_db \<Rightarrow> synth_db" where
  "delete_check now who acct i db =
     (let mine = (\<lambda>a. al_account a = Some acct \<and> al_resource a = synthetic_resource_id i \<and>
                      al_metric a \<in> {UPTIME_METRIC, CERT_ALERT_METRIC} \<and> is_open a)
      in \<lparr>sy_checks = filter (\<lambda>c. ck_id c \<noteq> i) (sy_checks db),
          sy_results = filter (\<lambda>r. re_check r \<noteq> i) (sy_results db),
          sy_resources = dict_del (sy_resources db) (acct, synthetic_resource_id i),
          sy_store = (sy_store db)\<lparr>st_alerts := update_where mine (delete_resolve now who) (st_alerts (sy_store db))\<rparr>\<rparr>)"

subsection \<open>The alerts of a check\<close>

lemma keeps_refresh: "keeps (refresh_failures now n)"
  by (simp add: keeps_def refresh_failures_def alert_ident_def is_open_def)

lemma keeps_cert_touch: "keeps (cert_touch now sev d thr)"
  by (auto simp: keeps_def cert_touch_def alert_ident_def is_open_def Let_def)

lemma synth_alert_facts [simp]:
  "al_id (synth_alert now c m sev cur thr b i) = i"
  "key_matches k (synth_alert now c m sev cur thr b i) \<longleftrightarrow> k = check_key c m"
  "is_open (synth_alert now c m sev cur thr b i)"
  by (auto simp: synth_alert_def key_matches_def check_key_def is_open_def split: prod.splits)

lemma makes_synth: "makes (check_key c m) (synth_alert now c m sev cur thr b)"
  unfolding makes_def by (intro allI conjI) simp_all

lemma resolve_synth_facts:
  "open_alerts k (st_alerts (resolve_synth now k db)) = []"
  "k' \<noteq> k \<Longrightarrow> filter (key_matches k') (st_alerts (resolve_synth now k db)) = filter (key_matches k') (st_alerts db)"
  "store_ok now db \<Longrightarrow> store_ok now (resolve_synth now k db)"
  unfolding resolve_synth_def
  using key_matches_unique by (blast intro: resolve_where_open resolve_where_other resolve_where_ok)+

interpretation uptime: alert_writer "check_key c UPTIME_METRIC" "refresh_failures now (ck_failures c)"
    "synth_alert now c UPTIME_METRIC CRITICAL (of_nat (ck_failures c)) (of_nat (ck_threshold c)) None"
  for now :: secs and c :: check
  by unfold_locales (rule keeps_refresh, rule makes_synth)

interpretation cert: alert_writer "check_key c CERT_ALERT_METRIC" "cert_touch now sev days thr"
    "synth_alert now c CERT_ALERT_METRIC sev (of_int days) (of_int thr) (Some (of_int days))"
  for now :: secs and c :: check and sev :: severity and days thr :: int
  by unfold_locales (rule keeps_cert_touch, rule makes_synth)

subsection \<open>What one probe does to the alerts\<close>

definition cert_keyed :: "check \<Rightarrow> alert_key" where
  "cert_keyed c = check_key c CERT_ALERT_METRIC"

definition uptime_keyed :: "check \<Rightarrow> alert_key" where
  "uptime_keyed c = check_key c UPTIME_METRIC"

lemma keyed_apart: "cert_keyed c \<noteq> uptime_keyed c"
  by (simp add: cert_keyed_def uptime_keyed_def check_key_def CERT_ALERT_METRIC_def UPTIME_METRIC_def)

text \<open>The row of the check is read with the failures of this probe; its key stays.\<close>

lemma check_key_failures [simp]: "check_key (c\<lparr>ck_failures := n\<rparr>) m = check_key c m"
  by (simp add: check_key_def)

lemmas keyed_simps = uptime_keyed_def cert_keyed_def

lemma write_uptime:
  assumes "store_ok now db"
  shows "\<exists>a. open_alerts (uptime_keyed c) (st_alerts (write_or_update_alert now c db)) = [a] \<and>
             al_current_value a = Some (of_nat (ck_failures c)) \<and> al_last_seen_at a = Some now"
  using uptime.upsert_open [OF store_okD(2) [OF assms]]
  by (simp add: write_or_update_alert_def uptime_keyed_def refresh_failures_def synth_alert_def split: option.split)

lemma write_cert:
  assumes "store_ok now db"
  shows "\<exists>a. open_alerts (cert_keyed c) (st_alerts (write_or_update_cert_alert now c d sev thr db)) = [a] \<and>
             al_severity a = sev \<and> al_current_value a = Some (of_int d) \<and> al_threshold a = Some (of_int thr)"
  using cert.upsert_open [OF store_okD(2) [OF assms]]
  by (simp add: write_or_update_cert_alert_def cert_keyed_def cert_touch_def synth_alert_def Let_def split: option.split)

lemma write_uptime_other:
  "ids_ok db \<Longrightarrow> k \<noteq> uptime_keyed c \<Longrightarrow>
   filter (key_matches k) (st_alerts (write_or_update_alert now c db)) = filter (key_matches k) (st_alerts db)"
  unfolding write_or_update_alert_def uptime_keyed_def by (rule uptime.upsert_other)

lemma write_cert_other:
  "ids_ok db \<Longrightarrow> k \<noteq> cert_keyed c \<Longrightarrow>
   filter (key_matches k) (st_alerts (write_or_update_cert_alert now c d sev thr db)) = filter (key_matches k) (st_alerts db)"
  unfolding write_or_update_cert_alert_def cert_keyed_def by (rule cert.upsert_other)

text \<open>Each half of the probe keeps the store and touches its own key only.\<close>

lemma write_uptime_ok: "store_ok now db \<Longrightarrow> store_ok now (write_or_update_alert now c db)"
  unfolding write_or_update_alert_def by (rule uptime.upsert_store_ok)

lemma write_cert_ok: "store_ok now db \<Longrightarrow> store_ok now (write_or_update_cert_alert now c d sev thr db)"
  unfolding write_or_update_cert_alert_def by (rule cert.upsert_store_ok)

lemma probe_alerts_ok: "store_ok now db \<Longrightarrow> store_ok now (probe_alerts now c ok db)"
  by (simp add: probe_alerts_def resolve_synth_facts(3) write_uptime_ok)

lemma probe_alerts_other:
  "ids_ok db \<Longrightarrow> k \<noteq> uptime_keyed c \<Longrightarrow>
   filter (key_matches k) (st_alerts (probe_alerts now c ok db)) = filter (key_matches k) (st_alerts db)"
  using write_uptime_other [of db k "c\<lparr>ck_failures := new_failures c ok\<rparr>" now]
  by (simp add: probe_alerts_def uptime_keyed_def resolve_synth_facts(2))

lemma cert_alert_ok: "store_ok now db \<Longrightarrow> store_ok now (apply_cert_alert now globals c tls db)"
  by (simp add: apply_cert_alert_def resolve_synth_facts(3) write_cert_ok split: option.split prod.split)

lemma cert_alert_other:
  "ids_ok db \<Longrightarrow> k \<noteq> cert_keyed c \<Longrightarrow>
   filter (key_matches k) (st_alerts (apply_cert_alert now globals c tls db)) = filter (key_matches k) (st_alerts db)"
  using write_cert_other [of db k c now]
  by (simp add: apply_cert_alert_def cert_keyed_def resolve_synth_facts(2) split: option.split prod.split)

lemma apply_probe_ok:
  "store_ok now (sy_store db) \<Longrightarrow> store_ok now (sy_store (apply_probe now globals c pr db))"
  by (auto simp: apply_probe_def Let_def intro: probe_alerts_ok cert_alert_ok split: option.split)

lemma cert_state:
  assumes "store_ok now db" "tf_days_left tls = Some days" "effective_cert_thresholds globals (ck_cert_warn c) (ck_cert_crit c) = (w, k)"
  shows "case cert_alert_level (Some days) w k of
           None \<Rightarrow> open_alerts (cert_keyed c) (st_alerts (apply_cert_alert now globals c tls db)) = []
         | Some (sev, thr) \<Rightarrow> \<exists>a. open_alerts (cert_keyed c) (st_alerts (apply_cert_alert now globals c tls db)) = [a] \<and>
             al_severity a = sev \<and> al_current_value a = Some (of_int days) \<and> al_threshold a = Some (of_int thr)"
  using write_cert [OF assms(1)] resolve_synth_facts(1) assms(2,3)
  by (simp add: apply_cert_alert_def cert_keyed_def split: option.split prod.split)

lemma uptime_state:
  assumes "store_ok now db"
  shows "new_status c ok = CkDown \<Longrightarrow>
           \<exists>a. open_alerts (uptime_keyed c) (st_alerts (probe_alerts now c ok db)) = [a] \<and>
               al_current_value a = Some (of_nat (new_failures c ok))"
    and "new_status c ok = CkUp \<Longrightarrow> ck_status c = CkDown \<Longrightarrow>
           open_alerts (uptime_keyed c) (st_alerts (probe_alerts now c ok db)) = []"
    and "new_status c ok \<noteq> CkDown \<Longrightarrow> ck_status c \<noteq> CkDown \<Longrightarrow> probe_alerts now c ok db = db"
  using write_uptime [OF assms, of "c\<lparr>ck_failures := new_failures c ok\<rparr>"]
  by (auto simp: probe_alerts_def resolve_synth_facts(1) uptime_keyed_def)

subsection \<open>A check under its editors\<close>

text \<open>
  One check as the collector and the people see it: its row, the copy the collector read and is
  probing (if any), and the committed probes, newest first, with the settings each ran with.
  \<open>process_check\<close> is a \<open>Commit\<close> or a \<open>Discard\<close> after the edits made during the probe.
\<close>

record watch =
  wa_row :: check
  wa_copy :: "check option"
  wa_seen :: "((string \<times> int option \<times> string option \<times> bool \<times> int) \<times> bool) list"

inductive check_step :: "watch \<Rightarrow> watch \<Rightarrow> bool" where
  Read: "check_step w (w\<lparr>wa_copy := Some (wa_row w)\<rparr>)"
| Edit: "check_step w (w\<lparr>wa_row := patch_row now p (wa_row w)\<rparr>)"
| Commit: "wa_copy w = Some c \<Longrightarrow> unchanged_since_read [wa_row w] c \<Longrightarrow>
     check_step w (w\<lparr>wa_row := update_row now c ok (wa_row w), wa_copy := None,
                     wa_seen := (settings c, ok) # wa_seen w\<rparr>)"
| Discard: "check_step w (w\<lparr>wa_copy := None\<rparr>)"

inductive check_run :: "watch \<Rightarrow> bool" where
  Created: "ck_failures r = 0 \<Longrightarrow> check_run \<lparr>wa_row = r, wa_copy = None, wa_seen = []\<rparr>"
| Then: "check_run w \<Longrightarrow> check_step w w' \<Longrightarrow> check_run w'"

inductive_cases check_stepE: "check_step w w'"

text \<open>The failing probes with given settings since the last success or change of settings.\<close>

definition failing_since :: "string \<times> int option \<times> string option \<times> bool \<times> int \<Rightarrow>
    ((string \<times> int option \<times> string option \<times> bool \<times> int) \<times> bool) list \<Rightarrow> nat" where
  "failing_since s h = length (takeWhile (\<lambda>e. e = (s, False)) h)"

lemma failing_since_Cons [simp]:
  "failing_since s (e # h) = (if e = (s, False) then Suc (failing_since s h) else 0)"
  by (simp add: failing_since_def)

lemma failing_since_take: "n \<le> failing_since s h \<Longrightarrow> take n h = replicate n (s, False)"
proof (induction h arbitrary: n)
  case (Cons e h)
  then show ?case by (cases n) (auto split: if_splits)
qed (simp add: failing_since_def)

definition streak_ok :: "check \<Rightarrow> ((string \<times> int option \<times> string option \<times> bool \<times> int) \<times> bool) list \<Rightarrow> bool" where
  "streak_ok c h \<longleftrightarrow> ck_failures c \<le> failing_since (settings c) h"

definition watch_ok :: "watch \<Rightarrow> bool" where
  "watch_ok w \<longleftrightarrow> streak_ok (wa_row w) (wa_seen w) \<and>
     (\<forall>c. wa_copy w = Some c \<longrightarrow> streak_ok c (wa_seen w))"

lemma patch_streak: "streak_ok c h \<Longrightarrow> streak_ok (patch_row now p c) h"
  by (auto simp: streak_ok_def patch_row_def probe_affecting_def settings_def given_def Let_def split: option.split)

lemma update_row_settings [simp]: "settings (update_row now c ok r) = settings r"
  by (simp add: update_row_def settings_def)

lemma update_streak:
  assumes "streak_ok c h" "settings r = settings c"
  shows "streak_ok (update_row now c ok r) ((settings c, ok) # h)"
  using assms by (cases ok) (simp_all add: streak_ok_def update_row_def settings_def new_failures_def)

lemma check_step_ok: "check_step w w' \<Longrightarrow> watch_ok w \<Longrightarrow> watch_ok w'"
proof (erule check_stepE)
  fix c now ok
  assume c: "wa_copy w = Some c" "unchanged_since_read [wa_row w] c" and w: "watch_ok w"
    and w': "w' = w\<lparr>wa_row := update_row now c ok (wa_row w), wa_copy := None, wa_seen := (settings c, ok) # wa_seen w\<rparr>"
  have "streak_ok (update_row now c ok (wa_row w)) ((settings c, ok) # wa_seen w)"
    using c w by (intro update_streak) (simp_all add: watch_ok_def unchanged_since_read_def)
  then show "watch_ok w'" by (simp add: watch_ok_def w')
qed (auto simp: watch_ok_def patch_streak)

lemma check_run_ok: "check_run w \<Longrightarrow> watch_ok w"
proof (induction rule: check_run.induct)
  case (Created r)
  then show ?case by (simp add: watch_ok_def streak_ok_def)
next
  case (Then w w')
  then show ?case using check_step_ok by blast
qed

text \<open>What the collector does to one row is one of the steps above.\<close>

definition row_of :: "nat \<Rightarrow> check list \<Rightarrow> check option" where
  "row_of i cs = find (\<lambda>r. ck_id r = i) cs"

lemma row_of_update:
  assumes "\<And>r. ck_id (f r) = ck_id r"
  shows "row_of i (update_where (\<lambda>r. ck_id r = j) f cs) = (if i = j then map_option f (row_of i cs) else row_of i cs)"
  unfolding row_of_def by (cases "i = j"; induction cs) (simp_all add: update_where_Cons assms)

lemma row_of_unchanged:
  assumes "distinct (map ck_id cs)" "row_of (ck_id c) cs = Some r"
  shows "unchanged_since_read cs c \<longleftrightarrow> unchanged_since_read [r] c"
proof -
  have r: "r \<in> set cs" "ck_id r = ck_id c" using assms(2) by (auto simp: row_of_def dest: find_SomeD)
  have "r' = r" if "r' \<in> set cs" "ck_id r' = ck_id r" for r'
    using assms(1) r(1) that by (auto simp: distinct_map dest: inj_onD)
  then have "(\<exists>r'\<in>set cs. ck_id r' = ck_id r \<and> Q r') \<longleftrightarrow> Q r" for Q using r(1) by blast
  then show ?thesis using r(2) by (simp add: unchanged_since_read_def list_ex_iff)
qed

lemma process_check_steps:
  assumes "process_check now globals edit outcome commits c db = (db', ev, counted)"
    and "distinct (map ck_id (edit (sy_checks db)))" "row_of (ck_id c) (edit (sy_checks db)) = Some r"
  shows "\<exists>r' h'. row_of (ck_id c) (sy_checks db') = Some r' \<and>
     check_step \<lparr>wa_row = r, wa_copy = Some c, wa_seen = h\<rparr> \<lparr>wa_row = r', wa_copy = None, wa_seen = h'\<rparr> \<and>
     (counted \<longrightarrow> (\<exists>pr. outcome = Some pr \<and> settings r' = settings c \<and> h' = (settings c, pb_ok pr) # h \<and> ev = outage_event c (pb_ok pr))) \<and>
     (\<not> counted \<longrightarrow> ev = None \<and> h' = h \<and> sy_store db' = sy_store db)"
proof (cases "counted")
  case True
  then obtain pr where pr: "outcome = Some pr" "unchanged_since_read (edit (sy_checks db)) c"
      "db' = apply_probe now globals c pr (db\<lparr>sy_checks := edit (sy_checks db)\<rparr>)" "ev = outage_event c (pb_ok pr)"
    using assms(1) by (auto simp: process_check_def Let_def split: option.splits if_splits)
  have u: "unchanged_since_read [r] c" using pr(2) row_of_unchanged assms(2,3) by blast
  have "row_of (ck_id c) (sy_checks db') = Some (update_row now c (pb_ok pr) r)"
    using assms(3) by (simp add: pr(3) apply_probe_def row_of_update update_row_def)
  moreover have "check_step \<lparr>wa_row = r, wa_copy = Some c, wa_seen = h\<rparr>
      \<lparr>wa_row = update_row now c (pb_ok pr) r, wa_copy = None, wa_seen = (settings c, pb_ok pr) # h\<rparr>"
    using check_step.Commit [where now = now and ok = "pb_ok pr" and c = c,
        of "\<lparr>wa_row = r, wa_copy = Some c, wa_seen = h\<rparr>"] u by simp
  moreover have "settings r = settings c" using u by (simp add: unchanged_since_read_def)
  ultimately show ?thesis using True pr by auto
next
  case False
  then have "db' = db\<lparr>sy_checks := edit (sy_checks db)\<rparr>" "ev = None"
    using assms(1) by (auto simp: process_check_def Let_def split: option.splits if_splits)
  moreover have "check_step \<lparr>wa_row = r, wa_copy = Some c, wa_seen = h\<rparr> \<lparr>wa_row = r, wa_copy = None, wa_seen = h\<rparr>"
    using check_step.Discard [of "\<lparr>wa_row = r, wa_copy = Some c, wa_seen = h\<rparr>"] by simp
  ultimately show ?thesis using False assms(3) by auto
qed

text \<open>Going down is confirmed by the last \<open>ck_threshold\<close> committed probes.\<close>

lemma went_down:
  assumes "outage_event c ok = Some WentDown" "streak_ok c h"
  shows "take (ck_threshold c) ((settings c, ok) # h) = replicate (ck_threshold c) (settings c, False)"
proof (rule failing_since_take)
  have "\<not> ok" "ck_threshold c \<le> Suc (ck_failures c)"
    using assms(1) by (auto simp: outage_event_def new_status_def new_failures_def split: if_splits)
  then show "ck_threshold c \<le> failing_since (settings c) ((settings c, ok) # h)"
    using assms(2) by (simp add: streak_ok_def)
qed

end
