(* ===== verification/Watchdog.thy ===== *)
theory Watchdog
  imports Alert_Writer Env_Polling
begin

text \<open>
  \<open>app/collector/host_agent_watchdog.py\<close>: from the age of each host agent's last heartbeat to one
  alert per host. One pass is one transaction over the watchdog's state rows, \<open>resources\<close> and
  \<open>alerts\<close>; what is announced is returned as data and only used after the commit.
\<close>

subsection \<open>Rows\<close>

record wd_host =
  wh_id :: nat
  wh_account :: nat
  wh_hostname :: string
  wh_instance :: "string option"
  wh_resource :: "string option"
  wh_seen :: "secs option"
  wh_enrolled :: "secs option"
  wh_active :: bool

datatype host_state = Online | Stale | Offline

record wd_state =
  ws_host :: nat
  ws_account :: nat
  ws_state :: host_state
  ws_since :: secs
  ws_reason :: "string option"
  ws_alert :: "nat option"
  ws_resource :: "string option"
  ws_detail :: "string option"
  ws_at :: secs

text \<open>The rows of \<open>metrics\<close> that are read: resource row, name, time, value.\<close>

type_synonym metric_row = "nat \<times> string \<times> secs \<times> rat option"

text \<open>What is done after the commit: messages with the alert, the host and the text.\<close>

datatype wd_event =
    WdResolved nat nat
  | WdOpened nat nat string severity int int string
  | WdEscalated nat nat string severity int int string

record wd_stats =
  wx_hosts :: nat
  wx_opened :: nat
  wx_updated :: nat
  wx_resolved :: nat
  wx_quiet_offline :: nat
  wx_born_silenced :: nat
  wx_departed :: nat

record wd_world =
  ww_states :: "wd_state list"
  ww_resources :: "resource list"
  ww_store :: store
  ww_stats :: wd_stats
  ww_events :: "wd_event list"

subsection \<open>Settings\<close>

definition HEARTBEAT_METRIC :: string where
  "HEARTBEAT_METRIC = ''host_agent_heartbeat''"

definition OFFLINE_FACTOR :: int where
  "OFFLINE_FACTOR = 5"

definition DEFAULT_STALE_SECONDS :: int where
  "DEFAULT_STALE_SECONDS = 180"

definition STOPPED_STATES :: "string list" where
  "STOPPED_STATES = [''stopped'', ''stopping'', ''terminated'', ''shutting-down'']"

definition STATUS_CHECK_WINDOW_MINUTES :: int where
  "STATUS_CHECK_WINDOW_MINUTES = 15"

definition DETAIL_MAX_LEN :: nat where
  "DETAIL_MAX_LEN = 500"

definition watchdog_enabled :: "environ \<Rightarrow> bool" where
  "watchdog_enabled osenv = flag_text_on [''true'', ''1'', ''yes''] (osenv ''HOST_AGENT_ENABLED'')"

definition stale_seconds :: "environ \<Rightarrow> int" where
  "stale_seconds osenv =
     (case osenv ''HOST_AGENT_STALE_SECONDS'' of
        None \<Rightarrow> DEFAULT_STALE_SECONDS
      | Some raw \<Rightarrow> (case py_int raw of
                       None \<Rightarrow> DEFAULT_STALE_SECONDS
                     | Some v \<Rightarrow> if v > 0 then v else DEFAULT_STALE_SECONDS))"

subsection \<open>States and texts\<close>

definition classify :: "int \<Rightarrow> int \<Rightarrow> host_state" where
  "classify age stale_s =
     (if age \<le> stale_s then Online else if age \<le> stale_s * OFFLINE_FACTOR then Stale else Offline)"

definition two_digits :: "int \<Rightarrow> string" where
  "two_digits n = (if n < 10 then ''0'' @ int_text n else int_text n)"

definition fmt_age :: "int \<Rightarrow> string" where
  "fmt_age age =
     (let s = max 0 age; m = s div 60; h = m div 60 in
      if s < 120 then int_text s @ ''s''
      else if m < 120 then int_text m @ ''m '' @ two_digits (s mod 60) @ ''s''
      else if h < 48 then int_text h @ ''h '' @ two_digits (m mod 60) @ ''m''
      else int_text (h div 24) @ ''d '' @ int_text (h mod 24) @ ''h'')"

text \<open>\<open>instance\<close> is the EC2 state and whether its status checks fail.\<close>

definition build_detail :: "string \<Rightarrow> host_state \<Rightarrow> int \<Rightarrow> int \<Rightarrow> (string \<times> bool option) option \<Rightarrow> string" where
  "build_detail hostname st age stale_s inst =
     take DETAIL_MAX_LEN
       (''Host agent on '' @ hostname @ '' is '' @ (if st = Offline then ''offline'' else ''stale'') @
        '': no heartbeat for '' @ fmt_age age @ '' (stale after '' @ int_text stale_s @ ''s).'' @
        (case inst of
           None \<Rightarrow> '' No EC2 state is known for this host, so an agent outage cannot be told apart from a host outage.''
         | Some (s, failed) \<Rightarrow>
             if s = ''running'' then
               '' The EC2 instance is running, so the agent or its network path is down, not the instance.'' @
               (if failed = Some True then '' EC2 status checks are failing too, so the host itself may be impaired.'' else [])
             else '' The EC2 instance state is '' @ quoted s @ ''.''))"

subsection \<open>Where the alert hangs\<close>

definition own_resource_id :: "wd_host \<Rightarrow> string" where
  "own_resource_id h = ''host-agent-'' @ nat_text (wh_id h)"

text \<open>\<open>ORDER BY (r.resource_type = 'ec2') DESC LIMIT 1\<close>.\<close>

definition best_row :: "resource list \<Rightarrow> nat \<Rightarrow> string \<Rightarrow> resource option" where
  "best_row rows acct rid =
     (let hits = filter (\<lambda>r. rs_account r = acct \<and> rs_resource_id r = rid) rows in
      case find (\<lambda>r. rs_type r = ''ec2'') hits of
        Some r \<Rightarrow> Some r
      | None \<Rightarrow> find (\<lambda>_. True) hits)"

definition find_target :: "resource list \<Rightarrow> wd_host \<Rightarrow> resource option" where
  "find_target rows h =
     (let look = (\<lambda>rid. case rid of None \<Rightarrow> None | Some t \<Rightarrow> if t = [] then None else best_row rows (wh_account h) t) in
      case look (wh_resource h) of
        Some r \<Rightarrow> Some r
      | None \<Rightarrow>
          (case look (wh_instance h) of
             Some r \<Rightarrow> Some r
           | None \<Rightarrow> find (\<lambda>r. rs_account r = wh_account h \<and> rs_type r = ''host_agent'' \<and>
                              rs_resource_id r = own_resource_id h) rows))"

text \<open>The row created when there is none; its time of last discovery stays NULL.\<close>

definition own_resource :: "wd_host \<Rightarrow> nat \<Rightarrow> resource" where
  "own_resource h i =
     \<lparr>rs_id = i, rs_account = wh_account h, rs_resource_id = own_resource_id h, rs_type = ''host_agent'',
      rs_tags = TagsText (LObject []), rs_env_resolved = None, rs_last_seen_at = None, rs_instance_state = None\<rparr>"

definition next_row_id :: "resource list \<Rightarrow> nat" where
  "next_row_id rows = foldr (\<lambda>r m. max (rs_id r) m) rows 0 + 1"

definition ensure_target :: "wd_host \<Rightarrow> resource list \<Rightarrow> resource \<times> resource list" where
  "ensure_target h rows =
     (case find_target rows h of
        Some r \<Rightarrow> (r, rows)
      | None \<Rightarrow> (let r = own_resource h (next_row_id rows) in (r, rows @ [r])))"

definition instance_info ::
  "secs \<Rightarrow> metric_row list \<Rightarrow> resource list \<Rightarrow> wd_host \<Rightarrow> (string \<times> bool option) option" where
  "instance_info now metrics rows h =
     (case wh_instance h of
        None \<Rightarrow> None
      | Some iid \<Rightarrow>
          if iid = [] then None
          else
            (case find (\<lambda>r. rs_account r = wh_account h \<and> rs_type r = ''ec2'' \<and> rs_resource_id r = iid) rows of
               None \<Rightarrow> None
             | Some r \<Rightarrow>
                 (case rs_instance_state r of
                    None \<Rightarrow> None
                  | Some s \<Rightarrow>
                      if s = [] then None
                      else Some (lower s,
                        if lower s = ''running'' then
                          (case find (\<lambda>(i, n, t, v). i = rs_id r \<and> n = ''statuscheckfailed'' \<and>
                                        t \<ge> now - STATUS_CHECK_WINDOW_MINUTES * 60) metrics of
                             None \<Rightarrow> None
                           | Some (i, n, t, v) \<Rightarrow> map_option (\<lambda>x. x \<ge> 1) v)
                        else None))))"

subsection \<open>The environment label\<close>

text \<open>
  \<open>_environment\<close> begins with \<open>from app.environment_classifier import flag_enabled,
  resolve_environment, IGNORE, UNKNOWN\<close>. An import of a name that the module does not define raises.
  \<open>classifier_names\<close> are the names the module defines; the functions below take them as an
  argument, so that what the watchdog would do with other names can be stated too.
\<close>

definition classifier_names :: "string list" where
  "classifier_names =
     [''json'', ''os'', ''re'', ''namedtuple'', ''PROD'', ''NONPROD'', ''TIERS'', ''PROD_WORDS'', ''NONPROD_WORDS'',
      ''recognized_tier'', ''to_tier'', ''is_nonprod'', ''MANUAL_CHOICES'', ''SOURCES'', ''RELATED_PARENT_SOURCES'',
      ''Resolution'', ''TAG_KEYS'', ''_WORD_TIER'', ''_w'', ''_SEP'', ''_PRE_PROD'', ''_NON_PROD'', ''_DEVOPS'', ''_CAMEL_1'',
      ''_CAMEL_2'', ''_NON_ALNUM'', ''_TRAILING_DIGITS'', ''REASON_MAX'', ''flag_enabled'', ''is_prod_like'',
      ''normalize_tier'', ''_scan'', ''_clip'', ''_tags_dict'', ''_from_tags'', ''_from_name'', ''_from_related'',
      ''resolve_environment'', ''severity_for'', ''MANDATORY_TAGS'', ''TAG_STATES'', ''NEEDS_TAGGING'', ''ESSENTIAL_TAGS'',
      ''TAGS_COLLECTED_TYPES'', ''_fold_key'', ''TAG_SYNC_TYPES'', ''AZURE_TAGGED_TYPES'', ''GCP_LABELED_TYPES'',
      ''PROVIDER_TAG_TYPES'', ''tag_sync_enabled'', ''tag_sync_feeds_environment'', ''parse_synced'', ''_synced_usable'',
      ''effective_tags'', ''tags_known'', ''tag_state'', ''tag_environment'', ''missing_tags'', ''WARNING_KINDS'',
      ''name_environment'', ''_tier_word'', ''detect_warning'', ''warning_kind'', ''SUGGESTION_SOURCES'', ''CONFIDENCE'',
      ''APPLICATION_TAG_KEYS'', ''STACK_TAG_KEYS'', ''MIN_PREFIX_CHARS'', ''Suggestion'', ''_tag_value'', ''_name_tokens'',
      ''_evidence_unit'', ''_vote'', ''_bump'', ''_shown'', ''SuggestionIndex'', ''suggest_environment'']"

definition watchdog_imports :: "string list" where
  "watchdog_imports = [''flag_enabled'', ''resolve_environment'', ''IGNORE'', ''UNKNOWN'']"

definition imports_ok :: "string list \<Rightarrow> bool" where
  "imports_ok names \<longleftrightarrow> list_all (\<lambda>n. n \<in> set names) watchdog_imports"

text \<open>
  The label as the readers of the column see it (\<open>to_tier\<close>): the watchdog writes the text of the
  tag itself where the evaluator writes the tier.
\<close>

definition watchdog_environment :: "string list \<Rightarrow> bool \<Rightarrow> resource \<Rightarrow> py_error + tier" where
  "watchdog_environment names env_aware r =
     (if \<not> imports_ok names then Inl ImportError
      else if env_aware then
        Inr (if truthy_str (rs_env_resolved r) then to_tier (rs_env_resolved r)
             else env (resolve_environment None (rs_tags r) None (Some (rs_resource_id r)) None []))
      else Inr (environment_from_tags (rs_tags r)))"

subsection \<open>Writing the alert\<close>

definition wd_key :: "nat \<Rightarrow> string \<Rightarrow> alert_key" where
  "wd_key acct rid = (acct, rid, HEARTBEAT_METRIC)"

definition wd_touch :: "secs \<Rightarrow> severity \<Rightarrow> int \<Rightarrow> int \<Rightarrow> alert \<Rightarrow> alert" where
  "wd_touch now sev age thr a =
     (let a1 = a\<lparr>al_current_value := Some (of_int age), al_threshold := Some (of_int thr), al_last_seen_at := Some now\<rparr>
      in if al_severity a \<noteq> sev then
           (let a2 = a1\<lparr>al_severity := sev\<rparr> in
            if sev = CRITICAL \<and> al_status a = Acknowledged
            then a2\<lparr>al_status := Active, al_acked := False, al_acked_by := None, al_acked_at := None\<rparr> else a2)
         else a1)"

definition wd_alert ::
  "secs \<Rightarrow> nat \<Rightarrow> resource \<Rightarrow> severity \<Rightarrow> tier \<Rightarrow> int \<Rightarrow> int \<Rightarrow> string option \<Rightarrow> nat \<Rightarrow> alert" where
  "wd_alert now acct target sev envt age thr silence i =
     \<lparr>al_id = i, al_account = Some acct, al_resource = rs_resource_id target, al_metric = HEARTBEAT_METRIC,
      al_severity = sev, al_environment = envt, al_group_key = (acct, rs_type target, HEARTBEAT_METRIC),
      al_status = Active, al_triggered_at = now, al_last_seen_at = Some now, al_cycle_at = Some now,
      al_healthy_streak = 0, al_current_value = Some (of_int age), al_threshold = Some (of_int thr),
      al_breach_value = Some (of_int age), al_breach_threshold = Some (of_int thr),
      al_silenced = truthy_str silence, al_silenced_reason = silence, al_muted_until = None, al_acked = False,
      al_acked_by = None, al_acked_at = None, al_resolved_at = None, al_resolution_reason = None,
      al_resolved_by = None, al_escalated_at = None, al_escalated_group = None\<rparr>"

definition muted_now :: "secs \<Rightarrow> alert \<Rightarrow> bool" where
  "muted_now now a = (case al_muted_until a of None \<Rightarrow> False | Some t \<Rightarrow> t > now)"

subsection \<open>One host\<close>

text \<open>\<open>_save_state\<close>: \<open>state_since\<close> moves only when the state changes.\<close>

definition save_state ::
  "secs \<Rightarrow> wd_host \<Rightarrow> host_state \<Rightarrow> string option \<Rightarrow> nat option \<Rightarrow> string option \<Rightarrow> string option
   \<Rightarrow> wd_world \<Rightarrow> wd_world" where
  "save_state now h st reason alert rid detail w =
     (let fresh = \<lparr>ws_host = wh_id h, ws_account = wh_account h, ws_state = st, ws_since = now, ws_reason = reason,
                   ws_alert = alert, ws_resource = rid, ws_detail = detail, ws_at = now\<rparr>;
          mine = (\<lambda>s. ws_host s = wh_id h)
      in w\<lparr>ww_states :=
           (if list_ex mine (ww_states w)
            then update_where mine (\<lambda>s. fresh\<lparr>ws_since := (if ws_state s \<noteq> st then now else ws_since s)\<rparr>) (ww_states w)
            else ww_states w @ [fresh])\<rparr>)"

text \<open>\<open>_resolve\<close> with its \<open>rowcount\<close>: statistics and message only when a row changed.\<close>

definition wd_resolve :: "secs \<Rightarrow> string \<Rightarrow> nat \<Rightarrow> nat \<Rightarrow> wd_world \<Rightarrow> wd_world" where
  "wd_resolve now reason acct i w =
     (let n = rowcount (\<lambda>a. by_id i a \<and> is_open a) (st_alerts (ww_store w));
          w1 = w\<lparr>ww_store := resolve_where (by_id i) reason now (ww_store w)\<rparr>
      in if n = 0 then w1
         else w1\<lparr>ww_stats := (ww_stats w)\<lparr>wx_resolved := wx_resolved (ww_stats w) + 1\<rparr>,
                 ww_events := ww_events w @ [WdResolved i acct]\<rparr>)"

definition wd_online :: "secs \<Rightarrow> wd_host \<Rightarrow> resource option \<Rightarrow> alert option \<Rightarrow> wd_world \<Rightarrow> wd_world" where
  "wd_online now h target ex w =
     save_state now h Online None None (map_option rs_resource_id target) None
       (case ex of None \<Rightarrow> w | Some a \<Rightarrow> wd_resolve now ''recovered'' (wh_account h) (al_id a) w)"

definition wd_quiet :: "secs \<Rightarrow> wd_host \<Rightarrow> resource option \<Rightarrow> alert option \<Rightarrow> string \<Rightarrow> wd_world \<Rightarrow> wd_world" where
  "wd_quiet now h target ex ec2_state w =
     (let w1 = (case ex of None \<Rightarrow> w | Some a \<Rightarrow> wd_resolve now ''instance_stopped'' (wh_account h) (al_id a) w)
      in save_state now h Offline (Some ''instance_stopped'') None (map_option rs_resource_id target)
           (Some (take DETAIL_MAX_LEN (''Instance is '' @ ec2_state @ ''; agent offline is expected.'')))
           (w1\<lparr>ww_stats := (ww_stats w1)\<lparr>wx_quiet_offline := wx_quiet_offline (ww_stats w1) + 1\<rparr>\<rparr>))"

definition wd_refresh ::
  "secs \<Rightarrow> wd_host \<Rightarrow> resource \<Rightarrow> alert \<Rightarrow> host_state \<Rightarrow> severity \<Rightarrow> int \<Rightarrow> int \<Rightarrow> string \<Rightarrow> wd_world \<Rightarrow> wd_world" where
  "wd_refresh now h target ex st sev age thr detail w =
     (let w1 = w\<lparr>ww_store := (ww_store w)\<lparr>st_alerts := update_where (by_id (al_id ex)) (wd_touch now sev age thr) (st_alerts (ww_store w))\<rparr>,
                ww_stats := (ww_stats w)\<lparr>wx_updated := wx_updated (ww_stats w) + 1\<rparr>,
                ww_events := ww_events w @
                  (if al_severity ex \<noteq> sev \<and> sev = CRITICAL \<and> \<not> al_silenced ex \<and> \<not> muted_now now ex
                   then [WdEscalated (al_id ex) (wh_account h) (rs_resource_id target) sev age thr detail] else [])\<rparr>
      in save_state now h st (Some ''agent_silent'') (Some (al_id ex)) (Some (rs_resource_id target)) (Some detail) w1)"

definition wd_open ::
  "secs \<Rightarrow> string option \<Rightarrow> wd_host \<Rightarrow> resource \<Rightarrow> tier \<Rightarrow> host_state \<Rightarrow> severity \<Rightarrow> int \<Rightarrow> int \<Rightarrow> string \<Rightarrow> wd_world \<Rightarrow> wd_world" where
  "wd_open now silence h target envt st sev age thr detail w =
     (let i = st_next_id (ww_store w);
          w1 = w\<lparr>ww_store := add_alert (wd_alert now (wh_account h) target sev envt age thr silence) (ww_store w),
                ww_stats := (let sx = (ww_stats w)\<lparr>wx_opened := wx_opened (ww_stats w) + 1\<rparr> in
                             if truthy_str silence then sx\<lparr>wx_born_silenced := wx_born_silenced sx + 1\<rparr> else sx),
                ww_events := ww_events w @
                  (if truthy_str silence then []
                   else [WdOpened i (wh_account h) (rs_resource_id target) sev age thr detail])\<rparr>
      in save_state now h st (Some ''agent_silent'') (Some i) (Some (rs_resource_id target)) (Some detail) w1)"

record wd_context =
  wc_now :: secs
  wc_stale :: int
  wc_names :: "string list"
  wc_env_aware :: bool
  wc_metrics :: "metric_row list"
  wc_silenced :: "nat \<times> string \<Rightarrow> string option"

definition evaluate_silent ::
  "wd_context \<Rightarrow> wd_host \<Rightarrow> int \<Rightarrow> host_state \<Rightarrow> resource option \<Rightarrow> alert option \<Rightarrow> (string \<times> bool option) option
   \<Rightarrow> wd_world \<Rightarrow> py_error + wd_world" where
  "evaluate_silent cx h age st target ex inst w =
     (let now = wc_now cx; stale_s = wc_stale cx;
          sev = (if st = Offline then CRITICAL else WARNING);
          thr = (if st = Offline then stale_s * OFFLINE_FACTOR else stale_s);
          detail = build_detail (wh_hostname h) st age stale_s inst
      in case ex of
           Some a \<Rightarrow> Inr (wd_refresh now h (the target) a st sev age thr detail w)
         | None \<Rightarrow>
             (case ensure_target h (ww_resources w) of
                (r, rows) \<Rightarrow>
                  (case watchdog_environment (wc_names cx) (wc_env_aware cx) r of
                     Inl e \<Rightarrow> Inl e
                   | Inr envt \<Rightarrow>
                       Inr (wd_open now (wc_silenced cx (wh_account h, rs_resource_id r)) h r envt st sev age thr detail
                              (w\<lparr>ww_resources := rows\<rparr>)))))"

definition evaluate_host :: "wd_context \<Rightarrow> wd_host \<times> int \<Rightarrow> wd_world \<Rightarrow> py_error + wd_world" where
  "evaluate_host cx ha w =
     (case ha of (h, age) \<Rightarrow>
       (let now = wc_now cx; stale_s = wc_stale cx;
            st = classify age stale_s;
            target = find_target (ww_resources w) h;
            ex = (case target of None \<Rightarrow> None
                  | Some r \<Rightarrow> open_of (wd_key (wh_account h) (rs_resource_id r)) (st_alerts (ww_store w)))
        in if st = Online then Inr (wd_online now h target ex w)
           else
             (let inst = instance_info now (wc_metrics cx) (ww_resources w) h in
              case inst of
                Some (s, f) \<Rightarrow>
                  if s \<in> set STOPPED_STATES then Inr (wd_quiet now h target ex s w)
                  else evaluate_silent cx h age st target ex inst w
              | None \<Rightarrow> evaluate_silent cx h age st target ex inst w)))"

subsection \<open>A pass\<close>

text \<open>Hosts revoked or deleted since the last pass: their alert is closed, their state row dropped.\<close>

definition departed :: "wd_host list \<Rightarrow> wd_state \<Rightarrow> bool" where
  "departed hosts s \<longleftrightarrow> \<not> list_ex (\<lambda>h. wh_id h = ws_host s \<and> wh_active h) hosts"

definition drop_departed :: "secs \<Rightarrow> wd_state \<Rightarrow> wd_world \<Rightarrow> wd_world" where
  "drop_departed now s w =
     (let w1 = (case ws_alert s of
                  None \<Rightarrow> w
                | Some i \<Rightarrow> if i = 0 then w else wd_resolve now ''agent_revoked'' (ws_account s) i w)
      in w1\<lparr>ww_states := filter (\<lambda>x. ws_host x \<noteq> ws_host s) (ww_states w1),
            ww_stats := (ww_stats w1)\<lparr>wx_departed := wx_departed (ww_stats w1) + 1\<rparr>\<rparr>)"

definition clean_departed :: "secs \<Rightarrow> wd_host list \<Rightarrow> wd_world \<Rightarrow> wd_world" where
  "clean_departed now hosts w = fold (drop_departed now) (filter (departed hosts) (ww_states w)) w"

text \<open>\<open>TIMESTAMPDIFF(SECOND, COALESCE(last_seen_at, enrolled_at), UTC_TIMESTAMP())\<close>; NULL ages are left out.\<close>

definition host_age :: "secs \<Rightarrow> wd_host \<Rightarrow> int option" where
  "host_age now h =
     (case wh_seen h of Some t \<Rightarrow> Some (now - t) | None \<Rightarrow> map_option (\<lambda>t. now - t) (wh_enrolled h))"

definition active_hosts :: "secs \<Rightarrow> nat list \<Rightarrow> wd_host list \<Rightarrow> (wd_host \<times> int) list" where
  "active_hosts now accounts hosts =
     List.map_filter (\<lambda>h. map_option (\<lambda>a. (h, a)) (host_age now h))
       (filter (\<lambda>h. wh_active h \<and> wh_account h \<in> set accounts) hosts)"

definition group_of :: "resource list \<Rightarrow> wd_host \<times> int \<Rightarrow> nat \<times> string" where
  "group_of rows ha =
     (wh_account (fst ha),
      case find_target rows (fst ha) of Some r \<Rightarrow> rs_resource_id r | None \<Rightarrow> own_resource_id (fst ha))"

definition host_groups :: "resource list \<Rightarrow> (wd_host \<times> int) list \<Rightarrow> (nat \<times> string, (wd_host \<times> int) list) dict" where
  "host_groups rows hs = group_rows (group_of rows) (\<lambda>ms h. ms @ [h]) [] hs []"

text \<open>\<open>members.sort(key=lambda h: (h["age_seconds"], h["id"]))\<close>.\<close>

definition by_age :: "(wd_host \<times> int) list \<Rightarrow> (wd_host \<times> int) list" where
  "by_age ms = sort_key snd (sort_key (\<lambda>ha. wh_id (fst ha)) ms)"

definition supersede :: "wd_context \<Rightarrow> nat \<Rightarrow> wd_host \<times> int \<Rightarrow> wd_world \<Rightarrow> wd_world" where
  "supersede cx lead ha w =
     save_state (wc_now cx) (fst ha) (classify (snd ha) (wc_stale cx)) (Some ''superseded'') None None
       (Some (''Superseded by host agent id '' @ nat_text lead @ '' on the same resource.'')) w"

fun evaluate_groups :: "wd_context \<Rightarrow> (wd_host \<times> int) list list \<Rightarrow> wd_world \<Rightarrow> py_error + wd_world" where
  "evaluate_groups cx [] w = Inr w"
| "evaluate_groups cx (ms # gs) w =
     (case by_age ms of
        [] \<Rightarrow> evaluate_groups cx gs w
      | lead # twins \<Rightarrow>
          (case evaluate_host cx lead w of
             Inl e \<Rightarrow> Inl e
           | Inr w1 \<Rightarrow> evaluate_groups cx gs (fold (supersede cx (wh_id (fst lead))) twins w1)))"

definition no_wd_stats :: wd_stats where
  "no_wd_stats = \<lparr>wx_hosts = 0, wx_opened = 0, wx_updated = 0, wx_resolved = 0, wx_quiet_offline = 0,
     wx_born_silenced = 0, wx_departed = 0\<rparr>"

definition watchdog_pass ::
  "wd_context \<Rightarrow> nat list \<Rightarrow> wd_host list \<Rightarrow> wd_world \<Rightarrow> py_error + wd_world" where
  "watchdog_pass cx accounts hosts w0 =
     (let w = clean_departed (wc_now cx) hosts (w0\<lparr>ww_stats := no_wd_stats, ww_events := []\<rparr>);
          hs = active_hosts (wc_now cx) accounts hosts
      in evaluate_groups cx (map snd (host_groups (ww_resources w) hs))
           (w\<lparr>ww_stats := (ww_stats w)\<lparr>wx_hosts := length hs\<rparr>\<rparr>))"

definition context_of ::
  "environ \<Rightarrow> string list \<Rightarrow> metric_row list \<Rightarrow> (nat \<times> string \<Rightarrow> string option) \<Rightarrow> secs \<Rightarrow> wd_context" where
  "context_of osenv names metrics silenced now =
     \<lparr>wc_now = now, wc_stale = stale_seconds osenv, wc_names = names,
      wc_env_aware = flag_text_on [''true'', ''1'', ''yes''] (osenv ''ENV_AWARE_CLASSIFICATION''),
      wc_metrics = metrics, wc_silenced = silenced\<rparr>"

text \<open>
  \<open>run_watchdog\<close>: nothing without its flag; an exception rolls the whole pass back. The second
  component is what is announced.
\<close>

definition run_watchdog ::
  "environ \<Rightarrow> string list \<Rightarrow> metric_row list \<Rightarrow> (nat \<times> string \<Rightarrow> string option) \<Rightarrow> secs \<Rightarrow> nat list \<Rightarrow> wd_host list
   \<Rightarrow> wd_world \<Rightarrow> wd_world \<times> wd_event list \<times> py_error option" where
  "run_watchdog osenv names metrics silenced now accounts hosts w =
     (if \<not> watchdog_enabled osenv then (w, [], None)
      else
        (case watchdog_pass (context_of osenv names metrics silenced now) accounts hosts w of
           Inl e \<Rightarrow> (w, [], Some e)
         | Inr w' \<Rightarrow> (w', ww_events w', None)))"

subsection \<open>One host's alert\<close>

text \<open>The module lacks two of the four names.\<close>

lemma classifier_imports: "\<not> imports_ok classifier_names"
  by (simp add: imports_ok_def watchdog_imports_def classifier_names_def)

lemma keeps_wd_touch: "keeps (wd_touch now sev age thr)"
  by (auto simp: keeps_def wd_touch_def alert_ident_def is_open_def Let_def)

lemma makes_wd_alert: "makes (wd_key acct (rs_resource_id r)) (wd_alert now acct r sev envt age thr silence)"
  unfolding makes_def by (auto simp: wd_alert_def wd_key_def key_matches_def is_open_def split: prod.splits)

interpretation heartbeat: alert_writer "wd_key acct (rs_resource_id r)" "wd_touch now sev age thr"
    "wd_alert now acct r sev envt age thr silence"
  for acct :: nat and r :: resource and now :: secs and sev :: severity and age thr :: int
    and envt :: tier and silence :: "string option"
  by unfold_locales (rule keeps_wd_touch, rule makes_wd_alert)

text \<open>What the steps do to the store.\<close>

lemma save_state_store [simp]:
  "ww_store (save_state now h st reason al rid detail w) = ww_store w"
  "ww_resources (save_state now h st reason al rid detail w) = ww_resources w"
  by (simp_all add: save_state_def Let_def)

lemma wd_resolve_store [simp]:
  "ww_store (wd_resolve now reason acct i w) = resolve_where (by_id i) reason now (ww_store w)"
  "ww_resources (wd_resolve now reason acct i w) = ww_resources w"
  by (simp_all add: wd_resolve_def Let_def)

definition level_of :: "host_state \<Rightarrow> severity" where
  "level_of st = (if st = Offline then CRITICAL else WARNING)"

definition line_of :: "host_state \<Rightarrow> int \<Rightarrow> int" where
  "line_of st stale_s = (if st = Offline then stale_s * OFFLINE_FACTOR else stale_s)"

lemma evaluate_silent_store:
  assumes "imports_ok (wc_names cx) \<or> open_of (wd_key (wh_account h) (rs_resource_id r)) (st_alerts (ww_store w)) \<noteq> None"
    and "find_target (ww_resources w) h = Some r"
  shows "\<exists>w' envt. evaluate_silent cx h age st (Some r)
       (open_of (wd_key (wh_account h) (rs_resource_id r)) (st_alerts (ww_store w))) inst w = Inr w' \<and>
     ww_store w' = upsert_alert (wd_key (wh_account h) (rs_resource_id r))
       (wd_touch (wc_now cx) (level_of st) age (line_of st (wc_stale cx)))
       (wd_alert (wc_now cx) (wh_account h) r (level_of st) envt age (line_of st (wc_stale cx))
          (wc_silenced cx (wh_account h, rs_resource_id r))) (ww_store w)"
proof (cases "open_of (wd_key (wh_account h) (rs_resource_id r)) (st_alerts (ww_store w))")
  case None
  then obtain envt where "watchdog_environment (wc_names cx) (wc_env_aware cx) r = Inr envt"
    using assms(1) that by (cases "wc_env_aware cx") (simp_all add: watchdog_environment_def)
  with None assms(2) show ?thesis
    by (auto simp: evaluate_silent_def ensure_target_def upsert_alert_def wd_open_def level_of_def line_of_def Let_def)
next
  case (Some ex)
  with assms(2) show ?thesis
    by (auto simp: evaluate_silent_def upsert_alert_def wd_refresh_def level_of_def line_of_def Let_def)
qed

text \<open>An EC2 instance that is known to be stopped.\<close>

definition host_stopped :: "wd_context \<Rightarrow> wd_world \<Rightarrow> wd_host \<Rightarrow> bool" where
  "host_stopped cx w h \<longleftrightarrow>
     (case instance_info (wc_now cx) (wc_metrics cx) (ww_resources w) h of
        None \<Rightarrow> False | Some (s, f) \<Rightarrow> s \<in> set STOPPED_STATES)"

definition needs_alert :: "wd_context \<Rightarrow> wd_world \<Rightarrow> wd_host \<times> int \<Rightarrow> bool" where
  "needs_alert cx w ha \<longleftrightarrow> classify (snd ha) (wc_stale cx) \<noteq> Online \<and> \<not> host_stopped cx w (fst ha)"

definition host_alert :: "wd_world \<Rightarrow> wd_host \<Rightarrow> alert option" where
  "host_alert w h =
     (case find_target (ww_resources w) h of
        None \<Rightarrow> None
      | Some r \<Rightarrow> open_of (wd_key (wh_account h) (rs_resource_id r)) (st_alerts (ww_store w)))"

lemma evaluate_host_cases:
  "evaluate_host cx (h, age) w =
     (if classify age (wc_stale cx) = Online
      then Inr (wd_online (wc_now cx) h (find_target (ww_resources w) h) (host_alert w h) w)
      else if host_stopped cx w h
      then Inr (wd_quiet (wc_now cx) h (find_target (ww_resources w) h) (host_alert w h)
             (fst (the (instance_info (wc_now cx) (wc_metrics cx) (ww_resources w) h))) w)
      else evaluate_silent cx h age (classify age (wc_stale cx)) (find_target (ww_resources w) h) (host_alert w h)
             (instance_info (wc_now cx) (wc_metrics cx) (ww_resources w) h) w)"
  by (auto simp: evaluate_host_def host_stopped_def host_alert_def Let_def split: option.split)

lemma quiet_store:
  "ww_store (wd_online now h target ex w) =
     (case ex of None \<Rightarrow> ww_store w | Some a \<Rightarrow> resolve_where (by_id (al_id a)) ''recovered'' now (ww_store w))"
  "ww_store (wd_quiet now h target ex s w) =
     (case ex of None \<Rightarrow> ww_store w | Some a \<Rightarrow> resolve_where (by_id (al_id a)) ''instance_stopped'' now (ww_store w))"
  by (simp_all add: wd_online_def wd_quiet_def Let_def split: option.split)

lemma resolve_found:
  assumes "store_ok now db" "open_of k (st_alerts db) = ex"
  shows "open_alerts k (st_alerts (case ex of None \<Rightarrow> db | Some a \<Rightarrow> resolve_where (by_id (al_id a)) r t db)) = []"
proof (cases ex)
  case None
  then show ?thesis using open_of_only [OF store_okD(2) [OF assms(1)], of k] assms(2) by simp
next
  case (Some x)
  have "by_id (al_id x) a" if "a \<in> set (st_alerts db)" "key_matches k a" "is_open a" for a
  proof -
    have "a \<in> set (open_alerts k (st_alerts db))" using that by (simp add: open_alerts_def)
    then show ?thesis using open_of_only [OF store_okD(2) [OF assms(1)], of k] assms(2) Some by (simp add: by_id_def)
  qed
  then show ?thesis using Some by (simp add: resolve_where_open)
qed

text \<open>The alert of the host after its evaluation, unless one must be opened and the imports fail.\<close>

lemma evaluate_host_alert:
  assumes "store_ok (wc_now cx) (ww_store w)" "find_target (ww_resources w) h = Some r"
    and "imports_ok (wc_names cx) \<or> host_alert w h \<noteq> None \<or> \<not> needs_alert cx w (h, age)"
  shows "\<exists>w'. evaluate_host cx (h, age) w = Inr w' \<and>
     map (\<lambda>a. (al_severity a, al_current_value a, al_threshold a))
         (open_alerts (wd_key (wh_account h) (rs_resource_id r)) (st_alerts (ww_store w'))) =
       (if needs_alert cx w (h, age)
        then (let st = classify age (wc_stale cx) in [(level_of st, Some (of_int age), Some (of_int (line_of st (wc_stale cx))))])
        else [])"
proof -
  let ?k = "wd_key (wh_account h) (rs_resource_id r)" and ?st = "classify age (wc_stale cx)"
  have ex: "host_alert w h = open_of ?k (st_alerts (ww_store w))" by (simp add: host_alert_def assms(2))
  consider "?st = Online" | "?st \<noteq> Online" "host_stopped cx w h" | "needs_alert cx w (h, age)"
    by (auto simp: needs_alert_def)
  then show ?thesis
  proof cases
    case 1
    then show ?thesis using resolve_found [OF assms(1) refl]
      by (simp add: evaluate_host_cases needs_alert_def quiet_store ex)
  next
    case 2
    then show ?thesis using resolve_found [OF assms(1) refl]
      by (simp add: evaluate_host_cases needs_alert_def quiet_store ex)
  next
    case 3
    have imp: "imports_ok (wc_names cx) \<or> open_of ?k (st_alerts (ww_store w)) \<noteq> None" using assms(3) 3 ex by simp
    obtain w' envt where w': "evaluate_silent cx h age ?st (Some r) (open_of ?k (st_alerts (ww_store w)))
          (instance_info (wc_now cx) (wc_metrics cx) (ww_resources w) h) w = Inr w'"
        and st: "ww_store w' = upsert_alert ?k (wd_touch (wc_now cx) (level_of ?st) age (line_of ?st (wc_stale cx)))
          (wd_alert (wc_now cx) (wh_account h) r (level_of ?st) envt age (line_of ?st (wc_stale cx))
             (wc_silenced cx (wh_account h, rs_resource_id r))) (ww_store w)"
      using evaluate_silent_store [OF imp assms(2)] by blast
    have "evaluate_host cx (h, age) w = Inr w'"
      using 3 w' by (simp add: evaluate_host_cases needs_alert_def ex assms(2))
    moreover note heartbeat.upsert_open [OF store_okD(2) [OF assms(1)]]
    ultimately show ?thesis using 3
      by (simp add: st wd_touch_def wd_alert_def Let_def split: option.split)
  qed
qed

subsection \<open>A pass when the imports fail\<close>

text \<open>Then no alert is ever opened: a pass resolves and refreshes, or it raises.\<close>

lemma evaluate_silent_fails:
  "\<not> imports_ok (wc_names cx) \<Longrightarrow> evaluate_silent cx h age st target None inst w = Inl ImportError"
  by (simp add: evaluate_silent_def watchdog_environment_def Let_def split: prod.split)

locale store_property =
  fixes P :: "store \<Rightarrow> bool" and now :: secs
  assumes resolving: "P db \<Longrightarrow> P (resolve_where (by_id i) r now db)"
    and refreshing: "P db \<Longrightarrow> open_of k (st_alerts db) = Some ex \<Longrightarrow>
      P (db\<lparr>st_alerts := update_where (by_id (al_id ex)) (wd_touch now sev age thr) (st_alerts db)\<rparr>)"
begin

lemma evaluate_host_keeps:
  assumes "\<not> imports_ok (wc_names cx)" "wc_now cx = now" "evaluate_host cx ha w = Inr w'" "P (ww_store w)"
  shows "P (ww_store w')" and "ww_resources w' = ww_resources w"
proof -
  obtain h age where ha: "ha = (h, age)" by fastforce
  have silent: "P (ww_store w') \<and> ww_resources w' = ww_resources w"
    if "evaluate_silent cx h age st (find_target (ww_resources w) h) (host_alert w h) inst w = Inr w'" for st inst
  proof (cases "host_alert w h")
    case None
    then show ?thesis using that evaluate_silent_fails [OF assms(1)] by simp
  next
    case (Some ex)
    then have "find_target (ww_resources w) h \<noteq> None" unfolding host_alert_def by (cases "find_target (ww_resources w) h") simp_all
    then obtain r where "find_target (ww_resources w) h = Some r" by blast
    with Some have "open_of (wd_key (wh_account h) (rs_resource_id r)) (st_alerts (ww_store w)) = Some ex"
      by (simp add: host_alert_def)
    from refreshing [OF assms(4) this] show ?thesis
      using that Some assms(2) by (auto simp: evaluate_silent_def wd_refresh_def Let_def)
  qed
  have "P (ww_store w') \<and> ww_resources w' = ww_resources w"
  proof (cases "classify age (wc_stale cx) = Online \<or> host_stopped cx w h")
    case True
    then show ?thesis using assms(2-4) resolving
      by (auto simp: ha evaluate_host_cases quiet_store wd_online_def wd_quiet_def Let_def split: if_splits option.splits)
  next
    case False
    then show ?thesis using assms(3) silent by (simp add: ha evaluate_host_cases)
  qed
  then show "P (ww_store w')" and "ww_resources w' = ww_resources w" by auto
qed

lemma supersede_keeps:
  "ww_store (fold (supersede cx i) twins w) = ww_store w" "ww_resources (fold (supersede cx i) twins w) = ww_resources w"
  by (induction twins arbitrary: w) (simp_all add: supersede_def)

lemma evaluate_groups_keeps:
  "\<not> imports_ok (wc_names cx) \<Longrightarrow> wc_now cx = now \<Longrightarrow> evaluate_groups cx gs w = Inr w' \<Longrightarrow> P (ww_store w) \<Longrightarrow> P (ww_store w')"
proof (induction cx gs w rule: evaluate_groups.induct)
  case (2 cx ms gs w)
  show ?case
  proof (cases "by_age ms")
    case Nil
    then show ?thesis using 2 by simp
  next
    case (Cons lead twins)
    with 2(5) obtain w1 where w1: "evaluate_host cx lead w = Inr w1" by (auto split: sum.splits)
    show ?thesis
      using 2(2) [OF Cons w1 2(3,4)] 2(5,6) Cons w1 evaluate_host_keeps(1) [OF 2(3,4) w1] by (simp add: supersede_keeps)
  qed
qed simp

lemma clean_departed_keeps:
  "P (ww_store w) \<Longrightarrow> P (ww_store (clean_departed now hosts w))" "ww_resources (clean_departed now hosts w) = ww_resources w"
proof -
  have "P (ww_store v) \<Longrightarrow> P (ww_store (fold (drop_departed now) ss v))"
    and "ww_resources (fold (drop_departed now) ss v) = ww_resources v" for ss v
    by (induction ss arbitrary: v) (auto simp: drop_departed_def Let_def resolving split: option.split)
  then show "P (ww_store w) \<Longrightarrow> P (ww_store (clean_departed now hosts w))"
    "ww_resources (clean_departed now hosts w) = ww_resources w"
    by (simp_all add: clean_departed_def)
qed

lemma run_watchdog_keeps:
  assumes "P (ww_store w)" "\<not> imports_ok names"
  shows "P (ww_store (fst (run_watchdog osenv names metrics silenced now accounts hosts w)))"
proof -
  have "P (ww_store w')" if "watchdog_pass cx accounts hosts w = Inr w'" "wc_names cx = names" "wc_now cx = now" for cx w'
  proof -
    let ?w = "clean_departed now hosts (w\<lparr>ww_stats := no_wd_stats, ww_events := []\<rparr>)"
    let ?w1 = "?w\<lparr>ww_stats := (ww_stats ?w)\<lparr>wx_hosts := length (active_hosts now accounts hosts)\<rparr>\<rparr>"
    have p: "P (ww_store ?w1)" using assms(1) by (simp add: clean_departed_keeps)
    have e: "evaluate_groups cx (map snd (host_groups (ww_resources ?w) (active_hosts now accounts hosts))) ?w1 = Inr w'"
      using that by (simp add: watchdog_pass_def Let_def)
    show ?thesis by (rule evaluate_groups_keeps [OF _ that(3) e p]) (simp add: that(2) assms(2))
  qed
  then show ?thesis using assms(1) by (simp add: run_watchdog_def context_of_def split: sum.split)
qed

end

text \<open>The store stays well kept, it gets no rows, and a key without an open alert stays without.\<close>

interpretation well_kept: store_property "store_ok now" now for now :: secs
proof unfold_locales
  fix db :: store and i r assume "store_ok now db"
  then show "store_ok now (resolve_where (by_id i) r now db)" by (rule resolve_where_ok)
next
  fix db :: store and k ex sev age thr assume "store_ok now db"
  then show "store_ok now (db\<lparr>st_alerts := update_where (by_id (al_id ex)) (wd_touch now sev age thr) (st_alerts db)\<rparr>)"
    by (rule refresh_store_ok [OF keeps_wd_touch])
qed

interpretation no_new_rows: store_property "\<lambda>db. length (st_alerts db) = n" now for now :: secs and n :: nat
  by unfold_locales (simp_all add: resolve_where_def)

interpretation none_open: store_property "\<lambda>db. open_count k (st_alerts db) = 0" now for now :: secs and k :: alert_key
proof unfold_locales
  fix db :: store and i r assume z: "open_count k (st_alerts db) = 0"
  have "open_count k (st_alerts (resolve_where (by_id i) r now db)) \<le> open_count k (st_alerts db)"
    by (simp add: resolve_where_def) (rule open_count_update_where, simp_all)
  then show "open_count k (st_alerts (resolve_where (by_id i) r now db)) = 0" using z by simp
next
  fix db :: store and k' ex sev age thr assume z: "open_count k (st_alerts db) = 0"
  have "open_count k (update_where (by_id (al_id ex)) (wd_touch now sev age thr) (st_alerts db)) \<le> open_count k (st_alerts db)"
    by (rule open_count_update_where) (simp_all add: keepsD [OF keeps_wd_touch])
  then show "open_count k (st_alerts (db\<lparr>st_alerts := update_where (by_id (al_id ex)) (wd_touch now sev age thr) (st_alerts db)\<rparr>)) = 0"
    using z by simp
qed

text \<open>A host that is silent without an open alert makes the pass raise.\<close>

lemma evaluate_host_error: "evaluate_host cx ha w = Inl e \<Longrightarrow> e = ImportError"
  by (cases ha) (auto simp: evaluate_host_cases evaluate_silent_def watchdog_environment_def Let_def
      split: if_splits option.splits prod.splits sum.splits)

lemma evaluate_groups_raise:
  assumes "\<not> imports_ok (wc_names cx)" "ms \<in> set gs" "by_age ms = (h, age) # twins"
    and "classify age (wc_stale cx) \<noteq> Online" "\<And>v. ww_resources v = ww_resources w \<Longrightarrow> \<not> host_stopped cx v h"
    and "case find_target (ww_resources w) h of None \<Rightarrow> True
         | Some r \<Rightarrow> open_count (wd_key (wh_account h) (rs_resource_id r)) (st_alerts (ww_store w)) = 0"
  shows "evaluate_groups cx gs w = Inl ImportError"
  using assms
proof (induction gs arbitrary: w)
  case (Cons g gs)
  show ?case
  proof (cases "g = ms")
    case True
    have "host_alert w h = None"
      using Cons.prems(6) by (simp add: host_alert_def open_of_None split: option.splits)
    then have "evaluate_host cx (h, age) w = Inl ImportError"
      using Cons.prems(1,4,5) by (simp add: evaluate_host_cases evaluate_silent_fails)
    then show ?thesis using True Cons.prems(3) by simp
  next
    case False
    then have ms: "ms \<in> set gs" using Cons.prems(2) by simp
    show ?thesis
    proof (cases "by_age g")
      case Nil
      then show ?thesis using Cons.IH [OF Cons.prems(1) ms Cons.prems(3-6)] by simp
    next
      case (Cons lead more)
      show ?thesis
      proof (cases "evaluate_host cx lead w")
        case (Inl e)
        then show ?thesis using Cons evaluate_host_error by auto
      next
        case (Inr w1)
        let ?w = "fold (supersede cx (wh_id (fst lead))) more w1"
        have res: "ww_resources ?w = ww_resources w"
          using no_new_rows.evaluate_host_keeps(2) [OF Cons.prems(1) refl Inr refl]
          by (simp add: no_new_rows.supersede_keeps)
        have "open_count k (st_alerts (ww_store w)) = 0 \<Longrightarrow> open_count k (st_alerts (ww_store ?w)) = 0" for k
          using none_open.evaluate_host_keeps(1) [OF Cons.prems(1) refl Inr]
          by (simp add: no_new_rows.supersede_keeps)
        then have "evaluate_groups cx gs ?w = Inl ImportError"
          using Cons.prems(3-6) by (intro Cons.IH [OF Cons.prems(1) ms]) (auto simp: res split: option.splits)
        then show ?thesis using Cons Inr by simp
      qed
    qed
  qed
qed simp

lemma host_stopped_resources: "ww_resources v = ww_resources w \<Longrightarrow> host_stopped cx v h = host_stopped cx w h"
  by (simp add: host_stopped_def)

lemma run_watchdog_raises:
  assumes "watchdog_enabled osenv" "\<not> imports_ok names"
    and "(g, ms) \<in> set (host_groups (ww_resources w) (active_hosts now accounts hosts))" "by_age ms = (h, age) # twins"
    and "needs_alert (context_of osenv names metrics silenced now) w (h, age)" "host_alert w h = None"
  shows "run_watchdog osenv names metrics silenced now accounts hosts w = (w, [], Some ImportError)"
proof -
  let ?cx = "context_of osenv names metrics silenced now"
  let ?w = "clean_departed now hosts (w\<lparr>ww_stats := no_wd_stats, ww_events := []\<rparr>)"
  let ?w1 = "?w\<lparr>ww_stats := (ww_stats ?w)\<lparr>wx_hosts := length (active_hosts now accounts hosts)\<rparr>\<rparr>"
  have cx: "wc_now ?cx = now" "wc_names ?cx = names" by (simp_all add: context_of_def)
  have res: "ww_resources ?w1 = ww_resources w" by (simp add: no_new_rows.clean_departed_keeps)
  have z: "open_count k (st_alerts (ww_store w)) = 0 \<Longrightarrow> open_count k (st_alerts (ww_store ?w1)) = 0" for k
    by (simp add: none_open.clean_departed_keeps)
  have "evaluate_groups ?cx (map snd (host_groups (ww_resources ?w) (active_hosts now accounts hosts))) ?w1 = Inl ImportError"
  proof (rule evaluate_groups_raise)
    show "\<not> imports_ok (wc_names ?cx)" using assms(2) cx by simp
    show "ms \<in> set (map snd (host_groups (ww_resources ?w) (active_hosts now accounts hosts)))"
      using assms(3) res by force
    show "by_age ms = (h, age) # twins" by (rule assms(4))
    show "classify age (wc_stale ?cx) \<noteq> Online" using assms(5) by (simp add: needs_alert_def)
    show "\<not> host_stopped ?cx v h" if "ww_resources v = ww_resources ?w1" for v
      using assms(5) host_stopped_resources [of v w] that res by (simp add: needs_alert_def)
    show "case find_target (ww_resources ?w1) h of None \<Rightarrow> True
      | Some r \<Rightarrow> open_count (wd_key (wh_account h) (rs_resource_id r)) (st_alerts (ww_store ?w1)) = 0"
      unfolding res using assms(6) z by (simp add: host_alert_def open_of_None split: option.splits)
  qed
  then have "watchdog_pass ?cx accounts hosts w = Inl ImportError" by (simp add: watchdog_pass_def Let_def cx)
  then show ?thesis using assms(1) by (simp add: run_watchdog_def)
qed

end
