(* ===== verification/Json.thy ===== *)
theory Json
  imports Env_Polling
begin

text \<open>
  Values of a request body, as \<open>json.loads\<close> gives them, and the conversions and text checks the
  validating endpoints share: \<open>int(value)\<close>, Python truth, and the shape of an email address.
\<close>

datatype json =
    JsonNull
  | JsonBool bool
  | JsonInt int
  | JsonFloat rat
  | JsonInf
  | JsonNan
  | JsonText string
  | JsonList "json list"
  | JsonObject "(string \<times> json) list"

text \<open>\<open>int(value)\<close>.\<close>

definition json_int :: "json \<Rightarrow> py_error + int" where
  "json_int v =
     (case v of
        JsonBool b \<Rightarrow> Inr (of_bool b)
      | JsonInt n \<Rightarrow> Inr n
      | JsonFloat q \<Rightarrow> Inr (if q < 0 then - \<lfloor>- q\<rfloor> else \<lfloor>q\<rfloor>)
      | JsonInf \<Rightarrow> Inl OverflowError
      | JsonNan \<Rightarrow> Inl ValueError
      | JsonText s \<Rightarrow> (case py_int s of None \<Rightarrow> Inl ValueError | Some n \<Rightarrow> Inr n)
      | _ \<Rightarrow> Inl TypeError)"

definition json_truth :: "json \<Rightarrow> bool" where
  "json_truth v =
     (case v of
        JsonNull \<Rightarrow> False
      | JsonBool b \<Rightarrow> b
      | JsonInt n \<Rightarrow> n \<noteq> 0
      | JsonFloat q \<Rightarrow> q \<noteq> 0
      | JsonText s \<Rightarrow> s \<noteq> []
      | JsonList l \<Rightarrow> l \<noteq> []
      | JsonObject d \<Rightarrow> d \<noteq> []
      | _ \<Rightarrow> True)"

text \<open>A field of a body: \<open>None\<close> when the key is not there.\<close>

definition json_field :: "(string \<times> json) list \<Rightarrow> string \<Rightarrow> json option" where
  "json_field d k = map_of d k"

text \<open>
  The pattern \<open>^[^...]+@[^...]+\.[^...]+$\<close>: one \<open>@\<close> with something before it, and after it a dot
  with something on both sides; \<open>bad\<close> are the characters the class leaves out, beside \<open>@\<close>. The
  addresses are stripped before, so the line end before \<open>$\<close> cannot occur.
\<close>

definition email_shape :: "(char \<Rightarrow> bool) \<Rightarrow> string \<Rightarrow> bool" where
  "email_shape bad a =
     (case split_ch (CHR ''@'') a of
        [user, domain] \<Rightarrow>
          user \<noteq> [] \<and> list_all (\<lambda>c. \<not> bad c) user \<and> list_all (\<lambda>c. \<not> bad c) domain \<and>
          CHR ''.'' \<in> set (butlast (tl domain))
      | _ \<Rightarrow> False)"

definition email_bad :: "char \<Rightarrow> bool" where
  "email_bad c \<longleftrightarrow> is_space_ch c \<or> c \<in> set '',;<>''"

text \<open>Distinct addresses, the first spelling of each, compared without case.\<close>

fun dedupe_addresses :: "string list \<Rightarrow> string list \<Rightarrow> string list" where
  "dedupe_addresses seen [] = []"
| "dedupe_addresses seen (a # as) =
     (if lower a \<in> set seen then dedupe_addresses seen as
      else a # dedupe_addresses (lower a # seen) as)"

lemma dedupe_distinct:
  "distinct (map lower (dedupe_addresses seen as)) \<and> set (map lower (dedupe_addresses seen as)) \<inter> set seen = {}"
  by (induction seen as rule: dedupe_addresses.induct) auto

lemma dedupe_set: "set (dedupe_addresses seen as) \<subseteq> set as"
  by (induction seen as rule: dedupe_addresses.induct) auto

lemma dedupe_covers: "a \<in> set as \<Longrightarrow> lower a \<in> set seen \<or> lower a \<in> set (map lower (dedupe_addresses seen as))"
  by (induction seen as rule: dedupe_addresses.induct) auto

text \<open>An address that passes the pattern has exactly one \<open>@\<close> and no separator of a list.\<close>

lemma email_shape_bad: "email_shape bad a \<Longrightarrow> c \<in> set a \<Longrightarrow> c = CHR ''@'' \<or> \<not> bad c"
proof -
  assume e: "email_shape bad a" and c: "c \<in> set a"
  have parts: "\<And>s c. c \<in> set s \<Longrightarrow> c = CHR ''@'' \<or> (\<exists>w\<in>set (split_ch (CHR ''@'') s). c \<in> set w)"
  proof -
    fix s :: string and c assume "c \<in> set s"
    then show "c = CHR ''@'' \<or> (\<exists>w\<in>set (split_ch (CHR ''@'') s). c \<in> set w)"
    proof (induction s)
      case (Cons x xs)
      then show ?case by (cases "split_ch (CHR ''@'') xs") auto
    qed simp
  qed
  from e obtain user domain where "split_ch (CHR ''@'') a = [user, domain]"
      "list_all (\<lambda>c. \<not> bad c) user" "list_all (\<lambda>c. \<not> bad c) domain"
    by (auto simp: email_shape_def split: list.splits)
  with parts [OF c] show "c = CHR ''@'' \<or> \<not> bad c" by (auto simp: list_all_iff)
qed

end
