(* ===== verification/Cost_Settings.thy ===== *)
theory Cost_Settings
  imports Json
begin

text \<open>
  \<open>app/cost_jump_settings.py\<close>: the settings of the cost-jump alert, for all accounts and per
  account, their validation, their resolution per field, who is told, and how they are stored
  and read back. Numbers are exact; \<open>float\<close> of a text is an argument that gives finite values only.
\<close>

subsection \<open>Rows\<close>

text \<open>A row of \<open>cost_jump_settings\<close>: NULL is \<open>None\<close>; the recipient columns hold text.\<close>

record cj_row =
  cj_enabled :: "bool option"
  cj_pct :: "rat option"
  cj_min :: "rat option"
  cj_user_ids :: "string option"
  cj_emails :: "string option"

text \<open>\<open>load\<close>: what the collector works with.\<close>

record cj_scope =
  sc_enabled :: "bool option"
  sc_pct :: "rat option"
  sc_min :: "rat option"
  sc_users :: "int list"
  sc_emails :: "string list"

record cj_settings =
  cs_global :: cj_scope
  cs_accounts :: "(nat, cj_scope) dict"

definition no_scope :: cj_scope where
  "no_scope = \<lparr>sc_enabled = None, sc_pct = None, sc_min = None, sc_users = [], sc_emails = []\<rparr>"

subsection \<open>The server environment\<close>

definition BUILTIN :: "bool \<times> rat \<times> rat" where
  "BUILTIN = (False, 30, 1 / 10)"

definition PCT_LIMITS :: "rat \<times> rat" where
  "PCT_LIMITS = (1, 1000)"

definition MIN_LIMITS :: "rat \<times> rat" where
  "MIN_LIMITS = (0, 100000)"

datatype cj_source = FromAccount | FromAllAccounts | FromEnvironment | FromDefault

definition env_flag :: "environ \<Rightarrow> bool \<times> cj_source" where
  "env_flag osenv =
     (case osenv ''COST_JUMP_ALERT_ENABLED'' of
        None \<Rightarrow> (fst BUILTIN, FromDefault)
      | Some raw \<Rightarrow>
          (let low = lower (strip raw) in
           if low \<in> {''true'', ''1'', ''yes'', ''on''} then (True, FromEnvironment)
           else if low \<in> {''false'', ''0'', ''no'', ''off''} then (False, FromEnvironment)
           else (fst BUILTIN, FromDefault)))"

definition env_number ::
  "(string \<Rightarrow> rat option) \<Rightarrow> environ \<Rightarrow> string \<Rightarrow> rat \<Rightarrow> rat \<times> rat \<Rightarrow> rat \<times> cj_source" where
  "env_number py_float osenv name dflt lims =
     (case osenv name of
        None \<Rightarrow> (dflt, FromDefault)
      | Some raw \<Rightarrow>
          if strip raw = [] then (dflt, FromDefault)
          else (case py_float raw of
                  None \<Rightarrow> (dflt, FromDefault)
                | Some v \<Rightarrow> if fst lims \<le> v \<and> v \<le> snd lims then (v, FromEnvironment) else (dflt, FromDefault)))"

record cj_env =
  ce_enabled :: "bool \<times> cj_source"
  ce_pct :: "rat \<times> cj_source"
  ce_min :: "rat \<times> cj_source"

definition env_defaults :: "(string \<Rightarrow> rat option) \<Rightarrow> environ \<Rightarrow> cj_env" where
  "env_defaults py_float osenv =
     \<lparr>ce_enabled = env_flag osenv,
      ce_pct = env_number py_float osenv ''COST_JUMP_THRESHOLD_PCT'' (fst (snd BUILTIN)) PCT_LIMITS,
      ce_min = env_number py_float osenv ''COST_JUMP_MIN_INCREASE_USD'' (snd (snd BUILTIN)) MIN_LIMITS\<rparr>"

subsection \<open>Resolution\<close>

definition resolve_field :: "'v option \<Rightarrow> 'v option \<Rightarrow> 'v \<times> cj_source \<Rightarrow> 'v \<times> cj_source" where
  "resolve_field own glob base =
     (case own of
        Some v \<Rightarrow> (v, FromAccount)
      | None \<Rightarrow> (case glob of Some v \<Rightarrow> (v, FromAllAccounts) | None \<Rightarrow> base))"

definition account_scope :: "cj_settings \<Rightarrow> nat option \<Rightarrow> cj_scope" where
  "account_scope s pk =
     (case pk of
        None \<Rightarrow> no_scope
      | Some i \<Rightarrow> (case dict_get (cs_accounts s) i of Some a \<Rightarrow> a | None \<Rightarrow> no_scope))"

definition resolve_settings :: "cj_env \<Rightarrow> cj_settings \<Rightarrow> nat option \<Rightarrow> cj_env" where
  "resolve_settings base s pk =
     (let a = account_scope s pk; g = cs_global s in
      \<lparr>ce_enabled = resolve_field (sc_enabled a) (sc_enabled g) (ce_enabled base),
       ce_pct = resolve_field (sc_pct a) (sc_pct g) (ce_pct base),
       ce_min = resolve_field (sc_min a) (sc_min g) (ce_min base)\<rparr>)"

definition effective_enabled :: "cj_env \<Rightarrow> cj_settings \<Rightarrow> nat option \<Rightarrow> bool" where
  "effective_enabled base s pk = fst (ce_enabled (resolve_settings base s pk))"

definition effective_pct :: "cj_env \<Rightarrow> cj_settings \<Rightarrow> nat option \<Rightarrow> rat" where
  "effective_pct base s pk = fst (ce_pct (resolve_settings base s pk))"

definition effective_min :: "cj_env \<Rightarrow> cj_settings \<Rightarrow> nat option \<Rightarrow> rat" where
  "effective_min base s pk = fst (ce_min (resolve_settings base s pk))"

text \<open>Who is told: the account's recipients and those of all accounts.\<close>

definition scope_recipients :: "cj_settings \<Rightarrow> nat \<Rightarrow> int list \<times> string list" where
  "scope_recipients s pk =
     (let g = cs_global s; own = account_scope s (Some pk) in
      (sort (remdups (sc_users g @ sc_users own)), dedupe_addresses [] (map lower (sc_emails g @ sc_emails own))))"

subsection \<open>Validation\<close>

text \<open>\<open>None\<close>: the field is not in the body; \<open>Some None\<close>: inherit.\<close>

record cj_patch =
  pj_enabled :: "bool option option"
  pj_pct :: "rat option option"
  pj_min :: "rat option option"
  pj_users :: "int list option option"
  pj_emails :: "string list option option"

definition round_to :: "nat \<Rightarrow> rat \<Rightarrow> rat" where
  "round_to n v = of_int (py_round (v * 10 ^ n)) / 10 ^ n"

definition clean_flag :: "json \<Rightarrow> string + bool option" where
  "clean_flag v =
     (case v of
        JsonNull \<Rightarrow> Inr None
      | JsonBool b \<Rightarrow> Inr (Some b)
      | _ \<Rightarrow> Inl ''enabled must be true, false or null (inherit).'')"

definition clean_number :: "string \<Rightarrow> string \<Rightarrow> rat \<times> rat \<Rightarrow> nat \<Rightarrow> json \<Rightarrow> string + rat option" where
  "clean_number name range_text lims places v =
     (let checked = (\<lambda>x. if fst lims \<le> x \<and> x \<le> snd lims then Inr (Some (round_to places x))
                        else Inl (name @ '' must be between '' @ range_text @ ''.'')) in
      case v of
        JsonNull \<Rightarrow> Inr None
      | JsonInt n \<Rightarrow> checked (of_int n)
      | JsonFloat x \<Rightarrow> checked x
      | _ \<Rightarrow> Inl (name @ '' must be a number or null (inherit).''))"

definition MAX_RECIPIENT_USERS :: nat where
  "MAX_RECIPIENT_USERS = 50"

definition MAX_RECIPIENT_EMAILS :: nat where
  "MAX_RECIPIENT_EMAILS = 20"

definition user_id_of :: "json \<Rightarrow> int option" where
  "user_id_of v = (case v of JsonInt n \<Rightarrow> if n > 0 then Some n else None | _ \<Rightarrow> None)"

definition clean_user_ids :: "json \<Rightarrow> string + int list option" where
  "clean_user_ids v =
     (let bad = Inl ''notify_user_ids must be a list of user ids, or null.'' in
      case v of
        JsonNull \<Rightarrow> Inr None
      | JsonList xs \<Rightarrow>
          if xs = [] then Inr None
          else if list_ex (\<lambda>x. user_id_of x = None) xs then bad
          else (let ids = sort (remdups (map (the \<circ> user_id_of) xs)) in
                if length ids > MAX_RECIPIENT_USERS then Inl ''At most 50 users per scope.'' else Inr (Some ids))
      | _ \<Rightarrow> bad)"

text \<open>\<open>re.split(r"[,;\s]+", v.strip())\<close>; empty pieces are skipped by the loop.\<close>

fun split_pieces :: "(char \<Rightarrow> bool) \<Rightarrow> string \<Rightarrow> string \<Rightarrow> string list" where
  "split_pieces sep acc [] = [rev acc]"
| "split_pieces sep acc (c # cs) = (if sep c then rev acc # split_pieces sep [] cs else split_pieces sep (c # acc) cs)"

fun clean_addresses :: "string list \<Rightarrow> string list \<Rightarrow> string + string list" where
  "clean_addresses out [] = Inr out"
| "clean_addresses out (raw # rest) =
     (let a = lower (strip raw) in
      if a = [] then clean_addresses out rest
      else if length a > 254 \<or> \<not> email_shape email_bad a then Inl (''Not a valid email address: '' @ take 60 a)
      else clean_addresses (if a \<in> set out then out else out @ [a]) rest)"

definition text_of :: "json \<Rightarrow> string option" where
  "text_of v = (case v of JsonText s \<Rightarrow> Some s | _ \<Rightarrow> None)"

definition clean_email_list :: "string list \<Rightarrow> string + string list option" where
  "clean_email_list pieces =
     (case clean_addresses [] pieces of
        Inl e \<Rightarrow> Inl e
      | Inr out \<Rightarrow>
          if length out > MAX_RECIPIENT_EMAILS then Inl ''At most 20 email addresses per scope.''
          else Inr (if out = [] then None else Some out))"

definition clean_emails :: "json \<Rightarrow> string + string list option" where
  "clean_emails v =
     (let bad = Inl ''notify_emails must be a list of email addresses (or a comma-separated string), or null.'' in
      case v of
        JsonNull \<Rightarrow> Inr None
      | JsonText s \<Rightarrow> if s = [] then Inr None
                     else clean_email_list (split_pieces (\<lambda>c. c \<in> set '',;'' \<or> is_space_ch c) [] (strip s))
      | JsonList xs \<Rightarrow>
          if xs = [] then Inr None
          else if list_ex (\<lambda>x. text_of x = None) xs then bad
          else clean_email_list (map (the \<circ> text_of) xs)
      | _ \<Rightarrow> bad)"

text \<open>One field: not there, refused, or cleaned.\<close>

definition clean_field :: "(string \<times> json) list \<Rightarrow> string \<Rightarrow> (json \<Rightarrow> string + 'v) \<Rightarrow> string + 'v option" where
  "clean_field d k clean =
     (case json_field d k of
        None \<Rightarrow> Inr None
      | Some v \<Rightarrow> (case clean v of Inl e \<Rightarrow> Inl e | Inr x \<Rightarrow> Inr (Some x)))"

definition nothing_given :: "cj_patch \<Rightarrow> bool" where
  "nothing_given p \<longleftrightarrow> pj_enabled p = None \<and> pj_pct p = None \<and> pj_min p = None \<and> pj_users p = None \<and> pj_emails p = None"

definition validate_settings :: "json \<Rightarrow> string + cj_patch" where
  "validate_settings raw =
     (case raw of
        JsonObject d \<Rightarrow>
          (case clean_field d ''enabled'' clean_flag of Inl e \<Rightarrow> Inl e | Inr en \<Rightarrow>
          (case clean_field d ''threshold_pct'' (clean_number ''threshold_pct'' ''1 and 1000'' PCT_LIMITS 2) of Inl e \<Rightarrow> Inl e | Inr pct \<Rightarrow>
          (case clean_field d ''min_increase_usd'' (clean_number ''min_increase_usd'' ''0 and 100000'' MIN_LIMITS 4) of Inl e \<Rightarrow> Inl e | Inr mi \<Rightarrow>
          (case clean_field d ''notify_user_ids'' clean_user_ids of Inl e \<Rightarrow> Inl e | Inr us \<Rightarrow>
          (case clean_field d ''notify_emails'' clean_emails of Inl e \<Rightarrow> Inl e | Inr em \<Rightarrow>
             (let p = \<lparr>pj_enabled = en, pj_pct = pct, pj_min = mi, pj_users = us, pj_emails = em\<rparr> in
              if nothing_given p then
                Inl ''Nothing to change: send at least one of enabled, threshold_pct, min_increase_usd, notify_user_ids, notify_emails.''
              else Inr p))))))
      | _ \<Rightarrow> Inl ''Send an object with enabled, threshold_pct and/or min_increase_usd.'')"

subsection \<open>Saving and loading\<close>

definition GLOBAL_KEY :: nat where
  "GLOBAL_KEY = 0"

definition dump_ids :: "int list \<Rightarrow> string" where
  "dump_ids ids = ''['' @ py_join '', '' (map int_text ids) @ '']''"

definition dump_emails :: "string list \<Rightarrow> string" where
  "dump_emails es = py_join '', '' es"

text \<open>\<open>json.loads\<close> is the argument \<open>loads\<close>; a text it cannot read gives no ids.\<close>

definition json_ids :: "(string \<Rightarrow> json option) \<Rightarrow> string option \<Rightarrow> int list" where
  "json_ids loads v =
     (case v of
        None \<Rightarrow> []
      | Some t \<Rightarrow>
          if t = [] then []
          else (case loads t of
                  Some (JsonList xs) \<Rightarrow>
                    if list_ex (\<lambda>x. case json_int x of Inl e \<Rightarrow> True | Inr n \<Rightarrow> False) xs then []
                    else sort (remdups (map (\<lambda>x. case json_int x of Inr n \<Rightarrow> n | Inl e \<Rightarrow> 0) xs))
                | _ \<Rightarrow> []))"

definition read_csv :: "string option \<Rightarrow> string list" where
  "read_csv v =
     (case v of
        None \<Rightarrow> []
      | Some t \<Rightarrow> if t = [] then [] else filter (\<lambda>x. x \<noteq> []) (map strip (split_ch (CHR '','') t)))"

definition read_row :: "(string \<Rightarrow> json option) \<Rightarrow> cj_row \<Rightarrow> cj_scope" where
  "read_row loads r =
     \<lparr>sc_enabled = cj_enabled r, sc_pct = cj_pct r, sc_min = cj_min r,
      sc_users = json_ids loads (cj_user_ids r), sc_emails = read_csv (cj_emails r)\<rparr>"

definition load_settings :: "(string \<Rightarrow> json option) \<Rightarrow> (nat, cj_row) dict \<Rightarrow> cj_settings" where
  "load_settings loads tbl =
     \<lparr>cs_global = (case dict_get tbl GLOBAL_KEY of None \<Rightarrow> no_scope | Some r \<Rightarrow> read_row loads r),
      cs_accounts = map (\<lambda>(k, r). (k, read_row loads r)) (filter (\<lambda>(k, r). k \<noteq> GLOBAL_KEY) tbl)\<rparr>"

definition no_row :: cj_row where
  "no_row = \<lparr>cj_enabled = None, cj_pct = None, cj_min = None, cj_user_ids = None, cj_emails = None\<rparr>"

definition assign :: "'v option \<Rightarrow> 'v \<Rightarrow> 'v" where
  "assign v old = (case v of None \<Rightarrow> old | Some x \<Rightarrow> x)"

definition patched_row :: "cj_patch \<Rightarrow> cj_row \<Rightarrow> cj_row" where
  "patched_row p r =
     \<lparr>cj_enabled = assign (pj_enabled p) (cj_enabled r), cj_pct = assign (pj_pct p) (cj_pct r),
      cj_min = assign (pj_min p) (cj_min r),
      cj_user_ids = assign (map_option (map_option dump_ids) (pj_users p)) (cj_user_ids r),
      cj_emails = assign (map_option (map_option dump_emails) (pj_emails p)) (cj_emails r)\<rparr>"

text \<open>The upsert of the given columns; an account's row left without any value is removed.\<close>

definition save_settings :: "nat \<Rightarrow> cj_patch \<Rightarrow> (nat, cj_row) dict \<Rightarrow> (nat, cj_row) dict" where
  "save_settings key p tbl =
     (if nothing_given p then tbl
      else
        (let r = patched_row p (case dict_get tbl key of None \<Rightarrow> no_row | Some r \<Rightarrow> r)
         in if key \<noteq> GLOBAL_KEY \<and> r = no_row then dict_del (dict_set tbl key r) key else dict_set tbl key r))"

subsection \<open>Facts\<close>

text \<open>A validated percentage or amount is within its limits, and every effective one is.\<close>

definition in_limits :: "rat \<times> rat \<Rightarrow> rat \<Rightarrow> bool" where
  "in_limits lims x \<longleftrightarrow> fst lims \<le> x \<and> x \<le> snd lims"

lemma py_round_mono: "x \<le> y \<Longrightarrow> py_round x \<le> py_round y"
proof -
  assume xy: "x \<le> y"
  have f: "\<lfloor>x\<rfloor> \<le> \<lfloor>y\<rfloor>" using xy by (rule floor_mono)
  show ?thesis
  proof (cases "\<lfloor>x\<rfloor> = \<lfloor>y\<rfloor>")
    case True
    then show ?thesis using xy by (auto simp: py_round_def Let_def)
  next
    case False
    then have "\<lfloor>x\<rfloor> + 1 \<le> \<lfloor>y\<rfloor>" using f by simp
    moreover have "py_round x \<le> \<lfloor>x\<rfloor> + 1" "\<lfloor>y\<rfloor> \<le> py_round y" by (simp_all add: py_round_def Let_def)
    ultimately show ?thesis by linarith
  qed
qed

lemma py_round_of_int [simp]: "py_round (of_int n) = n"
  by (simp add: py_round_def)

lemma round_to_limits:
  assumes "x * 10 ^ n = of_int a" "y * 10 ^ n = of_int b" "x \<le> v" "v \<le> y"
  shows "x \<le> round_to n v \<and> round_to n v \<le> y"
proof -
  have p: "0 < (10 ^ n :: rat)" by simp
  have "of_int a \<le> v * 10 ^ n" "v * 10 ^ n \<le> of_int b"
    using assms(3,4) unfolding assms(1,2) [symmetric] by simp_all
  from this [THEN py_round_mono] have "a \<le> py_round (v * 10 ^ n)" "py_round (v * 10 ^ n) \<le> b" by simp_all
  then have "of_int a \<le> (of_int (py_round (v * 10 ^ n)) :: rat)" "(of_int (py_round (v * 10 ^ n)) :: rat) \<le> of_int b"
    by simp_all
  then show ?thesis
    using p unfolding round_to_def assms(1,2) [symmetric] by (simp add: pos_le_divide_eq pos_divide_le_eq)
qed

lemma clean_number_pct: "clean_number n t PCT_LIMITS 2 v = Inr (Some x) \<Longrightarrow> in_limits PCT_LIMITS x"
  using round_to_limits [of 1 2 100 1000 100000]
  by (auto simp: clean_number_def PCT_LIMITS_def in_limits_def split: json.splits if_splits)

lemma clean_number_min: "clean_number n t MIN_LIMITS 4 v = Inr (Some x) \<Longrightarrow> in_limits MIN_LIMITS x"
  using round_to_limits [of 0 4 0 100000 1000000000]
  by (auto simp: clean_number_def MIN_LIMITS_def in_limits_def split: json.splits if_splits)

lemma env_number_limits: "in_limits lims dflt \<Longrightarrow> in_limits lims (fst (env_number f e n dflt lims))"
  by (auto simp: env_number_def in_limits_def split: option.split)

subsection \<open>What is saved reads back\<close>

definition plain_address :: "string \<Rightarrow> bool" where
  "plain_address a \<longleftrightarrow> a \<noteq> [] \<and> list_all (\<lambda>c. \<not> email_bad c) a"

lemma email_shape_plain: "a \<noteq> [] \<Longrightarrow> email_shape email_bad a \<Longrightarrow> plain_address a"
proof -
  have "\<not> email_bad (CHR ''@'')" by (simp add: email_bad_def is_space_ch_def ch_code_def)
  then show "a \<noteq> [] \<Longrightarrow> email_shape email_bad a \<Longrightarrow> plain_address a"
    using email_shape_bad [of email_bad a] by (auto simp: plain_address_def list_all_iff)
qed

lemma clean_addresses_plain:
  "clean_addresses out raws = Inr es \<Longrightarrow> list_all plain_address out \<Longrightarrow> list_all plain_address es"
proof (induction out raws rule: clean_addresses.induct)
  case (2 out raw rest)
  let ?a = "lower (strip raw)"
  show ?case
  proof (cases "?a = []")
    case True
    then show ?thesis using 2 by (simp add: Let_def)
  next
    case False
    then have ok: "length ?a \<le> 254" "email_shape email_bad ?a"
      using 2(3) by (auto simp: Let_def split: if_splits)
    then have "plain_address ?a" using False email_shape_plain by blast
    moreover have "clean_addresses (if ?a \<in> set out then out else out @ [?a]) rest = Inr es"
      using 2(3) False ok by (simp add: Let_def)
    ultimately show ?thesis using 2(2) [OF refl False] 2(4) ok by simp
  qed
qed simp

lemma clean_emails_plain: "clean_emails v = Inr (Some es) \<Longrightarrow> es \<noteq> [] \<and> list_all plain_address es"
  using clean_addresses_plain [of "[]"]
  by (auto simp: clean_emails_def clean_email_list_def Let_def split: json.splits if_splits sum.splits)

lemma clean_ids_sorted: "clean_user_ids v = Inr (Some ids) \<Longrightarrow> sorted ids \<and> distinct ids"
  by (auto simp: clean_user_ids_def Let_def split: json.splits if_splits)

lemma strip_plain: "plain_address a \<Longrightarrow> strip a = a" "plain_address a \<Longrightarrow> strip ('' '' @ a) = a"
proof -
  assume "plain_address a"
  then have "list_all (\<lambda>c. \<not> is_space_ch c) a" by (auto simp: plain_address_def list_all_iff email_bad_def)
  then show s: "strip a = a" by (rule strip_no_space)
  have "strip ('' '' @ a) = strip a" by (simp add: strip_def is_space_ch_def ch_code_def)
  with s show "strip ('' '' @ a) = a" by simp
qed

lemma comma_pieces:
  "ws \<noteq> [] \<Longrightarrow> \<forall>w\<in>set ws. CHR '','' \<notin> set w \<Longrightarrow>
     split_ch (CHR '','') (py_join '', '' ws) = hd ws # map (\<lambda>w. '' '' @ w) (tl ws)"
proof (induction ws)
  case (Cons w ws)
  have no: "CHR '','' \<notin> set w" using Cons.prems by simp
  show ?case
  proof (cases ws)
    case Nil
    then show ?thesis using no by (simp add: split_ch_no)
  next
    case (Cons v vs)
    have IH: "split_ch (CHR '','') (py_join '', '' ws) = v # map (\<lambda>w. '' '' @ w) vs"
      using Cons.IH Cons.prems Cons by simp
    have "split_ch (CHR '','') (w @ CHR '','' # ('' '' @ py_join '', '' ws)) = w # ('' '' @ v) # map (\<lambda>w. '' '' @ w) vs"
      using IH by (subst split_ch_append [OF no]) simp
    then show ?thesis using Cons by simp
  qed
qed simp

lemma csv_reads_back: "es \<noteq> [] \<Longrightarrow> list_all plain_address es \<Longrightarrow> read_csv (Some (dump_emails es)) = es"
proof -
  assume es: "es \<noteq> []" "list_all plain_address es"
  then obtain w ws where w: "es = w # ws" by (cases es) auto
  have no: "\<forall>w\<in>set es. CHR '','' \<notin> set w"
    using es(2) by (auto simp: plain_address_def list_all_iff email_bad_def)
  have ne: "dump_emails es \<noteq> []" using es by (cases ws) (auto simp: w dump_emails_def plain_address_def)
  have "map strip (split_ch (CHR '','') (dump_emails es)) = es"
    using comma_pieces [OF es(1) no] es(2) strip_plain by (simp add: dump_emails_def w list_all_iff cong: map_cong)
  moreover have "filter (\<lambda>x. x \<noteq> []) es = es" using es(2) by (auto simp: list_all_iff plain_address_def intro: filter_True)
  ultimately show ?thesis using ne by (simp add: read_csv_def)
qed

text \<open>The scope a key has in the table.\<close>

definition scope_at :: "(string \<Rightarrow> json option) \<Rightarrow> (nat, cj_row) dict \<Rightarrow> nat \<Rightarrow> cj_scope" where
  "scope_at loads tbl key = (case dict_get tbl key of None \<Rightarrow> no_scope | Some r \<Rightarrow> read_row loads r)"

lemma load_scopes:
  "cs_global (load_settings loads tbl) = scope_at loads tbl GLOBAL_KEY"
  "key \<noteq> GLOBAL_KEY \<Longrightarrow> account_scope (load_settings loads tbl) (Some key) = scope_at loads tbl key"
proof -
  show "cs_global (load_settings loads tbl) = scope_at loads tbl GLOBAL_KEY"
    by (simp add: load_settings_def scope_at_def)
  have "dict_get (map (\<lambda>(k, r). (k, f r)) (filter (\<lambda>(k, r). k \<noteq> GLOBAL_KEY) tbl)) key = map_option f (dict_get tbl key)"
    if "key \<noteq> GLOBAL_KEY" for f :: "cj_row \<Rightarrow> cj_scope"
    using that by (induction tbl) (auto simp: dict_get_def)
  then show "key \<noteq> GLOBAL_KEY \<Longrightarrow> account_scope (load_settings loads tbl) (Some key) = scope_at loads tbl key"
    by (simp add: load_settings_def account_scope_def scope_at_def split: option.split)
qed

lemma read_no_row: "read_row loads no_row = no_scope"
  by (simp add: read_row_def no_row_def no_scope_def json_ids_def read_csv_def)

lemma scope_at_save:
  "scope_at loads (save_settings key p tbl) key' =
     (if key' = key \<and> \<not> nothing_given p
      then read_row loads (patched_row p (case dict_get tbl key of None \<Rightarrow> no_row | Some r \<Rightarrow> r))
      else scope_at loads tbl key')"
  by (auto simp: scope_at_def save_settings_def Let_def read_no_row)

definition assigned_scope :: "cj_patch \<Rightarrow> cj_scope \<Rightarrow> cj_scope" where
  "assigned_scope p s =
     \<lparr>sc_enabled = assign (pj_enabled p) (sc_enabled s), sc_pct = assign (pj_pct p) (sc_pct s),
      sc_min = assign (pj_min p) (sc_min s),
      sc_users = assign (map_option (\<lambda>v. case v of None \<Rightarrow> [] | Some ids \<Rightarrow> ids) (pj_users p)) (sc_users s),
      sc_emails = assign (map_option (\<lambda>v. case v of None \<Rightarrow> [] | Some es \<Rightarrow> es) (pj_emails p)) (sc_emails s)\<rparr>"

lemma patched_reads_back:
  assumes "\<And>ids. loads (dump_ids ids) = Some (JsonList (map JsonInt ids))"
    and "\<And>ids. pj_users p = Some (Some ids) \<Longrightarrow> sorted ids \<and> distinct ids"
    and "\<And>es. pj_emails p = Some (Some es) \<Longrightarrow> es \<noteq> [] \<and> list_all plain_address es"
  shows "read_row loads (patched_row p r) = assigned_scope p (read_row loads r)"
proof -
  have ids: "json_ids loads (Some (dump_ids ids)) = ids" if "sorted ids" "distinct ids" for ids
  proof -
    have "dump_ids ids \<noteq> []" by (simp add: dump_ids_def)
    then show ?thesis using that
      by (simp add: json_ids_def assms(1) list_ex_iff json_int_def o_def distinct_remdups_id sorted_sort_id)
  qed
  have u: "json_ids loads (assign (map_option (map_option dump_ids) (pj_users p)) (cj_user_ids r)) =
      assign (map_option (\<lambda>v. case v of None \<Rightarrow> [] | Some i \<Rightarrow> i) (pj_users p)) (json_ids loads (cj_user_ids r))"
    using ids assms(2) by (auto simp: assign_def json_ids_def split: option.split)
  have e: "read_csv (assign (map_option (map_option dump_emails) (pj_emails p)) (cj_emails r)) =
      assign (map_option (\<lambda>v. case v of None \<Rightarrow> [] | Some i \<Rightarrow> i) (pj_emails p)) (read_csv (cj_emails r))"
  proof (cases "pj_emails p")
    case None
    then show ?thesis by (simp add: assign_def)
  next
    case (Some v)
    then show ?thesis using csv_reads_back assms(3) by (cases v) (auto simp: assign_def read_csv_def)
  qed
  show ?thesis using u e by (simp add: read_row_def patched_row_def assigned_scope_def)
qed

lemma validate_cases:
  assumes "validate_settings raw = Inr p"
  obtains d where "clean_field d ''threshold_pct'' (clean_number ''threshold_pct'' ''1 and 1000'' PCT_LIMITS 2) = Inr (pj_pct p)"
    "clean_field d ''min_increase_usd'' (clean_number ''min_increase_usd'' ''0 and 100000'' MIN_LIMITS 4) = Inr (pj_min p)"
    "clean_field d ''notify_user_ids'' clean_user_ids = Inr (pj_users p)"
    "clean_field d ''notify_emails'' clean_emails = Inr (pj_emails p)" "\<not> nothing_given p"
proof -
  obtain d where d: "raw = JsonObject d" using assms by (cases raw) (simp_all add: validate_settings_def)
  then show ?thesis using assms
    by (intro that [of d]) (auto simp: validate_settings_def Let_def split: sum.splits if_splits)
qed

lemma clean_field_given: "clean_field d k f = Inr (Some x) \<Longrightarrow> \<exists>v. f v = Inr x"
  by (auto simp: clean_field_def split: option.splits sum.splits)

lemma validated_recipients:
  assumes "validate_settings raw = Inr p"
  shows "pj_users p = Some (Some ids) \<Longrightarrow> sorted ids \<and> distinct ids"
    and "pj_emails p = Some (Some es) \<Longrightarrow> es \<noteq> [] \<and> list_all plain_address es"
    and "pj_pct p = Some (Some x) \<Longrightarrow> in_limits PCT_LIMITS x"
    and "pj_min p = Some (Some x) \<Longrightarrow> in_limits MIN_LIMITS x"
    and "\<not> nothing_given p"
proof -
  obtain d where d: "clean_field d ''threshold_pct'' (clean_number ''threshold_pct'' ''1 and 1000'' PCT_LIMITS 2) = Inr (pj_pct p)"
    "clean_field d ''min_increase_usd'' (clean_number ''min_increase_usd'' ''0 and 100000'' MIN_LIMITS 4) = Inr (pj_min p)"
    "clean_field d ''notify_user_ids'' clean_user_ids = Inr (pj_users p)"
    "clean_field d ''notify_emails'' clean_emails = Inr (pj_emails p)" "\<not> nothing_given p"
    by (rule validate_cases [OF assms]) blast
  show "pj_users p = Some (Some ids) \<Longrightarrow> sorted ids \<and> distinct ids"
    using d(3) by (auto dest!: clean_field_given clean_ids_sorted)
  show "pj_emails p = Some (Some es) \<Longrightarrow> es \<noteq> [] \<and> list_all plain_address es"
    using d(4) by (auto dest!: clean_field_given clean_emails_plain)
  show "pj_pct p = Some (Some x) \<Longrightarrow> in_limits PCT_LIMITS x"
    using d(1) by (auto dest!: clean_field_given clean_number_pct)
  show "pj_min p = Some (Some x) \<Longrightarrow> in_limits MIN_LIMITS x"
    using d(2) by (auto dest!: clean_field_given clean_number_min)
  show "\<not> nothing_given p" by (rule d(5))
qed

text \<open>Rows within the limits: kept by a validated save, inherited by what is in force.\<close>

definition row_in_limits :: "cj_row \<Rightarrow> bool" where
  "row_in_limits r \<longleftrightarrow>
     (case cj_pct r of None \<Rightarrow> True | Some x \<Rightarrow> in_limits PCT_LIMITS x) \<and>
     (case cj_min r of None \<Rightarrow> True | Some x \<Rightarrow> in_limits MIN_LIMITS x)"

definition rows_in_limits :: "(nat, cj_row) dict \<Rightarrow> bool" where
  "rows_in_limits tbl \<longleftrightarrow> list_all (row_in_limits \<circ> snd) tbl"

lemma rows_in_limits_get: "rows_in_limits tbl \<Longrightarrow> dict_get tbl k = Some r \<Longrightarrow> row_in_limits r"
  by (auto simp: rows_in_limits_def list_all_iff dict_get_def dest!: map_of_SomeD)

lemma rows_in_limits_set: "rows_in_limits tbl \<Longrightarrow> row_in_limits r \<Longrightarrow> rows_in_limits (dict_set tbl k r)"
  by (induction tbl) (auto simp: rows_in_limits_def dict_set_def)

lemma rows_in_limits_del: "rows_in_limits tbl \<Longrightarrow> rows_in_limits (dict_del tbl k)"
  by (auto simp: rows_in_limits_def list_all_iff dict_del_def AList.delete_eq)

lemma patched_in_limits:
  assumes "validate_settings raw = Inr p" "row_in_limits r"
  shows "row_in_limits (patched_row p r)"
  using assms(2) validated_recipients(3,4) [OF assms(1)]
  by (auto simp: row_in_limits_def patched_row_def assign_def split: option.splits)

lemma save_in_limits:
  assumes "validate_settings raw = Inr p" "rows_in_limits tbl"
  shows "rows_in_limits (save_settings key p tbl)"
proof -
  let ?r = "patched_row p (case dict_get tbl key of None \<Rightarrow> no_row | Some r \<Rightarrow> r)"
  have n: "row_in_limits no_row" by (simp add: row_in_limits_def no_row_def)
  then have "row_in_limits ?r"
    using patched_in_limits [OF assms(1)] rows_in_limits_get [OF assms(2)] by (auto split: option.split)
  then have "rows_in_limits (dict_set tbl key ?r)" "rows_in_limits (dict_del (dict_set tbl key no_row) key)"
    using n by (simp_all add: rows_in_limits_set rows_in_limits_del assms(2))
  then show ?thesis using assms(2) by (simp add: save_settings_def Let_def)
qed

lemma scope_in_limits:
  assumes "rows_in_limits tbl"
  shows "sc_pct (scope_at loads tbl key) = Some x \<Longrightarrow> in_limits PCT_LIMITS x"
    and "sc_min (scope_at loads tbl key) = Some x \<Longrightarrow> in_limits MIN_LIMITS x"
  using rows_in_limits_get [OF assms, of key]
  by (auto simp: scope_at_def read_row_def no_scope_def row_in_limits_def split: option.splits)

lemma effective_in_limits:
  assumes "rows_in_limits tbl" "pk \<noteq> Some GLOBAL_KEY"
  shows "in_limits PCT_LIMITS (effective_pct (env_defaults py_float osenv) (load_settings loads tbl) pk)"
    and "in_limits MIN_LIMITS (effective_min (env_defaults py_float osenv) (load_settings loads tbl) pk)"
proof -
  have "account_scope (load_settings loads tbl) pk = (case pk of None \<Rightarrow> no_scope | Some k \<Rightarrow> scope_at loads tbl k)"
    using assms(2) load_scopes(2) [of _ loads tbl] by (cases pk) (simp_all add: account_scope_def)
  then have own: "sc_pct (account_scope (load_settings loads tbl) pk) = Some x \<Longrightarrow> in_limits PCT_LIMITS x"
      "sc_min (account_scope (load_settings loads tbl) pk) = Some x \<Longrightarrow> in_limits MIN_LIMITS x" for x
    using scope_in_limits [OF assms(1)] by (auto simp: no_scope_def split: option.splits)
  have base: "in_limits PCT_LIMITS (fst (ce_pct (env_defaults py_float osenv)))"
      "in_limits MIN_LIMITS (fst (ce_min (env_defaults py_float osenv)))"
    unfolding env_defaults_def cj_env.simps
    by (rule env_number_limits, simp add: in_limits_def PCT_LIMITS_def MIN_LIMITS_def BUILTIN_def)+
  show "in_limits PCT_LIMITS (effective_pct (env_defaults py_float osenv) (load_settings loads tbl) pk)"
    using own(1) base(1) scope_in_limits(1) [OF assms(1), of loads GLOBAL_KEY]
    by (auto simp: effective_pct_def resolve_settings_def resolve_field_def load_scopes(1) Let_def split: option.split)
  show "in_limits MIN_LIMITS (effective_min (env_defaults py_float osenv) (load_settings loads tbl) pk)"
    using own(2) base(2) scope_in_limits(2) [OF assms(1), of loads GLOBAL_KEY]
    by (auto simp: effective_min_def resolve_settings_def resolve_field_def load_scopes(1) Let_def split: option.split)
qed

end
