(* ===== verification/Cost_Jump.thy ===== *)
theory Cost_Jump
  imports Cost_Settings Alert_Writer
begin

text \<open>
  \<open>app/collector/cost_jump_alert.py\<close>: the latest settled day of an account's billed cost against
  the average of the seven days before it, and the one alert per account that follows. Days are
  integers, amounts exact; the text of the alert is left out. One check is one transaction.
\<close>

subsection \<open>The rule\<close>

definition WINDOW_DAYS :: nat where
  "WINDOW_DAYS = 7"

definition MIN_BASELINE_DAYS :: nat where
  "MIN_BASELINE_DAYS = 5"

definition PROVISIONAL_DAYS :: int where
  "PROVISIONAL_DAYS = 2"

definition LOOKBACK_DAYS :: int where
  "LOOKBACK_DAYS = int WINDOW_DAYS + PROVISIONAL_DAYS + 2"

definition COST_CHECK_SECONDS :: int where
  "COST_CHECK_SECONDS = 600"

type_synonym daily = "(int, rat) dict"

datatype cost_state = NoData | WithinLimit rat rat | CostJump rat rat

text \<open>The baseline days that are there, the nearest first.\<close>

definition baseline_days :: "daily \<Rightarrow> int \<Rightarrow> rat list" where
  "baseline_days d day = List.map_filter (\<lambda>k. dict_get d (day - int k)) [1..<WINDOW_DAYS + 1]"

definition average :: "rat list \<Rightarrow> rat" where
  "average xs = sum_list xs / of_nat (length xs)"

text \<open>The states carry the day's cost and the limit.\<close>

definition evaluate_cost :: "daily \<Rightarrow> int \<Rightarrow> rat \<Rightarrow> rat \<Rightarrow> cost_state" where
  "evaluate_cost d today pct min_increase =
     (let day = today - PROVISIONAL_DAYS in
      case dict_get d day of
        None \<Rightarrow> NoData
      | Some usd \<Rightarrow>
          (let base = baseline_days d day in
           if length base < MIN_BASELINE_DAYS then NoData
           else (let avg = average base; lims = avg * (1 + pct / 100) in
                 if usd > lims \<and> usd - avg \<ge> min_increase then CostJump usd lims else WithinLimit usd lims)))"

subsection \<open>The cost of a day\<close>

record cost_row =
  co_pk :: nat
  co_name :: string
  co_default_region :: "string option"
  co_usage :: string
  co_date :: int
  co_amount :: "rat option"

definition is_upper_digit :: "char \<Rightarrow> bool" where
  "is_upper_digit c \<longleftrightarrow> is_upper_ch c \<or> is_digit_ch c"

definition usage_region :: "(string \<times> string) list \<Rightarrow> string \<Rightarrow> string" where
  "usage_region prefixes u =
     (let head = takeWhile (\<lambda>c. c \<noteq> CHR ''-'') u in
      if CHR ''-'' \<in> set u \<and> list_all is_upper_digit head \<and> length head \<in> {4, 5} \<and> is_digit_ch (last head)
      then (case map_of prefixes head of Some r \<Rightarrow> r | None \<Rightarrow> head)
      else ''us-east-1'')"

definition REGION_PREFIX :: "(string \<times> string) list" where
  "REGION_PREFIX =
     [(''USE1'', ''us-east-1''), (''USE2'', ''us-east-2''), (''USW1'', ''us-west-1''), (''USW2'', ''us-west-2''),
      (''EUW1'', ''eu-west-1''), (''EUW2'', ''eu-west-2''), (''EUW3'', ''eu-west-3''), (''EUC1'', ''eu-central-1''),
      (''EUN1'', ''eu-north-1''), (''APS1'', ''ap-southeast-1''), (''APS2'', ''ap-southeast-2''), (''APS3'', ''ap-south-1''),
      (''APN1'', ''ap-northeast-1''), (''APN2'', ''ap-northeast-2''), (''APN3'', ''ap-northeast-3''),
      (''CAN1'', ''ca-central-1''), (''SAE1'', ''sa-east-1'')]"

datatype usage_kind = CloudOpsReads | LogCharges | AgentCharges | OtherCharges

definition usage_category :: "string \<Rightarrow> usage_kind" where
  "usage_category u =
     (if contains_str u ''GMD-Metrics'' then CloudOpsReads
      else if list_ex (contains_str u) [''S3-Egress'', ''VendedLog'', ''DataProcessing'', ''DataIngestion'', ''TimedStorage'', ''Logs'']
      then LogCharges
      else if list_ex (contains_str u) [''MetricMonitorUsage'', ''AlarmMonitorUsage'', ''Alarm''] \<or>
              startswith (rev u) (rev '':Requests'') then AgentCharges
      else OtherCharges)"

text \<open>The AWS rows that count: CloudOps's own reads, in the region the account is onboarded in.\<close>

definition aws_row_counts :: "cost_row \<Rightarrow> bool" where
  "aws_row_counts r \<longleftrightarrow> usage_category (co_usage r) = CloudOpsReads \<and>
     (truthy_str (co_default_region r) \<longrightarrow> Some (usage_region REGION_PREFIX (co_usage r)) = co_default_region r)"

definition in_span :: "int \<Rightarrow> int \<Rightarrow> cost_row \<Rightarrow> bool" where
  "in_span start finish r \<longleftrightarrow> start \<le> co_date r \<and> co_date r \<le> finish"

definition add_cost :: "string \<times> daily \<Rightarrow> cost_row \<Rightarrow> string \<times> daily" where
  "add_cost a r =
     (if snd a = [] then co_name r else fst a,
      dict_set (snd a) (co_date r)
        ((case dict_get (snd a) (co_date r) of Some x \<Rightarrow> x | None \<Rightarrow> 0) + (case co_amount r of Some x \<Rightarrow> x | None \<Rightarrow> 0)))"

text \<open>\<open>_load_daily\<close>: the joined rows of one cloud, those that count, summed per account and day.\<close>

definition load_daily :: "(cost_row \<Rightarrow> bool) \<Rightarrow> int \<Rightarrow> int \<Rightarrow> cost_row list \<Rightarrow> (nat, string \<times> daily) dict" where
  "load_daily counts start finish rows =
     group_rows co_pk add_cost ([], []) (filter (\<lambda>r. in_span start finish r \<and> counts r) rows) []"

subsection \<open>The alert\<close>

definition COST_METRIC :: string where
  "COST_METRIC = ''cloud_cost_jump''"

definition cost_rid :: "nat \<Rightarrow> string" where
  "cost_rid pk = ''cloud-cost-'' @ nat_text pk"

definition cost_key :: "nat \<Rightarrow> alert_key" where
  "cost_key pk = (pk, cost_rid pk, COST_METRIC)"

definition cost_touch :: "secs \<Rightarrow> rat \<Rightarrow> rat \<Rightarrow> alert \<Rightarrow> alert" where
  "cost_touch now usd lims a = a\<lparr>al_current_value := Some usd, al_threshold := Some lims, al_last_seen_at := Some now\<rparr>"

definition cost_alert :: "secs \<Rightarrow> nat \<Rightarrow> rat \<Rightarrow> rat \<Rightarrow> string option \<Rightarrow> nat \<Rightarrow> alert" where
  "cost_alert now pk usd lims silence i =
     \<lparr>al_id = i, al_account = Some pk, al_resource = cost_rid pk, al_metric = COST_METRIC, al_severity = WARNING,
      al_environment = Prod, al_group_key = (pk, ''cloud_cost'', COST_METRIC), al_status = Active,
      al_triggered_at = now, al_last_seen_at = Some now, al_cycle_at = Some now, al_healthy_streak = 0,
      al_current_value = Some usd, al_threshold = Some lims, al_breach_value = Some usd, al_breach_threshold = Some lims,
      al_silenced = truthy_str silence, al_silenced_reason = silence, al_muted_until = None, al_acked = False,
      al_acked_by = None, al_acked_at = None, al_resolved_at = None, al_resolution_reason = None,
      al_resolved_by = None, al_escalated_at = None, al_escalated_group = None\<rparr>"

subsection \<open>A check\<close>

text \<open>An opened alert and whom to tell.\<close>

record cost_notice =
  cn_alert :: nat
  cn_account :: nat
  cn_value :: rat
  cn_limit :: rat
  cn_users :: "int list"
  cn_emails :: "string list"

record cost_stats =
  cx_accounts :: nat
  cx_opened :: nat
  cx_updated :: nat
  cx_resolved :: nat
  cx_no_data :: nat
  cx_switched_off :: nat

record cost_world =
  cw_resources :: "(nat \<times> string, string) dict"
  cw_store :: store
  cw_stats :: cost_stats
  cw_opened :: "cost_notice list"

text \<open>\<open>ON DUPLICATE KEY UPDATE name\<close>; a missing name shows the account's number.\<close>

definition ensure_cost_target :: "nat \<Rightarrow> string \<Rightarrow> (nat \<times> string, string) dict \<Rightarrow> (nat \<times> string, string) dict" where
  "ensure_cost_target pk name d =
     dict_set d (pk, cost_rid pk) (''CloudOps cost: '' @ (if name = [] then nat_text pk else name))"

definition cost_open ::
  "secs \<Rightarrow> cj_settings \<Rightarrow> (nat \<times> string \<Rightarrow> string option) \<Rightarrow> nat \<Rightarrow> string \<Rightarrow> rat \<Rightarrow> rat \<Rightarrow> cost_world \<Rightarrow> cost_world" where
  "cost_open now s silenced pk name usd lims w =
     (let silence = silenced (pk, cost_rid pk) in
      \<lparr>cw_resources = ensure_cost_target pk name (cw_resources w),
       cw_store = add_alert (cost_alert now pk usd lims silence) (cw_store w),
       cw_stats = (cw_stats w)\<lparr>cx_opened := cx_opened (cw_stats w) + 1\<rparr>,
       cw_opened = cw_opened w @
         (if truthy_str silence then []
          else [\<lparr>cn_alert = st_next_id (cw_store w), cn_account = pk, cn_value = usd, cn_limit = lims,
                 cn_users = fst (scope_recipients s pk), cn_emails = snd (scope_recipients s pk)\<rparr>])\<rparr>)"

definition cost_account ::
  "cj_env \<Rightarrow> cj_settings \<Rightarrow> secs \<Rightarrow> int \<Rightarrow> (nat \<times> string \<Rightarrow> string option) \<Rightarrow> nat \<times> string \<times> daily \<Rightarrow> cost_world \<Rightarrow> cost_world" where
  "cost_account base s now today silenced acct w =
     (case acct of (pk, name, d) \<Rightarrow>
        if \<not> effective_enabled base s (Some pk) then w
        else
          (let w1 = w\<lparr>cw_stats := (cw_stats w)\<lparr>cx_accounts := cx_accounts (cw_stats w) + 1\<rparr>\<rparr>;
               ex = open_of (cost_key pk) (st_alerts (cw_store w))
           in case evaluate_cost d today (effective_pct base s (Some pk)) (effective_min base s (Some pk)) of
                NoData \<Rightarrow> w1\<lparr>cw_stats := (cw_stats w1)\<lparr>cx_no_data := cx_no_data (cw_stats w1) + 1\<rparr>\<rparr>
              | WithinLimit usd lims \<Rightarrow>
                  (case ex of
                     None \<Rightarrow> w1
                   | Some a \<Rightarrow> w1\<lparr>cw_store := resolve_where (by_id (al_id a)) ''recovered'' now (cw_store w1),
                                  cw_stats := (cw_stats w1)\<lparr>cx_resolved := cx_resolved (cw_stats w1) + 1\<rparr>\<rparr>)
              | CostJump usd lims \<Rightarrow>
                  (case ex of
                     None \<Rightarrow> cost_open now s silenced pk name usd lims w1
                   | Some a \<Rightarrow>
                       w1\<lparr>cw_store := (cw_store w1)\<lparr>st_alerts :=
                            update_where (by_id (al_id a)) (cost_touch now usd lims) (st_alerts (cw_store w1))\<rparr>,
                          cw_stats := (cw_stats w1)\<lparr>cx_updated := cx_updated (cw_stats w1) + 1\<rparr>\<rparr>)))"

text \<open>Alerts of accounts that are switched off are closed first; the count is the rows changed.\<close>

definition switched_off :: "cj_env \<Rightarrow> cj_settings \<Rightarrow> alert \<Rightarrow> bool" where
  "switched_off base s a \<longleftrightarrow> al_metric a = COST_METRIC \<and> \<not> effective_enabled base s (al_account a)"

definition switch_off :: "cj_env \<Rightarrow> cj_settings \<Rightarrow> secs \<Rightarrow> cost_world \<Rightarrow> cost_world" where
  "switch_off base s now w =
     w\<lparr>cw_store := resolve_where (switched_off base s) ''alert_disabled'' now (cw_store w),
       cw_stats := (cw_stats w)\<lparr>cx_switched_off := cx_switched_off (cw_stats w) +
         rowcount (\<lambda>a. switched_off base s a \<and> is_open a) (st_alerts (cw_store w))\<rparr>\<rparr>"

definition on_anywhere :: "cj_env \<Rightarrow> cj_settings \<Rightarrow> bool" where
  "on_anywhere base s \<longleftrightarrow> effective_enabled base s None \<or>
     list_ex (\<lambda>(pk, a). effective_enabled base s (Some pk)) (cs_accounts s)"

definition no_cost_stats :: cost_stats where
  "no_cost_stats = \<lparr>cx_accounts = 0, cx_opened = 0, cx_updated = 0, cx_resolved = 0, cx_no_data = 0, cx_switched_off = 0\<rparr>"

definition loaded_accounts :: "(nat, string \<times> daily) dict option list \<Rightarrow> (nat \<times> string \<times> daily) list" where
  "loaded_accounts loads = concat (map (\<lambda>l. case l of None \<Rightarrow> [] | Some d \<Rightarrow> d) loads)"

text \<open>
  The transaction. \<open>loads\<close> are the accounts of each cloud in turn, \<open>None\<close> where its tables are not
  there yet.
\<close>

definition cost_pass ::
  "cj_env \<Rightarrow> cj_settings \<Rightarrow> secs \<Rightarrow> int \<Rightarrow> (nat \<times> string \<Rightarrow> string option) \<Rightarrow> (nat, string \<times> daily) dict option list
   \<Rightarrow> cost_world \<Rightarrow> cost_world" where
  "cost_pass base s now today silenced loads w0 =
     (let w = switch_off base s now (w0\<lparr>cw_stats := no_cost_stats, cw_opened := []\<rparr>) in
      if \<not> on_anywhere base s then w
      else fold (cost_account base s now today silenced) (loaded_accounts loads) w)"

text \<open>\<open>run_cost_jump_check\<close> with its throttle: the time of the last run is kept in the process.\<close>

definition run_cost_jump_check ::
  "bool \<Rightarrow> rat \<Rightarrow> cj_env \<Rightarrow> cj_settings \<Rightarrow> secs \<Rightarrow> int \<Rightarrow> (nat \<times> string \<Rightarrow> string option)
   \<Rightarrow> (nat, string \<times> daily) dict option list \<Rightarrow> rat \<times> cost_world \<Rightarrow> rat \<times> cost_world" where
  "run_cost_jump_check force clock base s now today silenced loads st =
     (case st of (last_run, w) \<Rightarrow>
        if \<not> force \<and> clock - last_run < of_int COST_CHECK_SECONDS then (last_run, w)
        else (clock, cost_pass base s now today silenced loads w))"

subsection \<open>Facts\<close>

lemma keeps_cost_touch: "keeps (cost_touch now usd lims)"
  by (simp add: keeps_def cost_touch_def alert_ident_def is_open_def)

lemma makes_cost_alert: "makes (cost_key pk) (cost_alert now pk usd lims silence)"
  unfolding makes_def by (auto simp: cost_alert_def cost_key_def key_matches_def is_open_def split: prod.splits)

interpretation cost: alert_writer "cost_key pk" "cost_touch now usd lims" "cost_alert now pk usd lims silence"
  for pk :: nat and now :: secs and usd lims :: rat and silence :: "string option"
  by unfold_locales (rule keeps_cost_touch, rule makes_cost_alert)

lemma nat_text_inj: "nat_text a = nat_text b \<longleftrightarrow> a = b"
  by (metis of_nat_eq_iff option.inject py_int_nat_text)

lemma cost_key_inj [simp]: "cost_key a = cost_key b \<longleftrightarrow> a = b"
  by (auto simp: cost_key_def)

text \<open>One account: the store it leaves.\<close>

lemma cost_account_store:
  "cw_store (cost_account base s now today silenced (pk, name, d) w) =
     (if \<not> effective_enabled base s (Some pk) then cw_store w
      else (case evaluate_cost d today (effective_pct base s (Some pk)) (effective_min base s (Some pk)) of
              NoData \<Rightarrow> cw_store w
            | WithinLimit usd lims \<Rightarrow>
                (case open_of (cost_key pk) (st_alerts (cw_store w)) of
                   None \<Rightarrow> cw_store w
                 | Some a \<Rightarrow> resolve_where (by_id (al_id a)) ''recovered'' now (cw_store w))
            | CostJump usd lims \<Rightarrow>
                upsert_alert (cost_key pk) (cost_touch now usd lims) (cost_alert now pk usd lims (silenced (pk, cost_rid pk))) (cw_store w)))"
  by (simp add: cost_account_def cost_open_def upsert_alert_def Let_def split: cost_state.split option.split)

lemma cost_account_ok:
  "store_ok now (cw_store w) \<Longrightarrow> store_ok now (cw_store (cost_account base s now today silenced acct w))"
  by (cases acct) (auto simp: cost_account_store intro: resolve_where_ok cost.upsert_store_ok
      split: cost_state.split option.split)

text \<open>What the check leaves of an account's open alert: a raised one carries the day's cost and the limit.\<close>

definition cost_outcome :: "cost_state \<Rightarrow> alert list \<Rightarrow> alert list \<Rightarrow> bool" where
  "cost_outcome st before after \<longleftrightarrow>
     (case st of
        NoData \<Rightarrow> after = before
      | WithinLimit usd lims \<Rightarrow> after = []
      | CostJump usd lims \<Rightarrow> (\<exists>a. after = [a] \<and> al_current_value a = Some usd \<and> al_threshold a = Some lims \<and>
          (case before of [] \<Rightarrow> True | b # _ \<Rightarrow> al_id a = al_id b)))"

lemma cost_account_own:
  assumes "store_ok now (cw_store w)" "effective_enabled base s (Some pk)"
  shows "cost_outcome (evaluate_cost d today (effective_pct base s (Some pk)) (effective_min base s (Some pk)))
     (open_alerts (cost_key pk) (st_alerts (cw_store w)))
     (open_alerts (cost_key pk) (st_alerts (cw_store (cost_account base s now today silenced (pk, name, d) w))))"
proof -
  let ?db = "cw_store w"
  note one = store_okD(2) [OF assms(1)]
  note only = open_of_only [OF one, of "cost_key pk"]
  have res: "open_alerts (cost_key pk) (st_alerts (resolve_where (by_id (al_id a)) r now ?db)) = []"
    if "open_of (cost_key pk) (st_alerts ?db) = Some a" for a r
  proof (rule resolve_where_open)
    fix b assume "b \<in> set (st_alerts ?db)" "key_matches (cost_key pk) b" "is_open b"
    then have "b \<in> set (open_alerts (cost_key pk) (st_alerts ?db))" by (simp add: open_alerts_def)
    then show "by_id (al_id a) b" by (simp add: only that by_id_def)
  qed
  show ?thesis
    by (cases "open_of (cost_key pk) (st_alerts ?db)")
      (auto simp: cost_account_store assms(2) cost_outcome_def only cost.upsert_open [OF one] res
        cost_alert_def cost_touch_def split: cost_state.split)
qed

lemma cost_account_other:
  assumes "store_ok now (cw_store w)" "cost_key pk \<noteq> k"
  shows "open_alerts k (st_alerts (cw_store (cost_account base s now today silenced (pk, name, d) w))) =
     open_alerts k (st_alerts (cw_store w))"
proof (rule open_alerts_other)
  let ?db = "cw_store w"
  have res: "filter (key_matches k) (st_alerts (resolve_where (by_id (al_id a)) r now ?db)) = filter (key_matches k) (st_alerts ?db)"
    if "open_of (cost_key pk) (st_alerts ?db) = Some a" for a r
  proof (rule resolve_where_other)
    fix b assume b: "b \<in> set (st_alerts ?db)" "key_matches k b"
    show "\<not> by_id (al_id a) b"
    proof
      assume "by_id (al_id a) b"
      then have "a = b" using open_of_Some [OF that] b(1) store_okD(1) [OF assms(1)]
        by (auto simp: ids_ok_def distinct_map inj_on_def by_id_def)
      then show False using open_of_Some [OF that] b(2) key_matches_unique assms(2) by blast
    qed
  qed
  show "filter (key_matches k) (st_alerts (cw_store (cost_account base s now today silenced (pk, name, d) w))) =
      filter (key_matches k) (st_alerts ?db)"
    using store_okD(1) [OF assms(1)] assms(2)
    by (auto simp: cost_account_store res cost.upsert_other split: cost_state.split option.split)
qed

lemma cost_accounts_ok:
  "store_ok now (cw_store w) \<Longrightarrow> store_ok now (cw_store (fold (cost_account base s now today silenced) accts w))"
  by (induction accts arbitrary: w) (simp_all add: cost_account_ok)

lemma cost_accounts_other:
  assumes "store_ok now (cw_store w)" "\<And>pk. pk \<in> fst ` set accts \<Longrightarrow> cost_key pk \<noteq> k"
  shows "open_alerts k (st_alerts (cw_store (fold (cost_account base s now today silenced) accts w))) =
     open_alerts k (st_alerts (cw_store w))"
  using assms
proof (induction accts arbitrary: w)
  case (Cons x accts)
  obtain pk name d where x: "x = (pk, name, d)" by (cases x)
  show ?case
    using Cons.prems Cons.IH [of "cost_account base s now today silenced x w"] cost_account_ok [OF Cons.prems(1)]
    by (simp add: x cost_account_other)
qed simp

lemma cost_accounts_own:
  assumes "store_ok now (cw_store w)" "distinct (map fst accts)" "(pk, name, d) \<in> set accts"
    and "effective_enabled base s (Some pk)"
  shows "cost_outcome (evaluate_cost d today (effective_pct base s (Some pk)) (effective_min base s (Some pk)))
     (open_alerts (cost_key pk) (st_alerts (cw_store w)))
     (open_alerts (cost_key pk) (st_alerts (cw_store (fold (cost_account base s now today silenced) accts w))))"
proof -
  obtain xs ys where accts: "accts = xs @ (pk, name, d) # ys" using split_list [OF assms(3)] by blast
  let ?f = "cost_account base s now today silenced"
  let ?w1 = "fold ?f xs w"
  have ok: "store_ok now (cw_store ?w1)" by (rule cost_accounts_ok [OF assms(1)])
  have "open_alerts (cost_key pk) (st_alerts (cw_store ?w1)) = open_alerts (cost_key pk) (st_alerts (cw_store w))"
    by (rule cost_accounts_other [OF assms(1)]) (use assms(2) accts in auto)
  moreover have "open_alerts (cost_key pk) (st_alerts (cw_store (fold ?f ys (?f (pk, name, d) ?w1)))) =
      open_alerts (cost_key pk) (st_alerts (cw_store (?f (pk, name, d) ?w1)))"
    by (rule cost_accounts_other [OF cost_account_ok [OF ok]]) (use assms(2) accts in auto)
  ultimately show ?thesis using cost_account_own [OF ok assms(4), of d today silenced name] by (simp add: accts)
qed

text \<open>The first UPDATE.\<close>

lemma switch_off_ok: "store_ok now (cw_store w) \<Longrightarrow> store_ok now (cw_store (switch_off base s now w))"
  by (simp add: switch_off_def resolve_where_ok)

lemma switch_off_open:
  "open_alerts (cost_key pk) (st_alerts (cw_store (switch_off base s now w))) =
     (if effective_enabled base s (Some pk) then open_alerts (cost_key pk) (st_alerts (cw_store w)) else [])"
proof -
  have off: "switched_off base s a \<longleftrightarrow> \<not> effective_enabled base s (Some pk)" if "key_matches (cost_key pk) a" for a
    using that by (simp add: key_matches_def cost_key_def switched_off_def)
  show ?thesis
    by (simp add: switch_off_def resolve_where_open off)
       (intro impI open_alerts_other resolve_where_other, simp add: off)
qed

lemma on_anywhere: "effective_enabled base s (Some pk) \<Longrightarrow> on_anywhere base s"
proof (cases "dict_get (cs_accounts s) pk")
  case None
  assume "effective_enabled base s (Some pk)"
  then show ?thesis using None
    by (simp add: on_anywhere_def effective_enabled_def resolve_settings_def account_scope_def no_scope_def)
next
  case (Some a)
  assume e: "effective_enabled base s (Some pk)"
  have "(pk, a) \<in> set (cs_accounts s)" using Some by (auto simp: dict_get_def dest: map_of_SomeD)
  then show ?thesis using e by (auto simp: on_anywhere_def list_ex_iff)
qed

lemma cost_pass_ok:
  "store_ok now (cw_store w) \<Longrightarrow> store_ok now (cw_store (cost_pass base s now today silenced loads w))"
  by (simp add: cost_pass_def Let_def cost_accounts_ok switch_off_ok)

text \<open>A whole check, for one account.\<close>

lemma cost_pass_own:
  assumes "store_ok now (cw_store w)" "distinct (map fst (loaded_accounts loads))" "(pk, name, d) \<in> set (loaded_accounts loads)"
    and "effective_enabled base s (Some pk)"
  shows "cost_outcome (evaluate_cost d today (effective_pct base s (Some pk)) (effective_min base s (Some pk)))
     (open_alerts (cost_key pk) (st_alerts (cw_store w)))
     (open_alerts (cost_key pk) (st_alerts (cw_store (cost_pass base s now today silenced loads w))))"
proof -
  let ?w = "w\<lparr>cw_stats := no_cost_stats, cw_opened := []\<rparr>"
  have "store_ok now (cw_store (switch_off base s now ?w))" using assms(1) by (intro switch_off_ok) simp
  from cost_accounts_own [OF this assms(2,3,4), of today silenced] show ?thesis
    by (simp add: cost_pass_def Let_def on_anywhere [OF assms(4)] switch_off_open assms(4))
qed

lemma cost_pass_off:
  assumes "store_ok now (cw_store w)" "\<not> effective_enabled base s (Some pk)"
  shows "open_alerts (cost_key pk) (st_alerts (cw_store (cost_pass base s now today silenced loads w))) = []"
proof -
  let ?w = "w\<lparr>cw_stats := no_cost_stats, cw_opened := []\<rparr>"
  let ?P = "\<lambda>w::cost_world. store_ok now (cw_store w) \<and> open_alerts (cost_key pk) (st_alerts (cw_store w)) = []"
  have step: "?P (cost_account base s now today silenced x w)" if "?P w" for x w
  proof -
    obtain q name d where x: "x = (q, name, d)" by (cases x)
    have "cost_key q \<noteq> cost_key pk \<or> cost_account base s now today silenced x w = w"
      using assms(2) by (auto simp: x cost_account_def)
    then show ?thesis using that cost_account_ok cost_account_other unfolding x by metis
  qed
  have "?P (fold (cost_account base s now today silenced) accts w)" if "?P w" for accts w
    using that by (induction accts arbitrary: w) (simp_all only: fold_simps id_apply step)
  moreover have "?P (switch_off base s now ?w)"
    using switch_off_ok [of now ?w base s] assms by (simp add: switch_off_open)
  ultimately show ?thesis by (simp add: cost_pass_def Let_def)
qed

end
