(* ===== verification/Anomaly.thy ===== *)
theory Anomaly
  imports Alert_Writer
begin

text \<open>
  \<open>app/collector/multivariate_anomaly.py\<close>: which resources behave unusually over several metrics at
  once, and the hidden alert each of them gets. The matrix of readings (\<open>pivot\<close>), the trained model
  (\<open>model\<close>: is each of the recent rows an outlier, and the mean score) and the median and deviation of
  a column come from pandas and scikit-learn and are arguments; the decisions taken on them are here.
\<close>

subsection \<open>Settings\<close>

definition LOOKBACK_DAYS_14 :: int where
  "LOOKBACK_DAYS_14 = 14"

definition MIN_METRICS_PER_RESOURCE :: nat where
  "MIN_METRICS_PER_RESOURCE = 3"

definition MIN_SAMPLES_FOR_TRAINING :: nat where
  "MIN_SAMPLES_FOR_TRAINING = 50"

definition ANOMALY_METRIC :: string where
  "ANOMALY_METRIC = ''multivariate_anomaly''"

text \<open>Read when the module is loaded: a text that is no number stops the import.\<close>

record anomaly_cfg =
  ay_contamination :: rat
  ay_buckets :: nat
  ay_min_z :: rat
  ay_min_moved :: nat

definition or_default :: "string \<Rightarrow> string option \<Rightarrow> string" where
  "or_default d raw = (case raw of None \<Rightarrow> d | Some t \<Rightarrow> t)"

definition load_anomaly_cfg :: "(string \<Rightarrow> rat option) \<Rightarrow> environ \<Rightarrow> py_error + anomaly_cfg" where
  "load_anomaly_cfg py_float osenv =
     (case (py_float (or_default ''0.01'' (osenv ''ANOMALY_CONTAMINATION'')),
            py_int (or_default ''3'' (osenv ''ANOMALY_MIN_CONSECUTIVE_BUCKETS'')),
            py_float (or_default ''3.5'' (osenv ''ANOMALY_MIN_ROBUST_Z'')),
            py_int (or_default ''2'' (osenv ''ANOMALY_MIN_MOVED_METRICS''))) of
        (Some c, Some k, Some z, Some m) \<Rightarrow>
          Inr \<lparr>ay_contamination = c, ay_buckets = nat (max 1 k), ay_min_z = z, ay_min_moved = nat (max 1 m)\<rparr>
      | _ \<Rightarrow> Inl ValueError)"

definition anomaly_enabled :: "environ \<Rightarrow> bool" where
  "anomaly_enabled osenv \<longleftrightarrow> lower (strip (or_default ''true'' (osenv ''ANOMALY_ENABLED''))) \<noteq> ''false''"

definition min_interval_seconds :: "(string \<Rightarrow> rat option) \<Rightarrow> environ \<Rightarrow> rat" where
  "min_interval_seconds py_float osenv =
     (case py_float (or_default ''0'' (osenv ''ANOMALY_MIN_INTERVAL_MINUTES'')) of
        None \<Rightarrow> 0
      | Some m \<Rightarrow> max 0 m * 60)"

definition too_soon :: "rat \<Rightarrow> rat option \<Rightarrow> rat \<Rightarrow> bool" where
  "too_soon interval last_run clock \<longleftrightarrow>
     interval \<noteq> 0 \<and> (case last_run of None \<Rightarrow> False | Some t \<Rightarrow> clock - t < interval - 60)"

subsection \<open>The verdict on one resource\<close>

record reading =
  rd_account :: nat
  rd_resource :: string
  rd_metric :: string
  rd_at :: secs
  rd_value :: "rat option"

text \<open>A matrix: its metrics, and per bucket of five minutes the value of each.\<close>

type_synonym matrix_row = "secs \<times> (string, rat) dict"

type_synonym matrix = "string list \<times> matrix_row list"

datatype anomaly_verdict = TooShort | NotOutlier | NotSustained | NotMaterial | Anomalous rat "(string \<times> rat) list"

definition column :: "matrix_row list \<Rightarrow> string \<Rightarrow> rat list" where
  "column rows m = List.map_filter (\<lambda>(t, d). dict_get d m) rows"

text \<open>\<open>_deviation_report\<close>: how far each metric moved, in its own scale, the farthest first.\<close>

definition metric_scale :: "(rat list \<Rightarrow> rat) \<Rightarrow> (rat list \<Rightarrow> rat) \<Rightarrow> rat list \<Rightarrow> rat" where
  "metric_scale median std xs =
     (let med = median xs; mad = median (map (\<lambda>x. abs (x - med)) xs) * (14826 / 10000)
      in max mad (max (std xs) (max (5 / 100 * abs med) (1 / 1000000000))))"

definition robust_z :: "(rat list \<Rightarrow> rat) \<Rightarrow> (rat list \<Rightarrow> rat) \<Rightarrow> rat list \<Rightarrow> rat list \<Rightarrow> rat" where
  "robust_z median std history recent =
     max (- 99) (min 99 ((median recent - median history) / metric_scale median std history))"

definition deviation_report ::
  "(rat list \<Rightarrow> rat) \<Rightarrow> (rat list \<Rightarrow> rat) \<Rightarrow> matrix_row list \<Rightarrow> matrix_row list \<Rightarrow> string list \<Rightarrow> (string \<times> rat) list" where
  "deviation_report median std history recent metrics =
     sort_key (\<lambda>(m, z). - abs z)
       (map (\<lambda>m. (m, robust_z median std (column history m) (column recent m))) metrics)"

text \<open>The arguments that stand for pandas and scikit-learn.\<close>

record detector =
  dt_pivot :: "reading list \<Rightarrow> matrix"
  dt_model :: "rat \<Rightarrow> matrix_row list \<Rightarrow> matrix_row list \<Rightarrow> bool list \<times> rat"
  dt_median :: "rat list \<Rightarrow> rat"
  dt_std :: "rat list \<Rightarrow> rat"

definition assess :: "anomaly_cfg \<Rightarrow> detector \<Rightarrow> reading list \<Rightarrow> anomaly_verdict" where
  "assess cfg dt readings =
     (case dt_pivot dt readings of (metrics, rows) \<Rightarrow>
        (let k = ay_buckets cfg in
         if length rows < MIN_SAMPLES_FOR_TRAINING + k \<or> length metrics < MIN_METRICS_PER_RESOURCE then TooShort
         else
           (let history = take (length rows - k) rows; recent = drop (length rows - k) rows;
                pred = dt_model dt (ay_contamination cfg) history recent
            in if \<not> last (fst pred) then NotOutlier
               else if list_ex Not (fst pred) then NotSustained
               else
                 (let dev = deviation_report (dt_median dt) (dt_std dt) history recent metrics in
                  if length (filter (\<lambda>(m, z). abs z \<ge> ay_min_z cfg) dev) < ay_min_moved cfg then NotMaterial
                  else Anomalous (snd pred) dev))))"

subsection \<open>The alert\<close>

definition anomaly_key :: "nat \<times> string \<Rightarrow> alert_key" where
  "anomaly_key ar = (fst ar, snd ar, ANOMALY_METRIC)"

definition anomaly_touch :: "secs \<Rightarrow> rat \<Rightarrow> alert \<Rightarrow> alert" where
  "anomaly_touch now score a = a\<lparr>al_current_value := Some score, al_last_seen_at := Some now\<rparr>"

definition anomaly_alert :: "secs \<Rightarrow> nat \<times> string \<Rightarrow> string \<Rightarrow> tier \<Rightarrow> rat \<Rightarrow> nat \<Rightarrow> alert" where
  "anomaly_alert now ar rtype envt score i =
     \<lparr>al_id = i, al_account = Some (fst ar), al_resource = snd ar, al_metric = ANOMALY_METRIC, al_severity = WARNING,
      al_environment = envt, al_group_key = (fst ar, rtype, ANOMALY_METRIC), al_status = Active,
      al_triggered_at = now, al_last_seen_at = Some now, al_cycle_at = None, al_healthy_streak = 0,
      al_current_value = Some score, al_threshold = Some 0, al_breach_value = None, al_breach_threshold = None,
      al_silenced = False, al_silenced_reason = None, al_muted_until = None, al_acked = False,
      al_acked_by = None, al_acked_at = None, al_resolved_at = None, al_resolution_reason = None,
      al_resolved_by = None, al_escalated_at = None, al_escalated_group = None\<rparr>"

text \<open>
  \<open>json.loads(tags or "{}")\<close> inside a \<open>try\<close>, then \<open>tags.get(...)\<close> outside of it: a text that holds
  no object has no \<open>get\<close>.
\<close>

definition anomaly_tags :: "raw_tags \<Rightarrow> tags_dict option" where
  "anomaly_tags raw =
     (case raw of
        TagsText (LObject d) \<Rightarrow> Some d
      | TagsText LNonObject \<Rightarrow> None
      | _ \<Rightarrow> Some [])"

definition anomaly_environment :: "bool \<Rightarrow> resource option \<Rightarrow> py_error + tier" where
  "anomaly_environment env_aware r =
     (case r of
        None \<Rightarrow> Inr (to_tier (Some ''prod''))
      | Some row \<Rightarrow>
          if env_aware \<and> truthy_str (rs_env_resolved row) then Inr (to_tier (rs_env_resolved row))
          else (case anomaly_tags (rs_tags row) of
                  None \<Rightarrow> Inl AttributeError
                | Some d \<Rightarrow> Inr (environment_from_tags (TagsText (LObject d)))))"

text \<open>A detection run: the store, the resources found, the alerts opened.\<close>

record anomaly_run =
  ar_store :: store
  ar_found :: "(nat \<times> string) list"
  ar_opened :: "(nat \<times> nat \<times> string) list"

definition upsert_anomaly_alert ::
  "bool \<Rightarrow> resource list \<Rightarrow> secs \<Rightarrow> nat \<times> string \<Rightarrow> rat \<Rightarrow> anomaly_run \<Rightarrow> py_error + anomaly_run" where
  "upsert_anomaly_alert env_aware resources now ar score w =
     (let db = ar_store w in
      case open_of (anomaly_key ar) (st_alerts db) of
        Some ex \<Rightarrow> Inr (w\<lparr>ar_store := db\<lparr>st_alerts := update_where (by_id (al_id ex)) (anomaly_touch now score) (st_alerts db)\<rparr>\<rparr>)
      | None \<Rightarrow>
          (let r = find (\<lambda>r. rs_account r = fst ar \<and> rs_resource_id r = snd ar) resources;
               rtype = (case r of None \<Rightarrow> ''unknown'' | Some row \<Rightarrow> rs_type row)
           in case anomaly_environment env_aware r of
                Inl e \<Rightarrow> Inl e
              | Inr envt \<Rightarrow>
                  Inr (w\<lparr>ar_store := add_alert (anomaly_alert now ar rtype envt score) db,
                         ar_opened := ar_opened w @ [(st_next_id db, fst ar, snd ar)]\<rparr>)))"

definition anomaly_cleared :: "(nat \<times> string) list \<Rightarrow> alert \<Rightarrow> bool" where
  "anomaly_cleared found a \<longleftrightarrow> al_metric a = ANOMALY_METRIC \<and>
     (case al_account a of None \<Rightarrow> True | Some acct \<Rightarrow> (acct, al_resource a) \<notin> set found)"

definition resolve_cleared_anomalies :: "secs \<Rightarrow> (nat \<times> string) list \<Rightarrow> store \<Rightarrow> store" where
  "resolve_cleared_anomalies now found db = resolve_where (anomaly_cleared found) ''anomaly_cleared'' now db"

subsection \<open>A run\<close>

definition lookback :: "secs \<Rightarrow> reading list \<Rightarrow> reading list" where
  "lookback now hist = filter (\<lambda>r. rd_at r \<ge> now - LOOKBACK_DAYS_14 * 86400) hist"

definition series_key :: "reading \<Rightarrow> nat \<times> string" where
  "series_key r = (rd_account r, rd_resource r)"

text \<open>\<open>_resource_ids_with_enough_metrics\<close>, and the readings of one of them.\<close>

definition anomaly_candidates :: "secs \<Rightarrow> reading list \<Rightarrow> (nat \<times> string) list" where
  "anomaly_candidates now hist =
     (let rows = lookback now hist in
      filter (\<lambda>k. length (remdups (map rd_metric (filter (\<lambda>r. series_key r = k) rows))) \<ge> MIN_METRICS_PER_RESOURCE)
        (remdups (map series_key rows)))"

definition series :: "secs \<Rightarrow> reading list \<Rightarrow> nat \<times> string \<Rightarrow> reading list" where
  "series now hist ar = filter (\<lambda>r. series_key r = ar \<and> rd_value r \<noteq> None) (lookback now hist)"

fun scan_candidates ::
  "anomaly_cfg \<Rightarrow> detector \<Rightarrow> bool \<Rightarrow> resource list \<Rightarrow> secs \<Rightarrow> secs \<Rightarrow> reading list \<Rightarrow> (nat \<times> string) list
   \<Rightarrow> anomaly_run \<Rightarrow> py_error + anomaly_run" where
  "scan_candidates cfg dt env_aware resources now session_now hist [] w = Inr w"
| "scan_candidates cfg dt env_aware resources now session_now hist (ar # ars) w =
     (case assess cfg dt (series session_now hist ar) of
        Anomalous score dev \<Rightarrow>
          (case upsert_anomaly_alert env_aware resources now ar score (w\<lparr>ar_found := ar_found w @ [ar]\<rparr>) of
             Inl e \<Rightarrow> Inl e
           | Inr w' \<Rightarrow> scan_candidates cfg dt env_aware resources now session_now hist ars w')
      | _ \<Rightarrow> scan_candidates cfg dt env_aware resources now session_now hist ars w)"

record anomaly_input =
  ai_osenv :: environ
  ai_float :: "string \<Rightarrow> rat option"
  ai_cfg :: anomaly_cfg
  ai_detector :: detector
  ai_env_aware :: bool
  ai_resources :: "resource list"
  ai_history :: "reading list"
  ai_now :: secs
  ai_session_now :: secs
  ai_clock :: rat

text \<open>
  \<open>detect_multivariate_anomalies\<close>: the time of the last run, the store, the number found (or the
  exception) and the opened alerts. An exception rolls the run back.
\<close>

definition detect_anomalies ::
  "anomaly_input \<Rightarrow> rat option \<times> store \<Rightarrow> (rat option \<times> store) \<times> (py_error + nat) \<times> (nat \<times> nat \<times> string) list" where
  "detect_anomalies x st =
     (case st of (last_run, db) \<Rightarrow>
        if \<not> anomaly_enabled (ai_osenv x)
        then ((last_run, resolve_cleared_anomalies (ai_now x) [] db), Inr 0, [])
        else if too_soon (min_interval_seconds (ai_float x) (ai_osenv x)) last_run (ai_clock x)
        then ((last_run, db), Inr 0, [])
        else
          (case scan_candidates (ai_cfg x) (ai_detector x) (ai_env_aware x) (ai_resources x) (ai_now x) (ai_session_now x)
                  (ai_history x) (anomaly_candidates (ai_session_now x) (ai_history x))
                  \<lparr>ar_store = db, ar_found = [], ar_opened = []\<rparr> of
             Inl e \<Rightarrow> ((Some (ai_clock x), db), Inl e, [])
           | Inr w \<Rightarrow>
               ((Some (ai_clock x), resolve_cleared_anomalies (ai_now x) (ar_found w) (ar_store w)),
                Inr (length (ar_found w)), ar_opened w)))"

text \<open>\<open>_queue_rule_mail\<close>: none when the windows cannot be read.\<close>

definition queue_rule_mail ::
  "bool \<Rightarrow> (nat \<times> string) list option \<Rightarrow> (nat \<times> nat \<times> string) list \<Rightarrow> (nat \<times> nat \<times> string) list" where
  "queue_rule_mail enabled covered opened =
     (case covered of
        None \<Rightarrow> []
      | Some cs \<Rightarrow> if enabled then filter (\<lambda>(i, ar). ar \<notin> set cs) opened else [])"

subsection \<open>Facts\<close>

lemma keeps_anomaly_touch: "keeps (anomaly_touch now score)"
  by (simp add: keeps_def anomaly_touch_def alert_ident_def is_open_def)

lemma makes_anomaly_alert: "makes (anomaly_key ar) (anomaly_alert now ar rtype envt score)"
  unfolding makes_def by (auto simp: anomaly_alert_def anomaly_key_def key_matches_def is_open_def split: prod.splits)

interpretation unusual: alert_writer "anomaly_key ar" "anomaly_touch now score" "anomaly_alert now ar rtype envt score"
  for ar :: "nat \<times> string" and now :: secs and score :: rat and rtype :: string and envt :: tier
  by unfold_locales (rule keeps_anomaly_touch, rule makes_anomaly_alert)

lemma anomaly_key_inj [simp]: "anomaly_key a = anomaly_key b \<longleftrightarrow> a = b"
  by (auto simp: anomaly_key_def prod_eq_iff)

lemma upsert_anomaly_store:
  assumes "upsert_anomaly_alert env_aware resources now ar score w = Inr w'"
  obtains rtype envt where
    "ar_store w' = upsert_alert (anomaly_key ar) (anomaly_touch now score) (anomaly_alert now ar rtype envt score) (ar_store w)"
    and "ar_found w' = ar_found w"
proof (cases "open_of (anomaly_key ar) (st_alerts (ar_store w))")
  case None
  obtain rtype envt where "w' = w\<lparr>ar_store := add_alert (anomaly_alert now ar rtype envt score) (ar_store w),
      ar_opened := ar_opened w @ [(st_next_id (ar_store w), fst ar, snd ar)]\<rparr>"
    using assms None by (auto simp: upsert_anomaly_alert_def Let_def split: sum.splits)
  then show ?thesis using that None by (simp add: upsert_alert_def)
next
  case (Some ex)
  then show ?thesis using that assms by (auto simp: upsert_anomaly_alert_def upsert_alert_def Let_def)
qed

text \<open>The verdict of a run on a resource; one that is not looked at has none.\<close>

definition score_of :: "anomaly_cfg \<Rightarrow> detector \<Rightarrow> secs \<Rightarrow> reading list \<Rightarrow> nat \<times> string \<Rightarrow> rat option" where
  "score_of cfg dt session_now hist ar =
     (case assess cfg dt (series session_now hist ar) of Anomalous score dev \<Rightarrow> Some score | _ \<Rightarrow> None)"

definition verdict_of :: "anomaly_input \<Rightarrow> nat \<times> string \<Rightarrow> rat option" where
  "verdict_of x ar =
     (if ar \<in> set (anomaly_candidates (ai_session_now x) (ai_history x))
      then score_of (ai_cfg x) (ai_detector x) (ai_session_now x) (ai_history x) ar else None)"

lemma scan_Cons:
  "scan_candidates cfg dt env_aware resources now session_now hist (ar # ars) w =
     (case score_of cfg dt session_now hist ar of
        None \<Rightarrow> scan_candidates cfg dt env_aware resources now session_now hist ars w
      | Some score \<Rightarrow>
          (case upsert_anomaly_alert env_aware resources now ar score (w\<lparr>ar_found := ar_found w @ [ar]\<rparr>) of
             Inl e \<Rightarrow> Inl e
           | Inr w' \<Rightarrow> scan_candidates cfg dt env_aware resources now session_now hist ars w'))"
  by (simp add: score_of_def split: anomaly_verdict.split)

declare scan_candidates.simps(2) [simp del]

lemma scan_induct:
  assumes "scan_candidates cfg dt env_aware resources now session_now hist ars w = Inr w'"
    and "P (ar_store w)"
    and "\<And>db ar score rtype envt. P db \<Longrightarrow> ar \<in> set ars \<Longrightarrow>
      P (upsert_alert (anomaly_key ar) (anomaly_touch now score) (anomaly_alert now ar rtype envt score) db)"
  shows "P (ar_store w')"
  using assms
proof (induction ars arbitrary: w)
  case (Cons ar ars)
  show ?case
  proof (cases "score_of cfg dt session_now hist ar")
    case None
    then show ?thesis using Cons.IH [of w] Cons.prems by (simp add: scan_Cons)
  next
    case (Some score)
    then obtain w1 where w1: "upsert_anomaly_alert env_aware resources now ar score (w\<lparr>ar_found := ar_found w @ [ar]\<rparr>) = Inr w1"
        and rest: "scan_candidates cfg dt env_aware resources now session_now hist ars w1 = Inr w'"
      using Cons.prems(1) by (auto simp: scan_Cons split: sum.splits)
    from upsert_anomaly_store [OF w1] obtain rtype envt where
      "ar_store w1 = upsert_alert (anomaly_key ar) (anomaly_touch now score) (anomaly_alert now ar rtype envt score) (ar_store w)"
      by (metis anomaly_run.select_convs(1) anomaly_run.surjective anomaly_run.update_convs(2))
    then have "P (ar_store w1)" using Cons.prems(2,3) by simp
    then show ?thesis by (rule Cons.IH [OF rest]) (use Cons.prems(3) in simp)
  qed
qed simp

lemma scan_ok:
  assumes "scan_candidates cfg dt env_aware resources now session_now hist ars w = Inr w'" "store_ok now (ar_store w)"
  shows "store_ok now (ar_store w')"
  using assms by (rule scan_induct) (rule unusual.upsert_store_ok)

lemma scan_found:
  assumes "scan_candidates cfg dt env_aware resources now session_now hist ars w = Inr w'"
  shows "ar_found w' = ar_found w @ filter (\<lambda>ar. score_of cfg dt session_now hist ar \<noteq> None) ars"
  using assms
proof (induction ars arbitrary: w)
  case (Cons ar ars)
  show ?case
  proof (cases "score_of cfg dt session_now hist ar")
    case None
    then show ?thesis using Cons by (simp add: scan_Cons)
  next
    case (Some score)
    then obtain w1 where w1: "upsert_anomaly_alert env_aware resources now ar score (w\<lparr>ar_found := ar_found w @ [ar]\<rparr>) = Inr w1"
        and rest: "scan_candidates cfg dt env_aware resources now session_now hist ars w1 = Inr w'"
      using Cons.prems by (auto simp: scan_Cons split: sum.splits)
    have "ar_found w1 = ar_found w @ [ar]" by (rule upsert_anomaly_store [OF w1]) simp
    then show ?thesis using Cons.IH [OF rest] Some by simp
  qed
qed simp

lemma scan_other:
  assumes "scan_candidates cfg dt env_aware resources now session_now hist ars w = Inr w'" "store_ok now (ar_store w)"
    and "ar \<notin> set ars"
  shows "open_alerts (anomaly_key ar) (st_alerts (ar_store w')) = open_alerts (anomaly_key ar) (st_alerts (ar_store w))"
proof -
  let ?P = "\<lambda>db. store_ok now db \<and>
    open_alerts (anomaly_key ar) (st_alerts db) = open_alerts (anomaly_key ar) (st_alerts (ar_store w))"
  have "?P (ar_store w')"
  proof (rule scan_induct [OF assms(1)])
    fix db b score rtype envt
    assume p: "?P db" and b: "b \<in> set ars"
    have "anomaly_key ar \<noteq> anomaly_key b" using b assms(3) by auto
    then show "?P (upsert_alert (anomaly_key b) (anomaly_touch now score) (anomaly_alert now b rtype envt score) db)"
      using p unusual.upsert_store_ok open_alerts_other [OF unusual.upsert_other [OF store_okD(1)]] by metis
  qed (use assms(2) in simp)
  then show ?thesis by simp
qed

lemma scan_own:
  assumes "scan_candidates cfg dt env_aware resources now session_now hist ars w = Inr w'" "store_ok now (ar_store w)"
    and "ar \<in> set ars" "distinct ars" "score_of cfg dt session_now hist ar = Some score"
  shows "map al_current_value (open_alerts (anomaly_key ar) (st_alerts (ar_store w'))) = [Some score]"
  using assms
proof (induction ars arbitrary: w)
  case (Cons b ars)
  show ?case
  proof (cases "score_of cfg dt session_now hist b")
    case None
    then show ?thesis using Cons.IH [of w] Cons.prems by (auto simp: scan_Cons)
  next
    case (Some sc)
    let ?w = "w\<lparr>ar_found := ar_found w @ [b]\<rparr>"
    from Some obtain w1 where w1: "upsert_anomaly_alert env_aware resources now b sc ?w = Inr w1"
        and rest: "scan_candidates cfg dt env_aware resources now session_now hist ars w1 = Inr w'"
      using Cons.prems(1) by (auto simp: scan_Cons split: sum.splits)
    from upsert_anomaly_store [OF w1] obtain rtype envt where st:
      "ar_store w1 = upsert_alert (anomaly_key b) (anomaly_touch now sc) (anomaly_alert now b rtype envt sc) (ar_store ?w)"
      by blast
    have ok: "store_ok now (ar_store w1)" using st unusual.upsert_store_ok Cons.prems(2) by simp
    show ?thesis
    proof (cases "ar = b")
      case True
      have one: "one_open_per_key (st_alerts (ar_store ?w))" using store_okD(2) [OF Cons.prems(2)] by simp
      have "map al_current_value (open_alerts (anomaly_key b) (st_alerts (ar_store w1))) = [Some sc]"
        unfolding st unusual.upsert_open [OF one]
        by (simp add: anomaly_touch_def anomaly_alert_def split: option.split)
      moreover have "ar \<notin> set ars" using True Cons.prems(4) by simp
      ultimately show ?thesis using scan_other [OF rest ok] True Some Cons.prems(5) by simp
    next
      case False
      then show ?thesis using Cons.IH [OF rest ok] Cons.prems(3-5) by simp
    qed
  qed
qed simp

text \<open>A run that finishes: an open alert, with the score, for the resources that were found, for no other.\<close>

lemma cleared_open:
  assumes "store_ok now db"
  shows "open_alerts (anomaly_key ar) (st_alerts (resolve_cleared_anomalies now found db)) =
    (if ar \<in> set found then open_alerts (anomaly_key ar) (st_alerts db) else [])"
proof -
  have c: "anomaly_cleared found a \<longleftrightarrow> ar \<notin> set found" if "key_matches (anomaly_key ar) a" for a
    using that by (simp add: anomaly_cleared_def key_matches_def anomaly_key_def)
  show ?thesis
    by (simp add: resolve_cleared_anomalies_def resolve_where_open c)
       (intro impI open_alerts_other resolve_where_other, simp add: c)
qed

lemma detect_alerts:
  assumes "store_ok (ai_now x) db" "anomaly_enabled (ai_osenv x)"
    and "\<not> too_soon (min_interval_seconds (ai_float x) (ai_osenv x)) last_run (ai_clock x)"
    and "detect_anomalies x (last_run, db) = ((last_run', db'), Inr n, opened)"
  shows "map al_current_value (open_alerts (anomaly_key ar) (st_alerts db')) =
    (case verdict_of x ar of None \<Rightarrow> [] | Some score \<Rightarrow> [Some score])"
proof -
  let ?cands = "anomaly_candidates (ai_session_now x) (ai_history x)"
  let ?score = "score_of (ai_cfg x) (ai_detector x) (ai_session_now x) (ai_history x)"
  let ?w = "\<lparr>ar_store = db, ar_found = [], ar_opened = []\<rparr>"
  obtain w where w: "scan_candidates (ai_cfg x) (ai_detector x) (ai_env_aware x) (ai_resources x) (ai_now x) (ai_session_now x)
      (ai_history x) ?cands ?w = Inr w"
      and db': "db' = resolve_cleared_anomalies (ai_now x) (ar_found w) (ar_store w)"
    using assms(2-4) by (auto simp: detect_anomalies_def split: sum.splits)
  have start: "store_ok (ai_now x) (ar_store ?w)" using assms(1) by simp
  note ok = scan_ok [OF w start]
  have found: "ar \<in> set (ar_found w) \<longleftrightarrow> ar \<in> set ?cands \<and> ?score ar \<noteq> None"
    unfolding scan_found [OF w] by auto
  have v: "verdict_of x ar = (if ar \<in> set ?cands then ?score ar else None)"
    by (simp add: verdict_of_def)
  have "distinct ?cands" by (simp add: anomaly_candidates_def Let_def)
  then have "map al_current_value (open_alerts (anomaly_key ar) (st_alerts (ar_store w))) = [Some score]"
    if "ar \<in> set ?cands" "?score ar = Some score" for score
    using scan_own [OF w start that(1) _ that(2)] by blast
  then show ?thesis unfolding db' cleared_open [OF ok] using found v by (auto split: option.split)
qed

lemma detect_ok:
  "store_ok (ai_now x) db \<Longrightarrow> store_ok (ai_now x) (snd (fst (detect_anomalies x (last_run, db))))"
  by (auto simp: detect_anomalies_def resolve_cleared_anomalies_def dest: scan_ok intro: resolve_where_ok split: sum.split)

text \<open>One resource that is found without an alert, and whose tags are a text that holds no object, stops the run.\<close>

lemma scan_error: "scan_candidates cfg dt env_aware resources now session_now hist ars w = Inl e \<Longrightarrow> e = AttributeError"
  by (induction ars arbitrary: w)
     (auto simp: scan_Cons upsert_anomaly_alert_def anomaly_environment_def Let_def split: option.splits sum.splits if_splits)

lemma scan_stops:
  assumes "ar \<in> set ars" "score_of cfg dt session_now hist ar = Some score" "open_alerts (anomaly_key ar) (st_alerts (ar_store w)) = []"
    and "find (\<lambda>r. rs_account r = fst ar \<and> rs_resource_id r = snd ar) resources = Some r" "rs_tags r = TagsText LNonObject"
    and "\<not> (env_aware \<and> truthy_str (rs_env_resolved r))" "store_ok now (ar_store w)"
  shows "scan_candidates cfg dt env_aware resources now session_now hist ars w = Inl AttributeError"
  using assms
proof (induction ars arbitrary: w)
  case (Cons b ars)
  let ?w = "w\<lparr>ar_found := ar_found w @ [b]\<rparr>"
  have none: "open_of (anomaly_key ar) (st_alerts (ar_store w)) = None"
    using open_of_only [OF store_okD(2) [OF Cons.prems(7)], of "anomaly_key ar"] Cons.prems(3)
    by (simp split: option.splits)
  show ?case
  proof (cases "ar = b")
    case True
    then show ?thesis using Cons.prems none
      by (auto simp: scan_Cons upsert_anomaly_alert_def anomaly_environment_def anomaly_tags_def Let_def)
  next
    case False
    then have ar: "ar \<in> set ars" using Cons.prems(1) by simp
    show ?thesis
    proof (cases "score_of cfg dt session_now hist b")
      case None
      then show ?thesis using Cons.IH [OF ar] Cons.prems by (simp add: scan_Cons)
    next
      case (Some sc)
      show ?thesis
      proof (cases "upsert_anomaly_alert env_aware resources now b sc ?w")
        case (Inl e)
        then show ?thesis using Some scan_error [of cfg dt env_aware resources now session_now hist "b # ars" w e]
          by (simp add: scan_Cons)
      next
        case (Inr w1)
        from upsert_anomaly_store [OF Inr] obtain rtype envt where st:
          "ar_store w1 = upsert_alert (anomaly_key b) (anomaly_touch now sc) (anomaly_alert now b rtype envt sc) (ar_store ?w)"
          by blast
        have "open_alerts (anomaly_key ar) (st_alerts (ar_store w1)) = []"
          using Cons.prems(3) open_alerts_other [OF unusual.upsert_other [OF store_okD(1) [OF Cons.prems(7)]]] False
          by (simp add: st)
        moreover have "store_ok now (ar_store w1)" using st unusual.upsert_store_ok Cons.prems(7) by simp
        ultimately show ?thesis using Cons.IH [OF ar Cons.prems(2) _ Cons.prems(4-6)] Some Inr by (simp add: scan_Cons)
      qed
    qed
  qed
qed simp

end
