(* ===== verification/Retention.thy ===== *)
theory Retention
  imports Alert_Evaluator
begin

text \<open>
  What deletes rows: \<open>app/collector/retention.py\<close>, which prunes old rows in batches of one
  transaction each, and the removal of an account (\<open>app/api/admin/accounts.py\<close>). \<open>LIMIT\<close> without an
  \<open>ORDER BY\<close> takes rows in the order the database scans them in, given by the rank of their ids.
\<close>

subsection \<open>Settings\<close>

definition DEFAULT_ALERT_RETENTION_DAYS :: int where
  "DEFAULT_ALERT_RETENTION_DAYS = 400"

definition MIN_ALERT_RETENTION_DAYS :: int where
  "MIN_ALERT_RETENTION_DAYS = 90"

definition BATCH_SIZE :: nat where
  "BATCH_SIZE = 1000"

definition MAX_BATCHES :: nat where
  "MAX_BATCHES = 50"

definition retention_env_days :: "environ \<Rightarrow> string \<Rightarrow> int \<Rightarrow> int" where
  "retention_env_days osenv name dflt =
     (case osenv name of
        None \<Rightarrow> dflt
      | Some raw \<Rightarrow> if strip raw = [] then dflt else (case py_int raw of None \<Rightarrow> dflt | Some n \<Rightarrow> n))"

definition alert_retention_days :: "environ \<Rightarrow> int" where
  "alert_retention_days osenv =
     (let days = retention_env_days osenv ''ALERT_RETENTION_DAYS'' DEFAULT_ALERT_RETENTION_DAYS in
      if days \<le> 0 then 0 else max days MIN_ALERT_RETENTION_DAYS)"

subsection \<open>Batches\<close>

text \<open>\<open>DELETE ... WHERE p LIMIT BATCH_SIZE\<close>: the rows left and the number deleted.\<close>

definition delete_limited :: "('r \<Rightarrow> nat) \<Rightarrow> ('r \<Rightarrow> bool) \<Rightarrow> 'r list \<Rightarrow> 'r list \<times> nat" where
  "delete_limited rank p rows =
     (let doomed = take BATCH_SIZE (sort_key rank (filter p rows)) in
      (filter (\<lambda>r. r \<notin> set doomed) rows, length doomed))"

text \<open>
  \<open>answers n\<close>: the database answers the batch before which \<open>n\<close> more are allowed. An error leaves
  the batches before it committed.
\<close>

fun delete_in_batches ::
  "(nat \<Rightarrow> bool) \<Rightarrow> ('r \<Rightarrow> nat) \<Rightarrow> ('r \<Rightarrow> bool) \<Rightarrow> nat \<Rightarrow> nat \<Rightarrow> 'r list \<Rightarrow> 'r list \<times> nat option" where
  "delete_in_batches answers rank p 0 deleted rows = (rows, Some deleted)"
| "delete_in_batches answers rank p (Suc n) deleted rows =
     (if \<not> answers n then (rows, None)
      else
        (case delete_limited rank p rows of
           (rows', c) \<Rightarrow>
             if c < BATCH_SIZE then (rows', Some (deleted + c))
             else delete_in_batches answers rank p n (deleted + c) rows'))"

subsection \<open>The tables\<close>

record log_row =
  lg_id :: nat
  lg_created :: secs

record agent_token =
  tk_id :: nat
  tk_revoked_at :: "secs option"

record enroll_key =
  ek_id :: nat
  ek_created :: secs
  ek_revoked :: bool
  ek_used :: int
  ek_max :: int
  ek_expires :: "secs option"

text \<open>A last-value row and the resource row it belongs to.\<close>

record last_value =
  lv_id :: nat
  lv_resource :: nat

record retention_db =
  rt_alerts :: "alert list"
  rt_notes :: "log_row list"
  rt_emails :: "log_row list"
  rt_values :: "last_value list"
  rt_tokens :: "agent_token list"
  rt_keys :: "enroll_key list"

definition before :: "secs option \<Rightarrow> secs \<Rightarrow> bool" where
  "before t limit_at \<longleftrightarrow> (case t of None \<Rightarrow> False | Some s \<Rightarrow> s < limit_at)"

definition expired_alert :: "secs \<Rightarrow> int \<Rightarrow> alert \<Rightarrow> bool" where
  "expired_alert now days a \<longleftrightarrow> al_status a = Resolved \<and> before (al_resolved_at a) (now - days * 86400)"

definition prune_resolved_alerts ::
  "environ \<Rightarrow> secs \<Rightarrow> (nat \<Rightarrow> bool) \<Rightarrow> (nat \<Rightarrow> nat) \<Rightarrow> alert list \<Rightarrow> alert list \<times> nat option" where
  "prune_resolved_alerts osenv now answers rank rows =
     (let days = alert_retention_days osenv in
      if days = 0 then (rows, Some 0)
      else delete_in_batches answers (\<lambda>a. rank (al_id a)) (expired_alert now days) MAX_BATCHES 0 rows)"

text \<open>The delivery logs: \<open>on\<close> is the switch of the log, at least seven days are kept.\<close>

definition prune_log ::
  "bool \<Rightarrow> environ \<Rightarrow> string \<Rightarrow> secs \<Rightarrow> (nat \<Rightarrow> bool) \<Rightarrow> (nat \<Rightarrow> nat) \<Rightarrow> log_row list \<Rightarrow> log_row list \<times> nat option" where
  "prune_log on osenv name now answers rank rows =
     (let days = retention_env_days osenv name 90 in
      if \<not> on \<or> days \<le> 0 then (rows, Some 0)
      else delete_in_batches answers (\<lambda>r. rank (lg_id r)) (\<lambda>r. lg_created r < now - max days 7 * 86400) MAX_BATCHES 0 rows)"

definition spent_key :: "secs \<Rightarrow> int \<Rightarrow> enroll_key \<Rightarrow> bool" where
  "spent_key now days k \<longleftrightarrow> ek_created k < now - days * 86400 \<and>
     (ek_revoked k \<or> ek_used k \<ge> ek_max k \<or> before (ek_expires k) now)"

text \<open>Two deletes; when the second fails the first stays done, and the job counts as failed.\<close>

definition prune_host_agent_credentials ::
  "environ \<Rightarrow> secs \<Rightarrow> (nat \<Rightarrow> bool) \<times> (nat \<Rightarrow> bool) \<Rightarrow> (nat \<Rightarrow> nat) \<Rightarrow> agent_token list \<times> enroll_key list
   \<Rightarrow> (agent_token list \<times> enroll_key list) \<times> nat option" where
  "prune_host_agent_credentials osenv now answers rank db =
     (let days = retention_env_days osenv ''HOST_AGENT_CREDENTIAL_RETENTION_DAYS'' 90 in
      if days \<le> 0 then (db, Some 0)
      else
        (case delete_in_batches (fst answers) (\<lambda>t. rank (tk_id t))
                (\<lambda>t. before (tk_revoked_at t) (now - max days 30 * 86400)) MAX_BATCHES 0 (fst db) of
           (toks, None) \<Rightarrow> ((toks, snd db), None)
         | (toks, Some n) \<Rightarrow>
             (case delete_in_batches (snd answers) (\<lambda>k. rank (ek_id k)) (spent_key now (max days 30)) MAX_BATCHES 0 (snd db) of
                (enroll, m) \<Rightarrow> ((toks, enroll), map_option ((+) n) m))))"

definition orphan_metrics_hours :: "environ \<Rightarrow> int" where
  "orphan_metrics_hours osenv = max (retention_env_days osenv ''ORPHAN_METRICS_HOURS'' 72) 48"

definition orphaned :: "(nat \<Rightarrow> bool) \<Rightarrow> resource list \<Rightarrow> secs \<Rightarrow> int \<Rightarrow> last_value \<Rightarrow> bool" where
  "orphaned is_aws resources now hours v \<longleftrightarrow>
     list_ex (\<lambda>r. rs_id r = lv_resource v \<and> is_aws (rs_account r) \<and>
         (rs_instance_state r = Some ''terminated'' \<or> before (rs_last_seen_at r) (now - hours * 3600))) resources"

definition prune_orphaned_metric_rows ::
  "(nat \<Rightarrow> bool) \<Rightarrow> resource list \<Rightarrow> environ \<Rightarrow> secs \<Rightarrow> (nat \<Rightarrow> bool) \<Rightarrow> (nat \<Rightarrow> nat) \<Rightarrow> last_value list
   \<Rightarrow> last_value list \<times> nat option" where
  "prune_orphaned_metric_rows is_aws resources osenv now answers rank rows =
     delete_in_batches answers (\<lambda>v. rank (lv_id v)) (orphaned is_aws resources now (orphan_metrics_hours osenv)) MAX_BATCHES 0 rows"

text \<open>\<open>run_retention\<close>: the jobs in turn; one that fails reports -1 and stops no other.\<close>

record retention_env =
  re_osenv :: environ
  re_now :: secs
  re_session_now :: secs
  re_answers :: "string \<Rightarrow> nat \<Rightarrow> bool"
  re_rank :: "nat \<Rightarrow> nat"
  re_email_log :: bool
  re_resources :: "resource list"
  re_is_aws :: "nat \<Rightarrow> bool"

definition job_count :: "nat option \<Rightarrow> int" where
  "job_count n = (case n of None \<Rightarrow> -1 | Some k \<Rightarrow> int k)"

definition run_retention :: "retention_env \<Rightarrow> retention_db \<Rightarrow> retention_db \<times> (string \<times> int) list" where
  "run_retention x db =
     (let (alerts, n1) = prune_resolved_alerts (re_osenv x) (re_now x) (re_answers x ''alerts'') (re_rank x) (rt_alerts db);
          (notes, n2) = prune_log True (re_osenv x) ''NOTIFICATION_LOG_RETENTION_DAYS'' (re_session_now x)
             (re_answers x ''notification_log'') (re_rank x) (rt_notes db);
          (emails, n3) = prune_log (re_email_log x) (re_osenv x) ''EMAIL_LOG_RETENTION_DAYS'' (re_session_now x)
             (re_answers x ''email_delivery_log'') (re_rank x) (rt_emails db);
          (vals, n4) = prune_orphaned_metric_rows (re_is_aws x) (re_resources x) (re_osenv x) (re_session_now x)
             (re_answers x ''orphaned_metric_rows'') (re_rank x) (rt_values db);
          (creds, n5) = prune_host_agent_credentials (re_osenv x) (re_now x)
             (re_answers x ''host_agent_tokens'', re_answers x ''host_agent_enrollment_keys'') (re_rank x)
             (rt_tokens db, rt_keys db)
      in (\<lparr>rt_alerts = alerts, rt_notes = notes, rt_emails = emails, rt_values = vals,
           rt_tokens = fst creds, rt_keys = snd creds\<rparr>,
          [(''alerts'', job_count n1), (''notification_log'', job_count n2), (''email_delivery_log'', job_count n3),
           (''orphaned_metric_rows'', job_count n4), (''host_agent_credentials'', job_count n5)]))"

subsection \<open>Removing an account\<close>

text \<open>The tables that are only deleted from, as the account of each row.\<close>

definition ACCOUNT_TABLES :: "string list" where
  "ACCOUNT_TABLES =
     [''resource_relationships'', ''account_metric_selections'', ''escalation_policies'', ''cloud_events'', ''incidents'',
      ''resource_health'', ''synthetic_checks'', ''slo_definitions'', ''security_findings'', ''maintenance_windows'',
      ''status_page_components'', ''metric_baseline'']"

record account_db =
  ad_accounts :: "account list"
  ad_store :: store
  ad_values :: "last_value list"
  ad_resources :: "resource list"
  ad_tables :: "string \<Rightarrow> nat list"

datatype account_error = AccountNotFound | AccountDbFailed

text \<open>
  \<open>delete_account\<close>: the row is kept and switched off; \<open>commits\<close> is false when a statement or the
  commit fails, and then nothing has changed.
\<close>

definition remove_account_rows :: "nat \<Rightarrow> account_db \<Rightarrow> account_db" where
  "remove_account_rows i db =
     \<lparr>ad_accounts = update_where (\<lambda>a. ac_id a = i) (\<lambda>a. a\<lparr>ac_active := False\<rparr>) (ad_accounts db),
      ad_store = (ad_store db)\<lparr>st_alerts := filter (\<lambda>a. al_account a \<noteq> Some i) (st_alerts (ad_store db)),
                               st_pending := filter (\<lambda>p. pd_account p \<noteq> i) (st_pending (ad_store db))\<rparr>,
      ad_values = filter (\<lambda>v. \<not> list_ex (\<lambda>r. rs_id r = lv_resource v \<and> rs_account r = i) (ad_resources db)) (ad_values db),
      ad_resources = filter (\<lambda>r. rs_account r \<noteq> i) (ad_resources db),
      ad_tables = (\<lambda>t. if t \<in> set ACCOUNT_TABLES then filter (\<lambda>k. k \<noteq> i) (ad_tables db t) else ad_tables db t)\<rparr>"

definition delete_account :: "bool \<Rightarrow> nat \<Rightarrow> account_db \<Rightarrow> account_error + account_db" where
  "delete_account commits i db =
     (if \<not> list_ex (\<lambda>a. ac_id a = i) (ad_accounts db) then Inl AccountNotFound
      else if \<not> commits then Inl AccountDbFailed
      else Inr (remove_account_rows i db))"

subsection \<open>Facts\<close>

lemma retention_floor: "alert_retention_days osenv = 0 \<or> alert_retention_days osenv \<ge> 90"
  by (auto simp: alert_retention_days_def MIN_ALERT_RETENTION_DAYS_def Let_def)

lemma split_gone:
  "length (filter q rows) = length (filter q (filter (\<lambda>r. r \<notin> D) rows)) + length (filter q (filter (\<lambda>r. r \<in> D) rows))"
  by (induction rows) auto

lemma delete_limited_rows:
  assumes "distinct rows" "delete_limited rank p rows = (rows', c)"
  shows "\<exists>D. rows' = filter (\<lambda>r. r \<notin> D) rows \<and> D \<subseteq> {r. p r} \<and> length rows = length rows' + c"
    and "c < BATCH_SIZE \<Longrightarrow> rows' = filter (\<lambda>r. \<not> p r) rows"
    and "length (filter p rows) = length (filter p rows') + c" and "c \<le> BATCH_SIZE"
    and "c = min BATCH_SIZE (length (filter p rows))"
proof -
  let ?D = "take BATCH_SIZE (sort_key rank (filter p rows))"
  have rows': "rows' = filter (\<lambda>r. r \<notin> set ?D) rows" and c: "c = length ?D"
    using assms(2) by (auto simp: delete_limited_def Let_def)
  have dist: "distinct ?D" by (rule distinct_take) (simp add: assms(1))
  have sub: "set ?D \<subseteq> {r \<in> set rows. p r}"
    using set_take_subset [of BATCH_SIZE "sort_key rank (filter p rows)"] by auto
  have gone: "length (filter (\<lambda>r. r \<in> set ?D) rows) = c"
  proof -
    have "set (filter (\<lambda>r. r \<in> set ?D) rows) = set ?D" using sub by auto
    then show ?thesis unfolding c using dist assms(1) by (metis distinct_card distinct_filter)
  qed
  show "\<exists>D. rows' = filter (\<lambda>r. r \<notin> D) rows \<and> D \<subseteq> {r. p r} \<and> length rows = length rows' + c"
    using split_gone [of "\<lambda>_. True" rows "set ?D"] gone sub rows' by (intro exI [of _ "set ?D"]) auto
  have "filter p (filter (\<lambda>r. r \<in> set ?D) rows) = filter (\<lambda>r. r \<in> set ?D) rows"
    unfolding filter_filter using sub by (intro filter_cong refl) blast
  then show "length (filter p rows) = length (filter p rows') + c"
    unfolding rows' using split_gone [of p rows "set ?D"] gone by (simp only:)
  show "c \<le> BATCH_SIZE" by (simp add: c)
  show m: "c = min BATCH_SIZE (length (filter p rows))" by (simp add: c min.commute)
  show "rows' = filter (\<lambda>r. \<not> p r) rows" if "c < BATCH_SIZE"
  proof -
    have "?D = sort_key rank (filter p rows)" using that m by simp
    then show ?thesis unfolding rows' by (auto intro: filter_cong)
  qed
qed

lemma batches_rows:
  assumes "distinct rows" "delete_in_batches answers rank p n deleted rows = (rows', res)"
  shows "\<exists>D. rows' = filter (\<lambda>r. r \<notin> D) rows \<and> D \<subseteq> {r. p r}"
    and "res = Some m \<Longrightarrow> m + length rows' = deleted + length rows"
    and "(\<And>i. i < n \<Longrightarrow> answers i) \<Longrightarrow> length (filter p rows) < n * BATCH_SIZE \<Longrightarrow>
      rows' = filter (\<lambda>r. \<not> p r) rows \<and> res = Some (deleted + length (filter p rows))"
proof -
  have "(\<exists>D. rows' = filter (\<lambda>r. r \<notin> D) rows \<and> D \<subseteq> {r. p r}) \<and>
     (\<forall>m. res = Some m \<longrightarrow> m + length rows' = deleted + length rows) \<and>
     ((\<forall>i<n. answers i) \<longrightarrow> length (filter p rows) < n * BATCH_SIZE \<longrightarrow>
      rows' = filter (\<lambda>r. \<not> p r) rows \<and> res = Some (deleted + length (filter p rows)))"
    using assms
  proof (induction n arbitrary: deleted rows)
    case 0
    then show ?case by (auto intro: exI [of _ "{}"])
  next
    case (Suc n)
    show ?case
    proof (cases "answers n")
      case False
      then show ?thesis using Suc.prems by (auto intro: exI [of _ "{}"])
    next
      case True
      obtain rows1 c where d: "delete_limited rank p rows = (rows1, c)" by fastforce
      note f = delete_limited_rows [OF Suc.prems(1) d]
      from f(1) obtain D where D: "rows1 = filter (\<lambda>r. r \<notin> D) rows" "D \<subseteq> {r. p r}" "length rows = length rows1 + c"
        by blast
      show ?thesis
      proof (cases "c < BATCH_SIZE")
        case small: True
        then have res: "rows' = rows1" "res = Some (deleted + c)" using Suc.prems(2) True d by auto
        then show ?thesis using D f(2) [OF small] f(5) small by (auto intro: exI [of _ D])
      next
        case False
        then have rest: "delete_in_batches answers rank p n (deleted + c) rows1 = (rows', res)"
          using Suc.prems(2) True d by simp
        have d1: "distinct rows1" using D(1) Suc.prems(1) by simp
        note ih = Suc.IH [OF d1 rest]
        from ih obtain D' where D': "rows' = filter (\<lambda>r. r \<notin> D') rows1" "D' \<subseteq> {r. p r}" by blast
        have e: "rows' = filter (\<lambda>r. r \<notin> D \<union> D') rows"
          unfolding D'(1) D(1) by simp
        have u: "D \<union> D' \<subseteq> {r. p r}" using D(2) D'(2) by blast
        have np: "filter (\<lambda>r. \<not> p r) rows1 = filter (\<lambda>r. \<not> p r) rows"
          unfolding D(1) using D(2) by (auto intro: filter_cong)
        have c: "c = BATCH_SIZE" using False f(4) by simp
        have "\<exists>D. rows' = filter (\<lambda>r. r \<notin> D) rows \<and> D \<subseteq> {r. p r}" using e u by blast
        moreover have "m + length rows' = deleted + length rows" if "res = Some m" for m
          using ih that D(3) by simp
        moreover have "rows' = filter (\<lambda>r. \<not> p r) rows \<and> res = Some (deleted + length (filter p rows))"
          if "\<forall>i<Suc n. answers i" "length (filter p rows) < Suc n * BATCH_SIZE"
        proof -
          have "length (filter p rows1) < n * BATCH_SIZE" using that(2) f(3) c by simp
          then show ?thesis using ih that(1) np f(3) by simp
        qed
        ultimately show ?thesis by blast
      qed
    qed
  qed
  then show "\<exists>D. rows' = filter (\<lambda>r. r \<notin> D) rows \<and> D \<subseteq> {r. p r}"
    and "res = Some m \<Longrightarrow> m + length rows' = deleted + length rows"
    and "(\<And>i. i < n \<Longrightarrow> answers i) \<Longrightarrow> length (filter p rows) < n * BATCH_SIZE \<Longrightarrow>
      rows' = filter (\<lambda>r. \<not> p r) rows \<and> res = Some (deleted + length (filter p rows))"
    by blast+
qed

end
