(* ===== verification/Alert_System.thy ===== *)
theory Alert_System
  imports Maintenance Escalation Alert_Actions Synthetic Watchdog Cost_Jump Anomaly Retention
begin

text \<open>
  The life of the alert tables: evaluation cycles, sweeps, maintenance reconciliations,
  escalation runs, synthetic probes, deleted checks, watchdog passes, cost checks, anomaly runs,
  pruning, removed accounts and people's actions, in any order and at any times, as a step
  relation on the store. The invariants hold in every reachable store.
\<close>

subsection \<open>Steps\<close>

text \<open>A state is the time of the last step and the store; time does not run backwards.\<close>

inductive alert_step :: "secs \<times> store \<Rightarrow> secs \<times> store \<Rightarrow> bool" where
  Evaluate: "t \<le> now \<Longrightarrow>
     alert_step (t, db) (now, fst (evaluate_cycle fl bls silenced cf p1 now rows db))"
| Sweep: "t \<le> sw_now w \<Longrightarrow>
     alert_step (t, db) (sw_now w, fst (auto_resolve_stale_alerts w db))"
| Maintain: "t \<le> now \<Longrightarrow>
     alert_step (t, db)
       (now, db\<lparr>st_alerts := fst (sync_maintenance_silencing es ws now (st_alerts db))\<rparr>)"
| Escalate: "t \<le> now \<Longrightarrow>
     alert_step (t, db) (now, db\<lparr>st_alerts := fst (evaluate_escalations fl edb now (st_alerts db))\<rparr>)"
| Act: "t \<le> now \<Longrightarrow>
     alert_step (t, db) (now, db\<lparr>st_alerts := perform adb u who now x (st_alerts db)\<rparr>)"
| Probe: "t \<le> now \<Longrightarrow> sy_store sdb = db \<Longrightarrow>
     alert_step (t, db) (now, sy_store (fst (process_check now globals edit outcome commits c sdb)))"
| Delete_Check: "t \<le> now \<Longrightarrow> sy_store sdb = db \<Longrightarrow>
     alert_step (t, db) (now, sy_store (delete_check now who acct i sdb))"
| Watch: "t \<le> now \<Longrightarrow> ww_store w = db \<Longrightarrow>
     alert_step (t, db) (now, ww_store (fst (run_watchdog osenv classifier_names metrics silenced now accounts hosts w)))"
| Cost: "t \<le> now \<Longrightarrow> cw_store cw = db \<Longrightarrow>
     alert_step (t, db) (now, cw_store (cost_pass base s now today
       (dict_get (if readable then active_silenced_map es ws now else [])) loads cw))"
| Detect: "t \<le> ai_now x \<Longrightarrow>
     alert_step (t, db) (ai_now x, snd (fst (detect_anomalies x (last_run, db))))"
| Prune: "t \<le> now \<Longrightarrow>
     alert_step (t, db) (now, db\<lparr>st_alerts := fst (prune_resolved_alerts osenv now answers rank (st_alerts db))\<rparr>)"
| Remove_Account: "t \<le> now \<Longrightarrow> ad_store adb = db \<Longrightarrow> delete_account commits i adb = Inr adb' \<Longrightarrow>
     alert_step (t, db) (now, ad_store adb')"

definition empty_store :: store where
  "empty_store = \<lparr>st_alerts = [], st_pending = [], st_next_id = 1\<rparr>"

inductive alert_run :: "secs \<times> store \<Rightarrow> bool" where
  Start: "alert_run (t, empty_store)"
| Step: "alert_run s \<Longrightarrow> alert_step s s' \<Longrightarrow> alert_run s'"

inductive_cases alert_stepE: "alert_step s s'"

subsection \<open>What a row may become\<close>

text \<open>
  A row is well kept when its acknowledgement, resolution and silencing columns agree with its
  status.
\<close>

definition row_ok :: "alert \<Rightarrow> bool" where
  "row_ok a \<longleftrightarrow>
     (al_status a = Active \<longrightarrow> \<not> al_acked a) \<and> (al_status a = Acknowledged \<longrightarrow> al_acked a) \<and>
     (al_status a = Resolved \<longleftrightarrow> al_resolved_at a \<noteq> None) \<and>
     (al_status a = Resolved \<longrightarrow> al_resolution_reason a \<noteq> None \<and> al_resolved_by a \<noteq> None) \<and>
     (al_silenced a \<longleftrightarrow> al_silenced_reason a \<noteq> None) \<and>
     (al_escalated_at a \<noteq> None \<longleftrightarrow> al_escalated_group a \<noteq> None)"

definition closing :: "alert \<Rightarrow> status \<times> secs option \<times> string option \<times> string option" where
  "closing a = (al_status a, al_resolved_at a, al_resolution_reason a, al_resolved_by a)"

text \<open>
  \<open>becomes a b\<close>: the row keeps its identity; once resolved it stays as it was resolved, and an
  escalation is never undone or moved to another group.
\<close>

definition becomes :: "alert \<Rightarrow> alert \<Rightarrow> bool" where
  "becomes a b \<longleftrightarrow>
     alert_ident b = alert_ident a \<and> (row_ok a \<longrightarrow> row_ok b) \<and>
     (al_status a = Resolved \<longrightarrow> closing b = closing a) \<and>
     (al_escalated_at a \<noteq> None \<longrightarrow>
        al_escalated_at b = al_escalated_at a \<and> al_escalated_group b = al_escalated_group a)"

lemma becomes_refl [simp, intro]: "becomes a a"
  by (simp add: becomes_def)

lemma becomes_trans: "becomes a b \<Longrightarrow> becomes b c \<Longrightarrow> becomes a c"
  by (auto simp: becomes_def closing_def)

lemma becomes_healthy: "becomes a (healthy_touch v line now a)"
  by (auto simp: becomes_def row_ok_def closing_def healthy_touch_def alert_ident_def)

lemma becomes_resolve: "is_open a \<Longrightarrow> becomes a (resolve_alert r now a)"
  by (auto simp: becomes_def row_ok_def closing_def resolve_alert_def alert_ident_def is_open_def)

lemma becomes_breach: "is_open a \<Longrightarrow> becomes a (breach_touch sev v thr now a)"
  by (cases "al_status a")
     (auto simp: becomes_def row_ok_def closing_def breach_touch_def alert_ident_def is_open_def Let_def)

lemma becomes_sweep: "is_open a \<Longrightarrow> becomes a (sweep_resolve r now a)"
  by (auto simp: becomes_def row_ok_def closing_def sweep_resolve_def alert_ident_def is_open_def)

lemma becomes_swept: "becomes a (swept rules now a)"
  by (auto simp: swept_def intro: becomes_sweep split: option.split)

lemma becomes_reconciled: "becomes a (reconciled c a)"
  by (auto simp: reconciled_def becomes_def row_ok_def closing_def silence_def unsilence_def
      alert_ident_def split: option.split)

lemma becomes_claim: "al_escalated_at a = None \<Longrightarrow> becomes a (claim now c a)"
  by (auto simp: becomes_def row_ok_def closing_def claim_def alert_ident_def)

lemma becomes_ack: "al_status a = Active \<Longrightarrow> becomes a (ack who now a)"
  by (auto simp: becomes_def row_ok_def closing_def ack_def alert_ident_def)

lemma becomes_manual: "is_open a \<Longrightarrow> becomes a (manual_resolve r who now a)"
  by (auto simp: becomes_def row_ok_def closing_def manual_resolve_def alert_ident_def is_open_def)

lemma becomes_mute: "becomes a (a\<lparr>al_muted_until := m\<rparr>)"
  by (auto simp: becomes_def row_ok_def closing_def alert_ident_def)

lemma becomes_refresh: "becomes a (refresh_failures now n a)"
  by (auto simp: becomes_def row_ok_def closing_def refresh_failures_def alert_ident_def)

lemma becomes_cert_touch: "is_open a \<Longrightarrow> becomes a (cert_touch now sev d thr a)"
  by (cases "al_status a")
     (auto simp: becomes_def row_ok_def closing_def cert_touch_def alert_ident_def is_open_def Let_def)

lemma becomes_resolve_seen: "is_open a \<Longrightarrow> becomes a (resolve_seen r now a)"
  by (auto simp: becomes_def row_ok_def closing_def resolve_seen_def resolve_alert_def alert_ident_def is_open_def)

lemma becomes_delete: "is_open a \<Longrightarrow> becomes a (delete_resolve now who a)"
  by (auto simp: becomes_def row_ok_def closing_def delete_resolve_def alert_ident_def is_open_def)

lemma becomes_wd_touch: "is_open a \<Longrightarrow> becomes a (wd_touch now sev age thr a)"
  by (cases "al_status a")
     (auto simp: becomes_def row_ok_def closing_def wd_touch_def alert_ident_def is_open_def Let_def)

lemma becomes_cost_touch: "becomes a (cost_touch now usd lims a)"
  by (auto simp: becomes_def row_ok_def closing_def cost_touch_def alert_ident_def)

lemma becomes_anomaly_touch: "becomes a (anomaly_touch now score a)"
  by (auto simp: becomes_def row_ok_def closing_def anomaly_touch_def alert_ident_def)

lemma becomes_acts: "acts who now a b \<Longrightarrow> becomes a b"
  unfolding acts_def using becomes_refl becomes_ack becomes_manual becomes_mute by blast

lemma new_alert_ok: "row_ok (new_alert now row v envt p thr s i)"
  by (auto simp: row_ok_def new_alert_def)

lemma synth_alert_ok: "row_ok (synth_alert now c m sev cur thr b i)"
  by (auto simp: row_ok_def synth_alert_def)

lemma anomaly_alert_ok: "row_ok (anomaly_alert now ar rtype envt score i)"
  by (auto simp: row_ok_def anomaly_alert_def)

lemma cost_alert_ok: "r \<noteq> Some [] \<Longrightarrow> row_ok (cost_alert now pk usd lims r i)"
  by (auto simp: row_ok_def cost_alert_def truthy_str_def split: option.split)

subsection \<open>What a table may become\<close>

text \<open>Rows are never deleted; new ones are added behind them, well kept.\<close>

definition table_becomes :: "alert list \<Rightarrow> alert list \<Rightarrow> bool" where
  "table_becomes as bs \<longleftrightarrow>
     length as \<le> length bs \<and> list_all2 becomes as (take (length as) bs) \<and>
     (\<forall>b\<in>set (drop (length as) bs). row_ok b)"

lemma table_refl [simp, intro]: "table_becomes as as"
  by (simp add: table_becomes_def list_all2_refl)

lemma table_map: "(\<And>a. becomes a (f a)) \<Longrightarrow> table_becomes as (map f as)"
  by (simp add: table_becomes_def list_all2_conv_all_nth)

lemma table_update:
  "(\<And>a. a \<in> set as \<Longrightarrow> p a \<Longrightarrow> becomes a (f a)) \<Longrightarrow> table_becomes as (update_where p f as)"
  by (auto simp: table_becomes_def update_where_def list_all2_conv_all_nth)

lemma table_append: "row_ok a \<Longrightarrow> table_becomes as (as @ [a])"
  by (simp add: table_becomes_def list_all2_refl)

lemma table_nth:
  "table_becomes as bs \<longleftrightarrow>
     length as \<le> length bs \<and> (\<forall>i<length as. becomes (as ! i) (bs ! i)) \<and>
     (\<forall>i<length bs. length as \<le> i \<longrightarrow> row_ok (bs ! i))"
proof -
  have "(\<forall>b\<in>set (drop (length as) bs). row_ok b) \<longleftrightarrow> (\<forall>i<length bs. length as \<le> i \<longrightarrow> row_ok (bs ! i))"
    if "length as \<le> length bs"
  proof
    assume a: "\<forall>b\<in>set (drop (length as) bs). row_ok b"
    show "\<forall>i<length bs. length as \<le> i \<longrightarrow> row_ok (bs ! i)"
    proof (intro allI impI)
      fix i assume i: "i < length bs" "length as \<le> i"
      have "drop (length as) bs ! (i - length as) = bs ! i" using i by simp
      moreover have "i - length as < length (drop (length as) bs)" using i by simp
      ultimately show "row_ok (bs ! i)" using a by (metis nth_mem)
    qed
  next
    assume "\<forall>i<length bs. length as \<le> i \<longrightarrow> row_ok (bs ! i)"
    then show "\<forall>b\<in>set (drop (length as) bs). row_ok b" by (auto simp: in_set_conv_nth)
  qed
  then show ?thesis by (auto simp: table_becomes_def list_all2_conv_all_nth)
qed

lemma table_member:
  assumes "table_becomes as bs" "a \<in> set as"
  shows "\<exists>b\<in>set bs. becomes a b"
proof -
  obtain i where "i < length as" "a = as ! i" using assms(2) by (auto simp: in_set_conv_nth)
  then show ?thesis using assms(1) by (intro bexI [of _ "bs ! i"]) (auto simp: table_nth)
qed

lemma table_trans:
  assumes "table_becomes as bs" "table_becomes bs cs"
  shows "table_becomes as cs"
  unfolding table_nth
proof (intro conjI allI impI)
  show "length as \<le> length cs" using assms by (auto simp: table_nth)
  show "becomes (as ! i) (cs ! i)" if "i < length as" for i
    using assms that by (auto simp: table_nth intro: becomes_trans)
  show "row_ok (cs ! i)" if "i < length cs" "length as \<le> i" for i
  proof (cases "i < length bs")
    case True
    then have "row_ok (bs ! i)" "becomes (bs ! i) (cs ! i)" using assms that by (auto simp: table_nth)
    then show ?thesis by (simp add: becomes_def)
  next
    case False
    then show ?thesis using assms that by (auto simp: table_nth)
  qed
qed

lemma table_row_ok:
  assumes "table_becomes as bs" "\<forall>a\<in>set as. row_ok a"
  shows "\<forall>b\<in>set bs. row_ok b"
proof
  fix b assume "b \<in> set bs"
  then obtain i where i: "i < length bs" "b = bs ! i" by (auto simp: in_set_conv_nth)
  show "row_ok b"
  proof (cases "i < length as")
    case True
    then have "row_ok (as ! i)" "becomes (as ! i) (bs ! i)" using assms by (auto simp: table_nth)
    then show ?thesis using i by (simp add: becomes_def)
  next
    case False
    then show ?thesis using assms(1) i by (auto simp: table_nth)
  qed
qed

subsection \<open>Every step is such a change\<close>

lemma healthy_table: "ids_ok db \<Longrightarrow> table_becomes (st_alerts db) (st_alerts (fst (healthy_step now row v db sx)))"
proof -
  have u1: "table_becomes as (update_where p (healthy_touch w line now) as)" for p w line as
    by (rule table_update) (rule becomes_healthy)
  have u2: "table_becomes as (update_where (\<lambda>a. by_id i a \<and> is_open a) (resolve_alert r now) as)" for i r as
    by (rule table_update) (auto intro: becomes_resolve)
  show ?thesis
    by (simp add: healthy_step_def Let_def u1 table_trans [OF u1 u2] split: option.split)
qed

lemma breach_table:
  assumes "ids_ok db"
  shows "table_becomes (st_alerts db) (st_alerts (fst (breach_step fl silenced now row v db sx)))"
proof (cases "find_open (row_key row) (st_alerts db)")
  case None
  then show ?thesis
    by (auto simp: breach_step_def Let_def table_append new_alert_ok split: option.splits)
next
  case (Some ex)
  note ex = find_open_Some [OF Some]
  have "a = ex" if "a \<in> set (st_alerts db)" "by_id (al_id ex) a" for a
    using assms ex(1) that by (auto simp: ids_ok_def distinct_map inj_on_def by_id_def)
  then have "table_becomes (st_alerts db)
      (update_where (by_id (al_id ex)) (breach_touch sev w thr now) (st_alerts db))" for sev w thr
    using ex(3) by (intro table_update) (auto intro: becomes_breach)
  with Some show ?thesis by (simp add: breach_step_def Let_def)
qed

lemma evaluate_row_table:
  assumes "ids_ok db" "evaluate_row fl bls silenced now row db sx = Inr r"
  shows "table_becomes (st_alerts db) (st_alerts (fst r))"
  using assms(2)
  by (cases rule: evaluate_row_cases) (simp_all add: healthy_table breach_table assms(1))

lemma evaluate_cycle_table:
  assumes "store_ok now db"
  shows "table_becomes (st_alerts db) (st_alerts (fst (evaluate_cycle fl bls silenced cf p1 now rows db)))"
proof -
  let ?P = "\<lambda>d. store_ok now d \<and> table_becomes (st_alerts db) (st_alerts d)"
  have "?P (fst (evaluate_rows fl bls silenced cf now rs db sx))" for rs sx
  proof (rule evaluate_rows_induct [where P = ?P])
    fix row d sx r
    assume "?P d" and r: "evaluate_row fl bls silenced now row d sx = Inr r"
    then show "?P (fst r)"
      using evaluate_row_ok [OF _ r] evaluate_row_table [OF _ r] store_okD(1) table_trans by blast
  qed (use assms in simp)
  then show ?thesis by (simp add: evaluate_cycle_def)
qed

lemma sweep_table:
  "ids_ok db \<Longrightarrow> table_becomes (st_alerts db) (st_alerts (fst (auto_resolve_stale_alerts w db)))"
  by (simp add: sweep_alerts table_map becomes_swept)

lemma maintain_table:
  "distinct (map al_id as) \<Longrightarrow> table_becomes as (fst (sync_maintenance_silencing es ws now as))"
  by (simp add: sync_alerts table_map becomes_reconciled)

lemma escalate_table: "table_becomes as (fst (evaluate_escalations fl edb now as))"
  unfolding evaluate_escalations_alerts
  by (rule table_map) (auto intro: becomes_claim split: option.split)

lemma perform_table:
  assumes "distinct (map al_id as)"
  shows "table_becomes as (perform adb u who now x as)"
proof -
  from perform_own [OF assms, of adb u who now x] obtain p f
    where eq: "perform adb u who now x as = update_where p f as"
      and pf: "\<And>a. a \<in> set as \<Longrightarrow> p a \<Longrightarrow> acts who now a (f a)"
    unfolding own_update_def by blast
  show ?thesis unfolding eq by (rule table_update) (rule becomes_acts [OF pf])
qed

lemma upsert_table:
  assumes "ids_ok db" "\<And>a. is_open a \<Longrightarrow> becomes a (touch a)" "\<And>i. row_ok (mk i)"
  shows "table_becomes (st_alerts db) (st_alerts (upsert_alert k touch mk db))"
proof (cases "open_of k (st_alerts db)")
  case None
  then show ?thesis by (simp add: upsert_alert_def add_alert_def table_append assms(3))
next
  case (Some ex)
  note ex = open_of_Some [OF Some]
  have "becomes a (touch a)" if "a \<in> set (st_alerts db)" "by_id (al_id ex) a" for a
  proof -
    have "a = ex" using assms(1) ex that by (auto simp: ids_ok_def distinct_map inj_on_def by_id_def)
    then show ?thesis using assms(2) ex by blast
  qed
  then show ?thesis using Some by (simp add: upsert_alert_def table_update)
qed

lemma resolve_where_table: "table_becomes (st_alerts db) (st_alerts (resolve_where p r now db))"
  unfolding resolve_where_def by (auto intro: table_update becomes_resolve_seen)

lemma resolve_synth_table: "table_becomes (st_alerts db) (st_alerts (resolve_synth now k db))"
  unfolding resolve_synth_def by (rule resolve_where_table)

lemma probe_alerts_table: "ids_ok db \<Longrightarrow> table_becomes (st_alerts db) (st_alerts (probe_alerts now c ok db))"
  unfolding probe_alerts_def write_or_update_alert_def Let_def
  by (simp add: resolve_synth_table upsert_table becomes_refresh synth_alert_ok)

lemma cert_alert_table: "ids_ok db \<Longrightarrow> table_becomes (st_alerts db) (st_alerts (apply_cert_alert now globals c tls db))"
  unfolding apply_cert_alert_def write_or_update_cert_alert_def
  by (simp add: resolve_synth_table upsert_table becomes_cert_touch synth_alert_ok split: option.split prod.split)

lemma apply_probe_table:
  assumes "store_ok now (sy_store db)"
  shows "table_becomes (st_alerts (sy_store db)) (st_alerts (sy_store (apply_probe now globals c pr db)))"
proof -
  let ?st = "probe_alerts now c (pb_ok pr) (sy_store db)"
  have ids: "ids_ok (sy_store db)" "ids_ok ?st" using assms probe_alerts_ok store_okD(1) by blast+
  show ?thesis
    using probe_alerts_table [OF ids(1)] table_trans [OF probe_alerts_table [OF ids(1)] cert_alert_table [OF ids(2)]]
    by (simp add: apply_probe_def Let_def split: option.split)
qed

lemma process_check_cases:
  "fst (process_check now globals edit outcome commits c db) = db\<lparr>sy_checks := edit (sy_checks db)\<rparr> \<or>
   (\<exists>pr. fst (process_check now globals edit outcome commits c db) =
      apply_probe now globals c pr (db\<lparr>sy_checks := edit (sy_checks db)\<rparr>))"
  by (cases outcome) (auto simp: process_check_def Let_def)

lemma probe_table:
  assumes "store_ok now (sy_store db)"
  shows "store_ok now (sy_store (fst (process_check now globals edit outcome commits c db)))"
    and "table_becomes (st_alerts (sy_store db)) (st_alerts (sy_store (fst (process_check now globals edit outcome commits c db))))"
proof -
  let ?db = "db\<lparr>sy_checks := edit (sy_checks db)\<rparr>"
  have "store_ok now (sy_store ?db)" using assms by simp
  note p = apply_probe_ok [OF this, of globals c] apply_probe_table [OF this, of globals c]
  show "store_ok now (sy_store (fst (process_check now globals edit outcome commits c db)))"
    using process_check_cases [of now globals edit outcome commits c db] p(1) assms by auto
  show "table_becomes (st_alerts (sy_store db)) (st_alerts (sy_store (fst (process_check now globals edit outcome commits c db))))"
    using process_check_cases [of now globals edit outcome commits c db] p(2) by auto
qed

lemma delete_table: "table_becomes (st_alerts (sy_store db)) (st_alerts (sy_store (delete_check now who acct i db)))"
  by (auto simp: delete_check_def Let_def intro: table_update becomes_delete)

subsection \<open>And keeps the store well formed\<close>

lemma ids_store:
  assumes "store_ok t db" "t \<le> now" "map al_id as = map al_id (st_alerts db)"
    and "one_open_per_key as"
  shows "store_ok now (db\<lparr>st_alerts := as\<rparr>)"
proof -
  have ids: "al_id a < st_next_id db" if "a \<in> set as" for a
  proof -
    have "al_id a \<in> set (map al_id (st_alerts db))" using that by (simp flip: assms(3))
    then show ?thesis using store_okD(1) [OF assms(1)] by (auto simp: ids_ok_def)
  qed
  have "distinct (map al_id as)" using store_okD(1) [OF assms(1)] assms(3) by (simp add: ids_ok_def)
  moreover have "\<forall>p\<in>set (st_pending db). pending_ok now p"
    using store_okD(3) [OF assms(1)] assms(2) pending_ok_mono by blast
  ultimately show ?thesis using ids assms(4) by (simp add: store_ok_def ids_ok_def)
qed

lemma one_open_map:
  assumes "one_open_per_key as" "\<And>a. alert_ident (f a) = alert_ident a" "\<And>a. is_open (f a) \<Longrightarrow> is_open a"
  shows "one_open_per_key (map f as)"
proof -
  have "map f as = update_where (\<lambda>_. True) f as" by (simp add: update_where_def)
  then show ?thesis
    using one_open_update_where [of f "\<lambda>_. True" as] assms by simp
qed

lemma store_ok_map:
  assumes "store_ok t db" "t \<le> now" "\<And>a. alert_ident (f a) = alert_ident a" "\<And>a. is_open (f a) \<Longrightarrow> is_open a"
  shows "store_ok now (db\<lparr>st_alerts := map f (st_alerts db)\<rparr>)"
proof (rule ids_store [OF assms(1,2)])
  show "map al_id (map f (st_alerts db)) = map al_id (st_alerts db)"
    by (simp add: ident_id [OF assms(3)])
  show "one_open_per_key (map f (st_alerts db))"
    using store_okD(2) [OF assms(1)] assms(3,4) by (rule one_open_map)
qed

lemma perform_store_ok:
  assumes "store_ok t db" "t \<le> now"
  shows "store_ok now (db\<lparr>st_alerts := perform adb u who now x (st_alerts db)\<rparr>)"
proof -
  have "distinct (map al_id (st_alerts db))" using store_okD(1) [OF assms(1)] by (simp add: ids_ok_def)
  from perform_own [OF this, of adb u who now x] obtain p f
    where eq: "perform adb u who now x (st_alerts db) = update_where p f (st_alerts db)"
      and pf: "\<And>a. a \<in> set (st_alerts db) \<Longrightarrow> p a \<Longrightarrow> acts who now a (f a)"
    unfolding own_update_def by blast
  let ?g = "\<lambda>a. if acts who now a (f a) then f a else a"
  have eq': "update_where p f (st_alerts db) = update_where p ?g (st_alerts db)"
    using pf by (simp add: update_where_def)
  have g: "alert_ident (?g a) = alert_ident a" "is_open (?g a) \<Longrightarrow> is_open a" for a
    by (auto simp: acts_def is_open_def split: if_splits)
  have "one_open_per_key (update_where p ?g (st_alerts db))"
    using g store_okD(2) [OF assms(1)] by (intro one_open_update_where) blast+
  moreover have "map al_id (update_where p ?g (st_alerts db)) = map al_id (st_alerts db)"
    using g(1) by (intro map_update_where ident_id)
  ultimately show ?thesis using ids_store [OF assms] eq eq' by simp
qed

lemma delete_store_ok:
  assumes "store_ok now (sy_store db)"
  shows "store_ok now (sy_store (delete_check now who acct i db))"
proof -
  have i: "alert_ident (delete_resolve now who a) = alert_ident a" "\<not> is_open (delete_resolve now who a)" for a
    by (simp_all add: delete_resolve_def alert_ident_def is_open_def)
  have "ids_ok ((sy_store db)\<lparr>st_alerts := update_where p (delete_resolve now who) (st_alerts (sy_store db))\<rparr>)"
      "one_open_per_key (update_where p (delete_resolve now who) (st_alerts (sy_store db)))" for p
    using store_okD(1,2) [OF assms] i by (auto intro!: ids_ok_update one_open_update_where ident_id)
  with assms show ?thesis by (simp add: delete_check_def store_ok_def Let_def)
qed

subsection \<open>The other writers\<close>

text \<open>A change of the store that keeps it well formed and deletes nothing.\<close>

definition kept :: "secs \<Rightarrow> store \<Rightarrow> store \<Rightarrow> bool" where
  "kept now db db' \<longleftrightarrow> store_ok now db' \<and> table_becomes (st_alerts db) (st_alerts db')"

lemma kept_refl: "store_ok now db \<Longrightarrow> kept now db db"
  by (simp add: kept_def)

lemma kept_resolve_where: "kept now db db1 \<Longrightarrow> kept now db (resolve_where p r now db1)"
  unfolding kept_def using resolve_where_ok resolve_where_table table_trans by blast

locale kept_writer = alert_writer +
  assumes touch_becomes: "is_open a \<Longrightarrow> becomes a (touch a)" and made_ok: "row_ok (mk i)"
begin

lemma kept_upsert:
  assumes "kept now db db1"
  shows "kept now db (upsert_alert k touch mk db1)"
proof -
  have ok: "store_ok now db1" and tb: "table_becomes (st_alerts db) (st_alerts db1)"
    using assms by (simp_all add: kept_def)
  have "table_becomes (st_alerts db1) (st_alerts (upsert_alert k touch mk db1))"
    by (rule upsert_table) (simp_all add: store_okD(1) [OF ok] touch_becomes made_ok)
  then show ?thesis using upsert_store_ok [OF ok] table_trans [OF tb] by (simp add: kept_def)
qed

end

interpretation unusual_kept: kept_writer "anomaly_key ar" "anomaly_touch now score" "anomaly_alert now ar rtype envt score"
  for ar :: "nat \<times> string" and now :: secs and score :: rat and rtype :: string and envt :: tier
  by unfold_locales (rule becomes_anomaly_touch, rule anomaly_alert_ok)

text \<open>A cost alert is born silenced by the text of a window, which is not empty.\<close>

definition told :: "string option \<Rightarrow> string option" where
  "told r = (if r = Some [] then None else r)"

interpretation cost_kept: kept_writer "cost_key pk" "cost_touch now usd lims" "cost_alert now pk usd lims (told r)"
  for pk :: nat and now :: secs and usd lims :: rat and r :: "string option"
  by unfold_locales (rule becomes_cost_touch, rule cost_alert_ok, simp add: told_def)

lemma window_silences: "told (dict_get (if readable then active_silenced_map es ws now else []) k) =
    dict_get (if readable then active_silenced_map es ws now else []) k"
  by (auto simp: told_def window_text_def get_silenced_map split: option.splits)

lemma cost_account_kept:
  assumes "kept now db (cw_store w)" "\<And>k. told (silenced k) = silenced k"
  shows "kept now db (cw_store (cost_account base s now today silenced acct w))"
proof -
  obtain pk name d where acct: "acct = (pk, name, d)" by (cases acct)
  have "kept now db (upsert_alert (cost_key pk) (cost_touch now usd lims)
      (cost_alert now pk usd lims (silenced (pk, cost_rid pk))) (cw_store w))" for usd lims
    using cost_kept.kept_upsert [OF assms(1), where pk = pk and usd = usd and lims = lims and r = "silenced (pk, cost_rid pk)"] by (simp add: assms(2))
  then show ?thesis
    using assms(1) kept_resolve_where by (auto simp: acct cost_account_store split: cost_state.split option.split)
qed

lemma cost_kept:
  assumes "store_ok now (cw_store w)" "\<And>k. told (silenced k) = silenced k"
  shows "kept now (cw_store w) (cw_store (cost_pass base s now today silenced loads w))"
proof -
  let ?w = "switch_off base s now (w\<lparr>cw_stats := no_cost_stats, cw_opened := []\<rparr>)"
  have start: "kept now (cw_store w) (cw_store ?w)"
    by (simp add: switch_off_def kept_resolve_where kept_refl assms(1))
  have "kept now (cw_store w) (cw_store v) \<Longrightarrow>
      kept now (cw_store w) (cw_store (fold (cost_account base s now today silenced) accts v))" for accts v
    by (induction accts arbitrary: v) (simp_all add: cost_account_kept [OF _ assms(2)])
  then show ?thesis using start by (simp add: cost_pass_def Let_def)
qed

lemma detect_kept:
  assumes "store_ok (ai_now x) db"
  shows "kept (ai_now x) db (snd (fst (detect_anomalies x (last_run, db))))"
proof -
  have "kept (ai_now x) db (ar_store w)"
    if "scan_candidates cfg dt env_aware resources (ai_now x) session_now hist ars
          \<lparr>ar_store = db, ar_found = [], ar_opened = []\<rparr> = Inr w" for cfg dt env_aware resources session_now hist ars w
    using that by (rule scan_induct) (simp_all add: kept_refl assms unusual_kept.kept_upsert)
  then show ?thesis
    by (auto simp: detect_anomalies_def resolve_cleared_anomalies_def kept_refl assms
        intro: kept_resolve_where split: sum.split)
qed

interpretation watchdog_kept: store_property "kept now db" now for now :: secs and db :: store
proof unfold_locales
  fix d :: store and i r assume "kept now db d"
  then show "kept now db (resolve_where (by_id i) r now d)" by (rule kept_resolve_where)
next
  fix d :: store and k ex sev age thr
  assume d: "kept now db d" and ex: "open_of k (st_alerts d) = Some ex"
  have ok: "store_ok now d" using d by (simp add: kept_def)
  have "a = ex" if "a \<in> set (st_alerts d)" "by_id (al_id ex) a" for a
    using store_okD(1) [OF ok] open_of_Some [OF ex] that by (auto simp: ids_ok_def distinct_map inj_on_def by_id_def)
  then have "table_becomes (st_alerts d) (update_where (by_id (al_id ex)) (wd_touch now sev age thr) (st_alerts d))"
    using open_of_Some [OF ex] by (intro table_update) (auto intro: becomes_wd_touch)
  then show "kept now db (d\<lparr>st_alerts := update_where (by_id (al_id ex)) (wd_touch now sev age thr) (st_alerts d)\<rparr>)"
    using d refresh_store_ok [OF keeps_wd_touch ok] table_trans by (auto simp: kept_def)
qed

subsection \<open>Deleted rows\<close>

lemma store_ok_filter:
  assumes "store_ok now db"
  shows "store_ok now (db\<lparr>st_alerts := filter q (st_alerts db), st_pending := filter r (st_pending db)\<rparr>)"
proof -
  have "open_count k (filter q as) \<le> open_count k as" for k as
    by (induction as) (auto simp: open_count_def)
  then have "one_open_per_key (filter q (st_alerts db))"
    using store_okD(2) [OF assms] order_trans unfolding one_open_per_key_def by blast
  then show ?thesis using assms by (auto simp: store_ok_def ids_ok_def distinct_map_filter)
qed

text \<open>
  Why a row may be gone from the table \<open>bs\<close>: it was resolved more than ninety days ago, or the
  table holds no row of its account any more.
\<close>

definition may_go :: "secs \<Rightarrow> alert list \<Rightarrow> alert \<Rightarrow> bool" where
  "may_go now bs a \<longleftrightarrow> expired_alert now MIN_ALERT_RETENTION_DAYS a \<or>
     (\<exists>i. al_account a = Some i \<and> filter (\<lambda>b. al_account b = Some i) bs = [])"

definition kept_but :: "secs \<Rightarrow> store \<Rightarrow> store \<Rightarrow> bool" where
  "kept_but now db db' \<longleftrightarrow> store_ok now db' \<and>
     (\<exists>D. D \<subseteq> {a. may_go now (st_alerts db') a} \<and> table_becomes (filter (\<lambda>a. a \<notin> D) (st_alerts db)) (st_alerts db'))"

lemma kept_kept_but: "kept now db db' \<Longrightarrow> kept_but now db db'"
  by (auto simp: kept_but_def kept_def intro: exI [of _ "{}"])

lemma prune_kept:
  assumes "store_ok now db"
  shows "kept_but now db (db\<lparr>st_alerts := fst (prune_resolved_alerts osenv now answers rank (st_alerts db))\<rparr>)"
proof (cases "alert_retention_days osenv = 0")
  case True
  then have "prune_resolved_alerts osenv now answers rank (st_alerts db) = (st_alerts db, Some 0)"
    by (simp add: prune_resolved_alerts_def)
  then show ?thesis using kept_kept_but [OF kept_refl [OF assms]] by simp
next
  case False
  let ?days = "alert_retention_days osenv"
  obtain rows res where r: "prune_resolved_alerts osenv now answers rank (st_alerts db) = (rows, res)" by fastforce
  then have d: "delete_in_batches answers (\<lambda>a. rank (al_id a)) (expired_alert now ?days) MAX_BATCHES 0 (st_alerts db) = (rows, res)"
    using False by (simp add: prune_resolved_alerts_def Let_def)
  have "distinct (st_alerts db)" using store_okD(1) [OF assms] by (simp add: ids_ok_def distinct_map)
  from batches_rows(1) [OF this d] obtain D where
    rows: "rows = filter (\<lambda>a. a \<notin> D) (st_alerts db)" and D: "D \<subseteq> {a. expired_alert now ?days a}" by blast
  have "may_go now rows a" if "a \<in> D" for a
  proof -
    have "expired_alert now ?days a" using D that by blast
    then show ?thesis using retention_floor [of osenv] False
      by (auto simp: may_go_def expired_alert_def before_def MIN_ALERT_RETENTION_DAYS_def split: option.splits)
  qed
  moreover have "db\<lparr>st_alerts := rows, st_pending := filter (\<lambda>_. True) (st_pending db)\<rparr> = db\<lparr>st_alerts := rows\<rparr>"
    by (cases db) simp
  then have "store_ok now (db\<lparr>st_alerts := rows\<rparr>)"
    using store_ok_filter [OF assms, where q = "\<lambda>a. a \<notin> D" and r = "\<lambda>_. True"] rows by simp
  ultimately show ?thesis using table_refl rows by (auto simp: kept_but_def r intro!: exI [of _ D])
qed

lemma remove_kept:
  assumes "store_ok now (ad_store db)" "delete_account commits i db = Inr db'"
  shows "kept_but now (ad_store db) (ad_store db')"
proof -
  have st: "ad_store db' = (ad_store db)\<lparr>st_alerts := filter (\<lambda>a. al_account a \<noteq> Some i) (st_alerts (ad_store db)),
      st_pending := filter (\<lambda>p. pd_account p \<noteq> i) (st_pending (ad_store db))\<rparr>"
    using assms(2) by (auto simp: delete_account_def remove_account_rows_def split: if_splits)
  let ?D = "{a. al_account a = Some i}"
  have "?D \<subseteq> {a. may_go now (st_alerts (ad_store db')) a}" by (auto simp: may_go_def st)
  moreover have "table_becomes (filter (\<lambda>a. a \<notin> ?D) (st_alerts (ad_store db))) (st_alerts (ad_store db'))"
    by (simp add: st table_refl)
  moreover have "store_ok now (ad_store db')" unfolding st by (rule store_ok_filter [OF assms(1)])
  ultimately show ?thesis unfolding kept_but_def by blast
qed

subsection \<open>A step\<close>

lemma step_ok:
  assumes "alert_step (t, db) (now, db')" "store_ok t db"
  shows "kept_but now db db' \<and> t \<le> now"
  using assms(1)
proof (cases rule: alert_step.cases)
  case (Evaluate fl bls silenced cf p1 rows)
  have "store_ok now db" using assms(2) Evaluate by (auto intro: store_ok_mono)
  then show ?thesis using Evaluate evaluate_cycle_table
    by (intro conjI kept_kept_but) (simp_all add: kept_def evaluate_cycle_def evaluate_rows_ok)
next
  case (Sweep w)
  have "store_ok now db" using assms(2) Sweep by (auto intro: store_ok_mono)
  then show ?thesis using Sweep sweep_table store_okD(1) by (intro conjI kept_kept_but) (simp_all add: kept_def sweep_store_ok)
next
  case (Maintain es ws)
  have d: "distinct (map al_id (st_alerts db))" using store_okD(1) [OF assms(2)] by (simp add: ids_ok_def)
  have "store_ok now (db\<lparr>st_alerts := map (reconciled (active_silenced_map es ws now)) (st_alerts db)\<rparr>)"
    by (rule store_ok_map [OF assms(2) Maintain(2)]) simp_all
  then show ?thesis using Maintain maintain_table [OF d] by (intro conjI kept_kept_but) (simp_all add: kept_def sync_alerts [OF d])
next
  case (Escalate fl edb)
  have "store_ok now (db\<lparr>st_alerts := fst (evaluate_escalations fl edb now (st_alerts db))\<rparr>)"
    unfolding evaluate_escalations_alerts using assms(2) Escalate
    by (intro store_ok_map) (auto split: if_splits option.splits)
  then show ?thesis using Escalate escalate_table by (intro conjI kept_kept_but) (simp_all add: kept_def)
next
  case (Act adb u who x)
  have d: "distinct (map al_id (st_alerts db))" using store_okD(1) [OF assms(2)] by (simp add: ids_ok_def)
  show ?thesis using Act perform_table [OF d] perform_store_ok [OF assms(2)]
    by (intro conjI kept_kept_but) (simp_all add: kept_def)
next
  case (Probe sdb globals edit outcome commits c)
  have "store_ok now (sy_store sdb)" using assms(2) Probe by (auto intro: store_ok_mono)
  note p = probe_table [OF this]
  show ?thesis using Probe p by (intro conjI kept_kept_but) (simp_all add: kept_def)
next
  case (Delete_Check sdb who acct i)
  have "store_ok now (sy_store sdb)" using assms(2) Delete_Check by (auto intro: store_ok_mono)
  then show ?thesis using Delete_Check delete_table delete_store_ok
    by (intro conjI kept_kept_but) (auto simp: kept_def)
next
  case (Watch w osenv metrics silenced accounts hosts)
  have "store_ok now (ww_store w)" using assms(2) Watch by (auto intro: store_ok_mono)
  from watchdog_kept.run_watchdog_keeps [OF kept_refl [OF this] classifier_imports] show ?thesis
    using Watch by (simp add: kept_kept_but)
next
  case (Cost cw base s today readable es ws loads)
  have "store_ok now (cw_store cw)" using assms(2) Cost by (auto intro: store_ok_mono)
  from cost_kept [OF this window_silences] show ?thesis using Cost by (simp add: kept_kept_but)
next
  case (Detect x last_run)
  have "store_ok (ai_now x) db" using assms(2) Detect by (auto intro: store_ok_mono)
  from detect_kept [OF this] show ?thesis using Detect by (simp add: kept_kept_but)
next
  case (Prune osenv answers rank)
  have "store_ok now db" using assms(2) Prune by (auto intro: store_ok_mono)
  from prune_kept [OF this] show ?thesis using Prune by simp
next
  case (Remove_Account adb commits i adb')
  have "store_ok now (ad_store adb)" using assms(2) Remove_Account by (auto intro: store_ok_mono)
  from remove_kept [OF this] show ?thesis using Remove_Account by blast
qed

lemma run_ok:
  assumes "alert_run s"
  shows "store_ok (fst s) (snd s) \<and> (\<forall>a\<in>set (st_alerts (snd s)). row_ok a)"
  using assms
proof (induction rule: alert_run.induct)
  case (Start t)
  then show ?case by (simp add: store_ok_def ids_ok_def empty_store_def one_open_per_key_def)
next
  case (Step s s')
  obtain t db now db' where s: "s = (t, db)" "s' = (now, db')" by (metis surj_pair)
  from step_ok [of t db now db'] Step s have k: "kept_but now db db'" by simp
  then obtain D where "table_becomes (filter (\<lambda>a. a \<notin> D) (st_alerts db)) (st_alerts db')"
    by (auto simp: kept_but_def)
  from table_row_ok [OF this] Step s show ?case using k by (simp add: kept_but_def)
qed

end
