(* ===== verification/Rate_Limit.thy ===== *)
theory Rate_Limit
  imports Prelude
begin

text \<open>
  \<open>app/auth/rate_limit.py\<close>: fixed-window limits kept in Redis, and the login limiter built on
  them. The Redis store is a dictionary of counters and flags with an expiry time each; what may
  fail in a call (no Redis, a failing \<open>INCR\<close>, a failure after the \<open>INCR\<close>) is an argument.
\<close>

subsection \<open>Redis\<close>

type_synonym redis = "(string, nat \<times> secs option) dict"

text \<open>A key whose expiry has passed is gone.\<close>

definition r_get :: "redis \<Rightarrow> secs \<Rightarrow> string \<Rightarrow> (nat \<times> secs option) option" where
  "r_get r now k =
     (case dict_get r k of
        None \<Rightarrow> None
      | Some (v, e) \<Rightarrow> (case e of None \<Rightarrow> Some (v, e) | Some t \<Rightarrow> if now < t then Some (v, e) else None))"

definition r_incr :: "redis \<Rightarrow> secs \<Rightarrow> string \<Rightarrow> redis \<times> nat" where
  "r_incr r now k =
     (case r_get r now k of
        None \<Rightarrow> (dict_set r k (1, None), 1)
      | Some (v, e) \<Rightarrow> (dict_set r k (v + 1, e), v + 1))"

definition r_expire :: "redis \<Rightarrow> secs \<Rightarrow> string \<Rightarrow> secs \<Rightarrow> redis" where
  "r_expire r now k window =
     (case r_get r now k of None \<Rightarrow> r | Some (v, e) \<Rightarrow> dict_set r k (v, Some (now + window)))"

text \<open>\<open>TTL\<close>: -1 for a key without expiry, -2 for no key.\<close>

definition r_ttl :: "redis \<Rightarrow> secs \<Rightarrow> string \<Rightarrow> int" where
  "r_ttl r now k =
     (case r_get r now k of None \<Rightarrow> -2 | Some (v, None) \<Rightarrow> -1 | Some (v, Some t) \<Rightarrow> t - now)"

definition r_set_ex :: "redis \<Rightarrow> secs \<Rightarrow> string \<Rightarrow> nat \<Rightarrow> secs \<Rightarrow> redis" where
  "r_set_ex r now k v ex = dict_set r k (v, Some (now + ex))"

subsection \<open>One check\<close>

datatype redis_fault = NoFault | NoRedis | IncrFails | AfterIncrFails

datatype outcome = Allowed | TooMany int

definition rate_key :: "string \<Rightarrow> string" where
  "rate_key key = ''ratelimit:'' @ key"

definition check_rate_limit ::
  "redis_fault \<Rightarrow> secs \<Rightarrow> string \<Rightarrow> int \<Rightarrow> int \<Rightarrow> redis \<Rightarrow> redis \<times> outcome" where
  "check_rate_limit fault now key max_attempts window r =
     (if fault = NoRedis \<or> fault = IncrFails then (r, Allowed)
      else
        (let k = rate_key key;
             (r1, count) = r_incr r now k
         in if fault = AfterIncrFails then (r1, Allowed)
            else
              (let ttl0 = r_ttl r1 now k;
                   fresh = count = 1 \<or> ttl0 = -1;
                   r2 = (if fresh then r_expire r1 now k window else r1);
                   ttl = (if fresh then window else ttl0)
               in (r2, if int count > max_attempts then TooMany (if ttl > 0 then ttl else window)
                       else Allowed))))"

subsection \<open>The login limiter\<close>

record limits =
  lm_ip_max :: int
  lm_ip_window :: int
  lm_user_max :: int
  lm_user_window :: int
  lm_known_days :: int

definition client_ip :: "string option \<Rightarrow> string" where
  "client_ip host = (case host of Some h \<Rightarrow> h | None \<Rightarrow> ''unknown'')"

definition known_ip_key :: "string \<Rightarrow> string \<Rightarrow> string" where
  "known_ip_key uname ip = ''login:known:'' @ uname @ '':'' @ ip"

definition is_known_login_ip :: "redis_fault \<Rightarrow> secs \<Rightarrow> string \<Rightarrow> string \<Rightarrow> redis \<Rightarrow> bool" where
  "is_known_login_ip fault now uname ip r =
     (if fault = NoFault then r_get r now (known_ip_key uname ip) \<noteq> None else False)"

definition ip_bucket :: "string \<Rightarrow> string" where
  "ip_bucket ip = ''login:ip:'' @ ip"

definition userip_bucket :: "string \<Rightarrow> string \<Rightarrow> string" where
  "userip_bucket uname ip = ''login:userip:'' @ uname @ '':'' @ ip"

definition user_bucket :: "string \<Rightarrow> string" where
  "user_bucket uname = ''login:user:'' @ uname"

definition norm_user :: "string \<Rightarrow> string" where
  "norm_user username = strip (lower username)"

text \<open>\<open>enforce_login_rate_limit\<close>: the second limit is only reached when the first one passes.\<close>

definition enforce_login_rate_limit ::
  "limits \<Rightarrow> redis_fault \<Rightarrow> secs \<Rightarrow> string option \<Rightarrow> string \<Rightarrow> redis \<Rightarrow> redis \<times> outcome" where
  "enforce_login_rate_limit lm fault now host username r =
     (let ip = client_ip host;
          (r1, o1) = check_rate_limit fault now (ip_bucket ip) (lm_ip_max lm) (lm_ip_window lm) r
      in if o1 \<noteq> Allowed then (r1, o1)
         else if username = [] then (r1, Allowed)
         else
           (let uname = norm_user username in
            if is_known_login_ip fault now uname ip r1
            then check_rate_limit fault now (userip_bucket uname ip) (lm_user_max lm) (lm_user_window lm) r1
            else check_rate_limit fault now (user_bucket uname) (lm_user_max lm) (lm_user_window lm) r1))"

definition record_login_success ::
  "limits \<Rightarrow> redis_fault \<Rightarrow> secs \<Rightarrow> string option \<Rightarrow> string \<Rightarrow> redis \<Rightarrow> redis" where
  "record_login_success lm fault now host username r =
     (if fault \<noteq> NoFault \<or> username = [] then r
      else (let uname = norm_user username in
            dict_del (r_set_ex r now (known_ip_key uname (client_ip host)) 1 (lm_known_days lm * 86400))
              (rate_key (user_bucket uname))))"

text \<open>The other endpoints: one bucket each.\<close>

definition enforce_change_password_rate_limit ::
  "redis_fault \<Rightarrow> secs \<Rightarrow> int \<Rightarrow> int \<Rightarrow> string \<Rightarrow> redis \<Rightarrow> redis \<times> outcome" where
  "enforce_change_password_rate_limit fault now max_attempts window user_id r =
     check_rate_limit fault now (''change-password:user:'' @ user_id) max_attempts window r"

definition enforce_forgot_password_rate_limit ::
  "redis_fault \<Rightarrow> secs \<Rightarrow> int \<Rightarrow> int \<Rightarrow> string option \<Rightarrow> redis \<Rightarrow> redis \<times> outcome" where
  "enforce_forgot_password_rate_limit fault now max_attempts window host r =
     check_rate_limit fault now (''forgot-password:ip:'' @ client_ip host) max_attempts window r"

definition enforce_reset_password_rate_limit ::
  "redis_fault \<Rightarrow> secs \<Rightarrow> int \<Rightarrow> int \<Rightarrow> string option \<Rightarrow> redis \<Rightarrow> redis \<times> outcome" where
  "enforce_reset_password_rate_limit fault now max_attempts window host r =
     check_rate_limit fault now (''reset-password:ip:'' @ client_ip host) max_attempts window r"

definition enforce_sso_rate_limit ::
  "redis_fault \<Rightarrow> secs \<Rightarrow> int \<Rightarrow> int \<Rightarrow> string option \<Rightarrow> redis \<Rightarrow> redis \<times> outcome" where
  "enforce_sso_rate_limit fault now max_attempts window host r =
     check_rate_limit fault now (''sso:ip:'' @ client_ip host) max_attempts window r"

subsection \<open>What one check does\<close>

lemma r_get_set: "r_get (dict_set r k (v, e)) now k' =
    (if k' = k then (case e of None \<Rightarrow> Some (v, e) | Some t \<Rightarrow> if now < t then Some (v, e) else None)
     else r_get r now k')"
  by (simp add: r_get_def)

lemma r_get_del: "r_get (dict_del r k) now k' = (if k' = k then None else r_get r now k')"
  by (simp add: r_get_def)

lemma check_frame:
  assumes "k \<noteq> rate_key key"
  shows "r_get (fst (check_rate_limit fault now key m win r)) t k = r_get r t k"
  using assms
  by (auto simp: check_rate_limit_def Let_def r_incr_def r_expire_def r_get_set split: option.splits prod.splits)

text \<open>A check without faults leaves a counter that will expire.\<close>

lemma check_count:
  assumes "0 < win"
  shows "\<exists>e. r_get (fst (check_rate_limit NoFault now key m win r)) now (rate_key key) =
      Some (Suc (case r_get r now (rate_key key) of None \<Rightarrow> 0 | Some (n, _) \<Rightarrow> n), Some e) \<and> now < e \<and>
      (case r_get r now (rate_key key) of Some (Suc n, Some e') \<Rightarrow> e = e' | _ \<Rightarrow> e = now + win)"
proof (cases "r_get r now (rate_key key)")
  case None
  then show ?thesis using assms
    by (simp add: check_rate_limit_def r_incr_def r_expire_def r_get_set Let_def)
next
  case (Some ve)
  obtain v e where ve: "ve = (v, e)" by (cases ve)
  show ?thesis
  proof (cases e)
    case None
    then show ?thesis using assms Some ve
      by (simp add: check_rate_limit_def r_incr_def r_expire_def r_get_set r_ttl_def Let_def split: nat.split)
  next
    case (Some t)
    then have "now < t" using \<open>r_get r now (rate_key key) = Some ve\<close> ve
      by (auto simp: r_get_def split: option.splits if_splits)
    then show ?thesis using assms Some ve \<open>r_get r now (rate_key key) = Some ve\<close>
      by (simp add: check_rate_limit_def r_incr_def r_expire_def r_get_set r_ttl_def Let_def split: nat.split)
  qed
qed

lemma check_outcome:
  "snd (check_rate_limit NoFault now key m win r) = Allowed \<longleftrightarrow>
     int (Suc (case r_get r now (rate_key key) of None \<Rightarrow> 0 | Some (n, _) \<Rightarrow> n)) \<le> m"
  by (auto simp: check_rate_limit_def r_incr_def Let_def split: option.splits prod.splits)

text \<open>Attempts on one key, one after the other.\<close>

fun attempts :: "string \<Rightarrow> int \<Rightarrow> int \<Rightarrow> secs list \<Rightarrow> redis \<Rightarrow> redis \<times> outcome list" where
  "attempts key m win [] r = (r, [])"
| "attempts key m win (t # ts) r =
     (let (r1, out) = check_rate_limit NoFault t key m win r;
          (r2, outs) = attempts key m win ts r1
      in (r2, out # outs))"

definition n_allowed :: "outcome list \<Rightarrow> nat" where
  "n_allowed outs = length (filter (\<lambda>x. x = Allowed) outs)"

lemma attempts_counted:
  assumes "0 < win" and "\<forall>t\<in>set ts. t < e"
    and "dict_get r (rate_key key) = Some (Suc n, Some e)"
  shows "int (n_allowed (snd (attempts key m win ts r))) = min (int (length ts)) (max 0 (m - int (Suc n)))"
  using assms(2,3)
proof (induction ts arbitrary: r n)
  case (Cons t ts)
  have live: "r_get r t (rate_key key) = Some (Suc n, Some e)"
    using Cons.prems by (simp add: r_get_def)
  obtain r1 out where c: "check_rate_limit NoFault t key m win r = (r1, out)"
    by (cases "check_rate_limit NoFault t key m win r")
  have r1: "dict_get r1 (rate_key key) = Some (Suc (Suc n), Some e)"
  proof -
    have "r_get r1 t (rate_key key) = Some (Suc (Suc n), Some e)"
      using check_count [OF assms(1), of t key m r] live c by auto
    then show ?thesis by (auto simp: r_get_def split: option.splits if_splits)
  qed
  have out: "out = Allowed \<longleftrightarrow> int (Suc (Suc n)) \<le> m"
    using check_outcome [of t key m win r] live c by simp
  obtain r2 outs where a: "attempts key m win ts r1 = (r2, outs)" by (cases "attempts key m win ts r1")
  have "int (n_allowed outs) = min (int (length ts)) (max 0 (m - int (Suc (Suc n))))"
    using Cons.IH [of r1 "Suc n"] Cons.prems r1 a by simp
  then show ?case using out a c by (auto simp: n_allowed_def)
qed (simp add: n_allowed_def)

subsection \<open>Buckets are apart\<close>

lemma login_buckets_apart [simp]:
  "user_bucket u \<noteq> ip_bucket i" "ip_bucket i \<noteq> user_bucket u"
  "userip_bucket v i \<noteq> user_bucket u" "user_bucket u \<noteq> userip_bucket v i"
  "userip_bucket v i \<noteq> ip_bucket j" "ip_bucket j \<noteq> userip_bucket v i"
  by (simp_all add: user_bucket_def ip_bucket_def userip_bucket_def)

lemma known_key_apart [simp]: "known_ip_key u i \<noteq> rate_key k" "rate_key k \<noteq> known_ip_key u i"
  by (simp_all add: known_ip_key_def rate_key_def)

lemma rate_key_inj [simp]: "rate_key a = rate_key b \<longleftrightarrow> a = b"
  by (simp add: rate_key_def)

lemma ip_bucket_inj [simp]: "ip_bucket i = ip_bucket j \<longleftrightarrow> i = j"
  by (simp add: ip_bucket_def)

lemma suffix_after_colon:
  assumes "a @ CHR 0x3A # xs = b @ CHR 0x3A # ys" "CHR 0x3A \<notin> set xs" "CHR 0x3A \<notin> set ys"
  shows "a = b \<and> xs = ys"
  using assms
proof (induction a arbitrary: b)
  case Nil
  then show ?case by (cases b) auto
next
  case (Cons x a)
  then show ?case by (cases b) auto
qed

lemma userip_bucket_inj:
  "CHR 0x3A \<notin> set i \<Longrightarrow> CHR 0x3A \<notin> set j \<Longrightarrow> userip_bucket u i = userip_bucket v j \<longleftrightarrow> u = v \<and> i = j"
  using suffix_after_colon [of u i v j] by (auto simp: userip_bucket_def)

text \<open>An attempt from another address leaves a known user's own buckets and the known pair alone.\<close>

lemma login_frame:
  assumes "client_ip host \<noteq> ip" "CHR 0x3A \<notin> set ip" "CHR 0x3A \<notin> set (client_ip host)"
    and "k = rate_key (ip_bucket ip) \<or> k = rate_key (userip_bucket u ip) \<or> k = known_ip_key u ip"
  shows "r_get (fst (enforce_login_rate_limit lm fault now host username r)) t k = r_get r t k"
proof -
  let ?ip = "client_ip host"
  have ne: "k \<noteq> rate_key (ip_bucket ?ip)" "\<And>v. k \<noteq> rate_key (user_bucket v)"
    "\<And>v. k \<noteq> rate_key (userip_bucket v ?ip)"
    using assms userip_bucket_inj [OF assms(3,2)] by auto
  obtain r1 o1 where c: "check_rate_limit fault now (ip_bucket ?ip) (lm_ip_max lm) (lm_ip_window lm) r = (r1, o1)"
    by (cases "check_rate_limit fault now (ip_bucket ?ip) (lm_ip_max lm) (lm_ip_window lm) r")
  have r1: "r_get r1 t k = r_get r t k"
    using check_frame [OF ne(1), of fault now "lm_ip_max lm" "lm_ip_window lm" r t] c by simp
  show ?thesis
    using r1 check_frame [OF ne(2)] check_frame [OF ne(3)]
    by (simp add: enforce_login_rate_limit_def c Let_def)
qed

text \<open>A key that is fresh (or whose expiry has passed) starts a new window.\<close>

lemma attempts_fresh:
  assumes "0 < win" and "r_get r t0 (rate_key key) = None" and "\<forall>t\<in>set ts. t < t0 + win"
  shows "int (n_allowed (snd (attempts key m win (t0 # ts) r))) = min (int (length (t0 # ts))) (max 0 m)"
proof -
  obtain r1 out where c: "check_rate_limit NoFault t0 key m win r = (r1, out)"
    by (cases "check_rate_limit NoFault t0 key m win r")
  have "r_get r1 t0 (rate_key key) = Some (Suc 0, Some (t0 + win))"
    using check_count [OF assms(1), of t0 key m r] assms(2) c by auto
  then have r1: "dict_get r1 (rate_key key) = Some (Suc 0, Some (t0 + win))"
    by (auto simp: r_get_def split: option.splits if_splits)
  have out: "out = Allowed \<longleftrightarrow> 1 \<le> m"
    using check_outcome [of t0 key m win r] assms(2) c by simp
  obtain r2 outs where a: "attempts key m win ts r1 = (r2, outs)" by (cases "attempts key m win ts r1")
  have "int (n_allowed outs) = min (int (length ts)) (max 0 (m - 1))"
    using attempts_counted [OF assms(1,3) r1, of m] a by simp
  then show ?thesis using out a c by (auto simp: n_allowed_def)
qed

lemma login_frames:
  assumes "list_all (\<lambda>(fault, now, host, name). client_ip host \<noteq> ip \<and> CHR 0x3A \<notin> set (client_ip host)) tries"
    and "CHR 0x3A \<notin> set ip"
    and "k = rate_key (ip_bucket ip) \<or> k = rate_key (userip_bucket u ip) \<or> k = known_ip_key u ip"
  shows "r_get (fold (\<lambda>(fault, now, host, name) r. fst (enforce_login_rate_limit lm fault now host name r)) tries r) t k =
    r_get r t k"
  using assms(1)
proof (induction tries arbitrary: r)
  case (Cons x tries)
  obtain fault now host name where x: "x = (fault, now, host, name)" by (cases x)
  from Cons.prems x have h: "client_ip host \<noteq> ip" "CHR 0x3A \<notin> set (client_ip host)" by auto
  show ?case using Cons login_frame [OF h(1) assms(2) h(2) assms(3)] x by simp
qed simp

end
