(* ===== verification/Leader.thy ===== *)
theory Leader
  imports Prelude
begin

text \<open>
  \<open>app/collector/leader.py\<close>: leader election over a MySQL named lock. A process polls; when it
  gets the lock it starts the collector threads, which run while their leadership event is set.
  The world is the lock on the server, the sessions the server has dropped, and the variables of
  the polling thread of every process; a step is one iteration of some process's loop, the
  server dropping a session, or a process dying. What may fail in an iteration is part of the
  step: getting a connection, the query, \<open>start_fn\<close>, and the release of the lock on \<open>close()\<close>.
\<close>

subsection \<open>State\<close>

record leader_proc =
  lp_conn :: "nat option"
  lp_started :: bool
  lp_event :: "nat option"
  lp_my_id :: "nat option"

definition idle_proc :: leader_proc where
  "idle_proc = \<lparr>lp_conn = None, lp_started = False, lp_event = None, lp_my_id = None\<rparr>"

text \<open>
  \<open>lw_holder\<close> is the session that holds the lock; \<open>lw_events\<close> are the leadership events that
  are set, each with the process that created it.
\<close>

record leader_world =
  lw_holder :: "nat option"
  lw_dropped :: "nat list"
  lw_procs :: "nat \<Rightarrow> leader_proc"
  lw_events :: "(nat \<times> nat) list"
  lw_next_event :: nat

definition initial_world :: leader_world where
  "initial_world = \<lparr>lw_holder = None, lw_dropped = [], lw_procs = (\<lambda>_. idle_proc), lw_events = [],
     lw_next_event = 0\<rparr>"

record poll_outcome =
  po_conn :: "nat option"
  po_query :: bool
  po_start :: bool
  po_release :: bool

subsection \<open>The lock\<close>

definition query_answers :: "poll_outcome \<Rightarrow> nat \<Rightarrow> leader_world \<Rightarrow> bool" where
  "query_answers f c w \<longleftrightarrow> po_query f \<and> c \<notin> set (lw_dropped w)"

text \<open>\<open>GET_LOCK(name, 0)\<close> answers 1 when the lock is free or already held by this session.\<close>

definition try_acquire :: "nat \<Rightarrow> leader_world \<Rightarrow> bool" where
  "try_acquire c w \<longleftrightarrow> lw_holder w = None \<or> lw_holder w = Some c"

definition lock_holder :: "leader_world \<Rightarrow> nat option" where
  "lock_holder w = lw_holder w"

subsection \<open>One iteration\<close>

definition clear_event :: "leader_proc \<Rightarrow> leader_world \<Rightarrow> leader_world" where
  "clear_event pr w =
     (case lp_event pr of None \<Rightarrow> w
      | Some g \<Rightarrow> w\<lparr>lw_events := filter (\<lambda>e. fst e \<noteq> g) (lw_events w)\<rparr>)"

text \<open>\<open>conn.close()\<close> resets the pooled session, which releases its locks.\<close>

definition close_conn :: "poll_outcome \<Rightarrow> nat option \<Rightarrow> leader_world \<Rightarrow> leader_world" where
  "close_conn f conn w =
     (if conn \<noteq> None \<and> lw_holder w = conn \<and> po_release f then w\<lparr>lw_holder := None\<rparr> else w)"

definition on_error :: "nat \<Rightarrow> poll_outcome \<Rightarrow> leader_world \<Rightarrow> leader_world" where
  "on_error p f w =
     (let pr = lw_procs w p;
          w1 = close_conn f (lp_conn pr) (clear_event pr w)
      in w1\<lparr>lw_procs := (lw_procs w1)(p := idle_proc)\<rparr>)"

definition become_leader :: "nat \<Rightarrow> nat \<Rightarrow> leader_world \<Rightarrow> leader_world" where
  "become_leader p c w =
     w\<lparr>lw_holder := Some c,
       lw_procs := (lw_procs w)(p := \<lparr>lp_conn = Some c, lp_started = True,
                                     lp_event = Some (lw_next_event w), lp_my_id = Some c\<rparr>),
       lw_events := (lw_next_event w, p) # lw_events w,
       lw_next_event := lw_next_event w + 1\<rparr>"

definition set_conn :: "nat \<Rightarrow> nat \<Rightarrow> leader_world \<Rightarrow> leader_world" where
  "set_conn p c w = w\<lparr>lw_procs := (lw_procs w)(p := (lw_procs w p)\<lparr>lp_conn := Some c\<rparr>)\<rparr>"

definition poll :: "nat \<Rightarrow> poll_outcome \<Rightarrow> leader_world \<Rightarrow> leader_world" where
  "poll p f w =
     (case (case lp_conn (lw_procs w p) of Some c \<Rightarrow> Some c | None \<Rightarrow> po_conn f) of
        None \<Rightarrow> on_error p f w
      | Some c \<Rightarrow>
          (let w1 = set_conn p c w in
           if \<not> query_answers f c w1 then on_error p f w1
           else if \<not> lp_started (lw_procs w1 p) then
             (if try_acquire c w1 then
                (let w2 = become_leader p c w1 in if po_start f then w2 else on_error p f w2)
              else w1)
           else if lock_holder w1 \<noteq> lp_my_id (lw_procs w1 p) then on_error p f w1
           else w1))"

definition drop_session :: "nat \<Rightarrow> leader_world \<Rightarrow> leader_world" where
  "drop_session c w =
     w\<lparr>lw_holder := (if lw_holder w = Some c then None else lw_holder w), lw_dropped := c # lw_dropped w\<rparr>"

text \<open>A dying process takes its threads and its sessions with it.\<close>

definition crash :: "(nat \<Rightarrow> nat) \<Rightarrow> nat \<Rightarrow> leader_world \<Rightarrow> leader_world" where
  "crash owner p w =
     w\<lparr>lw_holder := (case lw_holder w of Some c \<Rightarrow> if owner c = p then None else Some c | None \<Rightarrow> None),
       lw_procs := (lw_procs w)(p := idle_proc),
       lw_events := filter (\<lambda>e. snd e \<noteq> p) (lw_events w)\<rparr>"

subsection \<open>Runs\<close>

text \<open>\<open>owner\<close> tells which process opened a server session.\<close>

inductive leader_step :: "(nat \<Rightarrow> nat) \<Rightarrow> leader_world \<Rightarrow> leader_world \<Rightarrow> bool" for owner where
  Poll: "(\<And>c. po_conn f = Some c \<Longrightarrow> owner c = p) \<Longrightarrow> leader_step owner w (poll p f w)"
| Drop: "leader_step owner w (drop_session c w)"
| Crash: "leader_step owner w (crash owner p w)"

inductive leader_run :: "(nat \<Rightarrow> nat) \<Rightarrow> leader_world \<Rightarrow> bool" for owner where
  Start: "leader_run owner initial_world"
| Step: "leader_run owner w \<Longrightarrow> leader_step owner w w' \<Longrightarrow> leader_run owner w'"

inductive_cases leader_stepE: "leader_step owner w w'"

subsection \<open>Invariant\<close>

text \<open>
  A process that believes it leads has a set event, and it is the only set event it owns; a
  process that does not, owns none. Sessions belong to the processes that use them.
\<close>

definition proc_ok :: "(nat \<Rightarrow> nat) \<Rightarrow> leader_world \<Rightarrow> nat \<Rightarrow> bool" where
  "proc_ok owner w p \<longleftrightarrow>
     (let pr = lw_procs w p in
      (case lp_conn pr of None \<Rightarrow> True | Some c \<Rightarrow> owner c = p) \<and>
      (if lp_started pr
       then lp_conn pr \<noteq> None \<and> lp_my_id pr = lp_conn pr \<and>
            (\<exists>g. lp_event pr = Some g \<and> filter (\<lambda>e. snd e = p) (lw_events w) = [(g, p)])
       else lp_event pr = None \<and> filter (\<lambda>e. snd e = p) (lw_events w) = []))"

definition leader_inv :: "(nat \<Rightarrow> nat) \<Rightarrow> leader_world \<Rightarrow> bool" where
  "leader_inv owner w \<longleftrightarrow>
     (\<forall>p. proc_ok owner w p) \<and> (\<forall>e\<in>set (lw_events w). fst e < lw_next_event w) \<and>
     distinct (map fst (lw_events w))"

lemma leader_invD:
  assumes "leader_inv owner w"
  shows "proc_ok owner w p" "\<And>e. e \<in> set (lw_events w) \<Longrightarrow> fst e < lw_next_event w"
    "distinct (map fst (lw_events w))"
  using assms by (auto simp: leader_inv_def)

lemma inv_initial: "leader_inv owner initial_world"
  by (simp add: leader_inv_def proc_ok_def initial_world_def idle_proc_def)

definition own_events :: "leader_world \<Rightarrow> nat \<Rightarrow> (nat \<times> nat) list" where
  "own_events w p = filter (\<lambda>e. snd e = p) (lw_events w)"

lemma proc_ok_frame:
  assumes "proc_ok owner w q" "lw_procs w' q = lw_procs w q" "own_events w' q = own_events w q"
  shows "proc_ok owner w' q"
  using assms by (simp add: proc_ok_def own_events_def Let_def)

lemma own_events_clear:
  assumes inv: "leader_inv owner w"
  shows "own_events (clear_event (lw_procs w p) w) q = (if q = p then [] else own_events w q)"
proof (cases "lp_event (lw_procs w p)")
  case None
  then show ?thesis using leader_invD(1) [OF inv, of p]
    by (auto simp: clear_event_def proc_ok_def Let_def own_events_def split: if_splits)
next
  case (Some g)
  then have p: "own_events w p = [(g, p)]" using leader_invD(1) [OF inv, of p]
    by (auto simp: proc_ok_def Let_def own_events_def split: if_splits)
  then have gp: "(g, p) \<in> set (lw_events w)"
    using list.set_intros(1) [of "(g, p)" "[]"] by (metis filter_is_subset own_events_def subsetD)
  have only: "e = (g, p)" if "e \<in> set (lw_events w)" "fst e = g" for e
    using leader_invD(3) [OF inv] gp that by (auto simp: distinct_map inj_on_def)
  have "own_events (clear_event (lw_procs w p) w) q = filter (\<lambda>e. fst e \<noteq> g) (own_events w q)"
    by (simp add: clear_event_def Some own_events_def conj_commute)
  moreover have "filter (\<lambda>e. fst e \<noteq> g) (own_events w q) = own_events w q" if "q \<noteq> p"
  proof (rule filter_True)
    show "\<forall>e\<in>set (own_events w q). fst e \<noteq> g"
      using only that by (auto simp: own_events_def)
  qed
  ultimately show ?thesis using p by auto
qed

lemma clear_close_simps [simp]:
  "lw_procs (clear_event pr w) = lw_procs w" "lw_next_event (clear_event pr w) = lw_next_event w"
  "lw_holder (clear_event pr w) = lw_holder w" "lw_dropped (clear_event pr w) = lw_dropped w"
  "lw_procs (close_conn f c w) = lw_procs w" "lw_events (close_conn f c w) = lw_events w"
  "lw_next_event (close_conn f c w) = lw_next_event w" "lw_dropped (close_conn f c w) = lw_dropped w"
  by (simp_all add: clear_event_def close_conn_def split: option.split)

lemma lw_events_clear: "set (lw_events (clear_event pr w)) \<subseteq> set (lw_events w)"
  and distinct_clear: "distinct (map fst (lw_events w)) \<Longrightarrow> distinct (map fst (lw_events (clear_event pr w)))"
  by (auto simp: clear_event_def distinct_map inj_on_def split: option.split)

lemma on_error_simps:
  "lw_procs (on_error p f w) = (lw_procs w)(p := idle_proc)"
  "lw_events (on_error p f w) = lw_events (clear_event (lw_procs w p) w)"
  "lw_next_event (on_error p f w) = lw_next_event w"
  by (simp_all add: on_error_def Let_def)

lemma inv_on_error:
  assumes inv: "leader_inv owner w"
  shows "leader_inv owner (on_error p f w)"
proof -
  have own: "own_events (on_error p f w) q = (if q = p then [] else own_events w q)" for q
    using own_events_clear [OF inv, of p q] by (simp add: own_events_def on_error_simps)
  have "proc_ok owner (on_error p f w) q" for q
  proof (cases "q = p")
    case True
    then show ?thesis using own [of p]
      by (simp add: proc_ok_def on_error_simps idle_proc_def own_events_def)
  next
    case False
    then show ?thesis
      using own [of q] by (intro proc_ok_frame [OF leader_invD(1) [OF inv]]) (simp_all add: on_error_simps)
  qed
  moreover have "\<forall>e\<in>set (lw_events (on_error p f w)). fst e < lw_next_event (on_error p f w)"
    using leader_invD(2) [OF inv] lw_events_clear [of "lw_procs w p" w] by (auto simp: on_error_simps)
  ultimately show ?thesis
    using distinct_clear [OF leader_invD(3) [OF inv]] by (simp add: leader_inv_def on_error_simps)
qed

lemma inv_set_conn:
  assumes inv: "leader_inv owner w" and "owner c = p"
    and "lp_conn (lw_procs w p) = None \<or> lp_conn (lw_procs w p) = Some c"
  shows "leader_inv owner (set_conn p c w)"
proof -
  have "proc_ok owner (set_conn p c w) q" for q
    using leader_invD(1) [OF inv, of q] assms(2,3)
    by (cases "q = p") (auto simp: proc_ok_def set_conn_def Let_def split: if_splits)
  then show ?thesis using inv by (simp add: leader_inv_def set_conn_def)
qed

lemma inv_become_leader:
  assumes inv: "leader_inv owner w" and c: "owner c = p" and ns: "\<not> lp_started (lw_procs w p)"
  shows "leader_inv owner (become_leader p c w)"
proof -
  have "proc_ok owner (become_leader p c w) q" for q
    using leader_invD(1) [OF inv, of q] c ns
    by (cases "q = p") (auto simp: proc_ok_def become_leader_def Let_def split: if_splits)
  moreover have "distinct (map fst (lw_events (become_leader p c w)))"
    using leader_invD(2) [OF inv] leader_invD(3) [OF inv] by (fastforce simp: become_leader_def)
  ultimately show ?thesis
    using leader_invD(2) [OF inv] by (auto simp: leader_inv_def become_leader_def intro: less_SucI)
qed

text \<open>The session an iteration works on.\<close>

definition poll_conn :: "nat \<Rightarrow> poll_outcome \<Rightarrow> leader_world \<Rightarrow> nat option" where
  "poll_conn p f w = (case lp_conn (lw_procs w p) of Some c \<Rightarrow> Some c | None \<Rightarrow> po_conn f)"

text \<open>The five ways an iteration can go.\<close>

lemma poll_cases:
  obtains (Error) v where "v = w \<or> (\<exists>c. poll_conn p f w = Some c \<and> v = set_conn p c w)" "poll p f w = on_error p f v"
  | (StartError) c where "poll_conn p f w = Some c" "\<not> lp_started (lw_procs w p)" "try_acquire c w"
      "poll p f w = on_error p f (become_leader p c (set_conn p c w))"
  | (Acquire) c where "poll_conn p f w = Some c" "\<not> lp_started (lw_procs w p)" "try_acquire c w"
      "poll p f w = become_leader p c (set_conn p c w)"
  | (Standby) c where "poll_conn p f w = Some c" "\<not> lp_started (lw_procs w p)" "\<not> try_acquire c w"
      "poll p f w = set_conn p c w"
  | (Confirm) c where "poll_conn p f w = Some c" "lp_started (lw_procs w p)"
      "lw_holder w = lp_my_id (lw_procs w p)" "poll p f w = set_conn p c w"
proof (cases "poll_conn p f w")
  case None
  then show ?thesis using Error [of w] by (simp add: poll_def poll_conn_def)
next
  case (Some c)
  let ?w = "set_conn p c w"
  have s: "lp_started (lw_procs ?w p) = lp_started (lw_procs w p)"
    "lp_my_id (lw_procs ?w p) = lp_my_id (lw_procs w p)" "lw_holder ?w = lw_holder w"
    "try_acquire c ?w = try_acquire c w"
    by (simp_all add: set_conn_def try_acquire_def)
  have u: "poll p f w =
      (if \<not> query_answers f c ?w then on_error p f ?w
       else if \<not> lp_started (lw_procs w p) then
         (if try_acquire c w then
            (if po_start f then become_leader p c ?w else on_error p f (become_leader p c ?w))
          else ?w)
       else if lw_holder w \<noteq> lp_my_id (lw_procs w p) then on_error p f ?w else ?w)"
    using Some by (simp add: poll_def poll_conn_def Let_def s lock_holder_def)
  show ?thesis
  proof (cases "query_answers f c ?w")
    case False
    then show ?thesis using Error [of ?w] Some u by simp
  next
    case q: True
    show ?thesis
    proof (cases "lp_started (lw_procs w p)")
      case True
      show ?thesis
      proof (cases "lw_holder w = lp_my_id (lw_procs w p)")
        case True
        then show ?thesis using Confirm [OF Some] u q \<open>lp_started (lw_procs w p)\<close> by simp
      next
        case False
        then show ?thesis using Error [of ?w] Some u q \<open>lp_started (lw_procs w p)\<close> by simp
      qed
    next
      case ns: False
      show ?thesis
      proof (cases "try_acquire c w")
        case True
        then show ?thesis using Acquire [OF Some ns True] StartError [OF Some ns True] u q ns
          by (cases "po_start f") simp_all
      next
        case False
        then show ?thesis using Standby [OF Some ns False] u q ns by simp
      qed
    qed
  qed
qed

lemma inv_poll:
  assumes inv: "leader_inv owner w" and own: "\<And>c. po_conn f = Some c \<Longrightarrow> owner c = p"
  shows "leader_inv owner (poll p f w)"
proof -
  have conn: "owner c = p \<and> (lp_conn (lw_procs w p) = None \<or> lp_conn (lw_procs w p) = Some c)"
    if "poll_conn p f w = Some c" for c
    using that own leader_invD(1) [OF inv, of p]
    by (auto simp: poll_conn_def proc_ok_def Let_def split: option.splits)
  then have set: "leader_inv owner (set_conn p c w)" if "poll_conn p f w = Some c" for c
    using that inv_set_conn [OF inv] by blast
  have lead: "leader_inv owner (become_leader p c (set_conn p c w))"
    if "poll_conn p f w = Some c" "\<not> lp_started (lw_procs w p)" for c
  proof (rule inv_become_leader [OF set [OF that(1)]])
    show "owner c = p" using conn [OF that(1)] by simp
    show "\<not> lp_started (lw_procs (set_conn p c w) p)" using that(2) by (simp add: set_conn_def)
  qed
  show ?thesis
    by (cases rule: poll_cases [of w p f]) (auto intro: inv_on_error inv set lead)
qed

lemma inv_drop:
  assumes inv: "leader_inv owner w"
  shows "leader_inv owner (drop_session c w)"
proof -
  have "proc_ok owner (drop_session c w) q" for q
    by (rule proc_ok_frame [OF leader_invD(1) [OF inv, of q]])
       (simp_all add: drop_session_def own_events_def)
  then show ?thesis using leader_invD(2,3) [OF inv] by (simp add: leader_inv_def drop_session_def)
qed

lemma inv_crash:
  assumes inv: "leader_inv owner w"
  shows "leader_inv owner (crash owner p w)"
proof -
  have "proc_ok owner (crash owner p w) q" for q
  proof (cases "q = p")
    case True
    then show ?thesis by (simp add: proc_ok_def crash_def idle_proc_def)
  next
    case False
    then have "filter (\<lambda>e. snd e = q \<and> snd e \<noteq> p) (lw_events w) = filter (\<lambda>e. snd e = q) (lw_events w)"
      by (intro filter_cong) auto
    with False show ?thesis
      by (intro proc_ok_frame [OF leader_invD(1) [OF inv, of q]])
         (simp_all add: crash_def own_events_def conj_commute)
  qed
  then show ?thesis using leader_invD(2,3) [OF inv]
    by (auto simp: leader_inv_def crash_def distinct_map inj_on_def)
qed

lemma run_inv: "leader_run owner w \<Longrightarrow> leader_inv owner w"
  by (induction rule: leader_run.induct)
     (auto intro: inv_initial elim!: leader_stepE intro: inv_poll inv_drop inv_crash)

subsection \<open>After a poll\<close>

text \<open>
  \<open>confirmed\<close>: the process leads and its session holds the lock. \<open>settled\<close>: it is confirmed or
  none of its collector threads may go on.
\<close>

definition running :: "leader_world \<Rightarrow> nat \<Rightarrow> bool" where
  "running w p \<longleftrightarrow> own_events w p \<noteq> []"

definition confirmed :: "leader_world \<Rightarrow> nat \<Rightarrow> bool" where
  "confirmed w p \<longleftrightarrow> lp_started (lw_procs w p) \<and> lw_holder w = lp_conn (lw_procs w p)"

definition settled :: "leader_world \<Rightarrow> nat \<Rightarrow> bool" where
  "settled w p \<longleftrightarrow> \<not> running w p \<or> confirmed w p"

lemma running_started: "leader_inv owner w \<Longrightarrow> running w p \<longleftrightarrow> lp_started (lw_procs w p)"
  using leader_invD(1) [of owner w p]
  by (auto simp: running_def own_events_def proc_ok_def Let_def split: if_splits)

lemma confirmed_holder:
  assumes "leader_inv owner w" "confirmed w p"
  shows "\<exists>c. lw_holder w = Some c \<and> owner c = p"
  using assms leader_invD(1) [of owner w p]
  by (auto simp: confirmed_def proc_ok_def Let_def split: option.splits)

lemma confirmed_unique:
  "leader_inv owner w \<Longrightarrow> confirmed w p \<Longrightarrow> confirmed w q \<Longrightarrow> p = q"
  using confirmed_holder [of owner w p] confirmed_holder [of owner w q] by auto

lemma not_running_error:
  assumes "leader_inv owner v"
  shows "\<not> running (on_error p f v) p"
  using own_events_clear [OF assms, of p p]
  by (simp add: running_def own_events_def on_error_simps)

lemma poll_conn_owner:
  assumes "leader_inv owner w" "\<And>c. po_conn f = Some c \<Longrightarrow> owner c = p" "poll_conn p f w = Some c"
  shows "owner c = p \<and> (lp_conn (lw_procs w p) = None \<or> lp_conn (lw_procs w p) = Some c)"
  using assms leader_invD(1) [OF assms(1), of p]
  by (auto simp: poll_conn_def proc_ok_def Let_def split: option.splits)

lemma poll_settles:
  assumes inv: "leader_inv owner w" and own: "\<And>c. po_conn f = Some c \<Longrightarrow> owner c = p"
  shows "settled (poll p f w) p"
proof -
  note oc = poll_conn_owner [OF inv own]
  have set: "leader_inv owner (set_conn p c w)" if "poll_conn p f w = Some c" for c
    using inv_set_conn [OF inv] oc [OF _ that] by blast
  have lead: "leader_inv owner (become_leader p c (set_conn p c w))"
    if "poll_conn p f w = Some c" "\<not> lp_started (lw_procs w p)" for c
  proof (rule inv_become_leader [OF set [OF that(1)]])
    show "owner c = p" using oc [OF _ that(1)] by blast
    show "\<not> lp_started (lw_procs (set_conn p c w) p)" using that(2) by (simp add: set_conn_def)
  qed
  show ?thesis
  proof (cases rule: poll_cases [of w p f])
    case (Error v)
    then have "leader_inv owner v" using inv set by blast
    then show ?thesis using Error not_running_error by (simp add: settled_def)
  next
    case (StartError c)
    then show ?thesis using not_running_error [OF lead] by (simp add: settled_def)
  next
    case (Acquire c)
    then show ?thesis by (simp add: settled_def confirmed_def become_leader_def)
  next
    case (Standby c)
    then have "\<not> running w p" using running_started [OF inv] by simp
    then show ?thesis using Standby by (simp add: settled_def running_def own_events_def set_conn_def)
  next
    case (Confirm c)
    have "lp_my_id (lw_procs w p) = Some c"
      using leader_invD(1) [OF inv, of p] Confirm(1,2)
      by (auto simp: proc_ok_def Let_def poll_conn_def)
    then show ?thesis using Confirm by (simp add: settled_def confirmed_def set_conn_def)
  qed
qed

text \<open>An iteration of one process does not disturb another: it cannot take the lock away.\<close>

lemma poll_other:
  assumes "q \<noteq> p"
  shows "lw_procs (poll p f w) q = lw_procs w q" "leader_inv owner w \<Longrightarrow>
      (\<And>c. po_conn f = Some c \<Longrightarrow> owner c = p) \<Longrightarrow> own_events (poll p f w) q = own_events w q"
proof -
  have err: "lw_procs (on_error p f v) q = lw_procs v q" for v
    using assms by (simp add: on_error_simps)
  have bl: "lw_procs (become_leader p c v) q = lw_procs v q"
    "own_events (become_leader p c v) q = own_events v q" for c v
    using assms by (simp_all add: become_leader_def own_events_def)
  have sc: "lw_procs (set_conn p c v) q = lw_procs v q" "own_events (set_conn p c v) q = own_events v q" for c v
    using assms by (simp_all add: set_conn_def own_events_def)
  show "lw_procs (poll p f w) q = lw_procs w q"
    by (cases rule: poll_cases [of w p f]) (auto simp: err bl sc)
  assume inv: "leader_inv owner w" and own: "\<And>c. po_conn f = Some c \<Longrightarrow> owner c = p"
  note oc = poll_conn_owner [OF inv own]
  have oe: "own_events (on_error p f v) q = own_events v q" if "leader_inv owner v" for v
    using own_events_clear [OF that, of p q] assms by (simp add: own_events_def on_error_simps)
  have set: "leader_inv owner (set_conn p c w)" if "poll_conn p f w = Some c" for c
    using inv_set_conn [OF inv] oc [OF _ that] by blast
  have lead: "leader_inv owner (become_leader p c (set_conn p c w))"
    if "poll_conn p f w = Some c" "\<not> lp_started (lw_procs w p)" for c
  proof (rule inv_become_leader [OF set [OF that(1)]])
    show "owner c = p" using oc [OF _ that(1)] by blast
    show "\<not> lp_started (lw_procs (set_conn p c w) p)" using that(2) by (simp add: set_conn_def)
  qed
  show "own_events (poll p f w) q = own_events w q"
  proof (cases rule: poll_cases [of w p f])
    case (Error v)
    then have "leader_inv owner v" "own_events v q = own_events w q" using inv set sc(2) by auto
    then show ?thesis using Error(2) oe by simp
  qed (simp_all add: bl sc oe lead)
qed

lemma poll_keeps_holder:
  assumes inv: "leader_inv owner w" and own: "\<And>c. po_conn f = Some c \<Longrightarrow> owner c = p"
    and h: "lw_holder w = Some d" and d: "owner d \<noteq> p"
  shows "lw_holder (poll p f w) = Some d"
proof -
  note oc = poll_conn_owner [OF inv own]
  have conn: "lp_conn (lw_procs w p) \<noteq> Some d"
    using leader_invD(1) [OF inv, of p] d by (auto simp: proc_ok_def Let_def)
  show ?thesis
  proof (cases rule: poll_cases [of w p f])
    case (Error v)
    from Error(1) have "lw_holder v = Some d" "lp_conn (lw_procs v p) \<noteq> Some d"
      using h conn oc d by (auto simp: set_conn_def)
    then show ?thesis using Error(2) by (simp add: on_error_def Let_def close_conn_def)
  next
    case (StartError c)
    then show ?thesis using h oc [OF _ StartError(1)] d by (auto simp: try_acquire_def)
  next
    case (Acquire c)
    then show ?thesis using h oc [OF _ Acquire(1)] d by (auto simp: try_acquire_def)
  qed (simp_all add: h set_conn_def)
qed

lemma poll_keeps_settled:
  assumes inv: "leader_inv owner w" and own: "\<And>c. po_conn f = Some c \<Longrightarrow> owner c = p"
    and q: "q \<noteq> p" and s: "settled w q"
  shows "settled (poll p f w) q"
proof (cases "confirmed w q")
  case True
  obtain d where d: "lw_holder w = Some d" "owner d = q" using confirmed_holder [OF inv True] by blast
  then have "lw_holder (poll p f w) = Some d" using q by (intro poll_keeps_holder [OF inv own]) auto
  then show ?thesis using True d poll_other(1) [OF q] by (simp add: settled_def confirmed_def)
next
  case False
  then show ?thesis using s poll_other(2) [OF q inv own] by (simp add: settled_def running_def)
qed

text \<open>A round: the listed processes poll one after the other.\<close>

definition round_of :: "(nat \<times> poll_outcome) list \<Rightarrow> leader_world \<Rightarrow> leader_world" where
  "round_of ps w = fold (\<lambda>(p, f). poll p f) ps w"

definition own_sessions :: "(nat \<Rightarrow> nat) \<Rightarrow> (nat \<times> poll_outcome) list \<Rightarrow> bool" where
  "own_sessions owner ps \<longleftrightarrow>
     list_all (\<lambda>(p, f). case po_conn f of None \<Rightarrow> True | Some c \<Rightarrow> owner c = p) ps"

lemma round_settles:
  assumes "leader_inv owner w" and "own_sessions owner ps"
  shows "leader_inv owner (round_of ps w) \<and>
     (\<forall>q. settled w q \<or> q \<in> fst ` set ps \<longrightarrow> settled (round_of ps w) q)"
  using assms
proof (induction ps arbitrary: w)
  case (Cons pf ps)
  obtain p f where pf: "pf = (p, f)" by (cases pf)
  have own: "\<And>c. po_conn f = Some c \<Longrightarrow> owner c = p" and rest: "own_sessions owner ps"
    using Cons.prems(2) by (auto simp: own_sessions_def pf)
  let ?v = "poll p f w"
  have rd: "round_of (pf # ps) w = round_of ps ?v" by (simp add: round_of_def pf)
  have inv: "leader_inv owner ?v" by (rule inv_poll [OF Cons.prems(1) own])
  note IH = Cons.IH [OF inv rest]
  have "settled (round_of (pf # ps) w) q" if a: "settled w q \<or> q \<in> fst ` set (pf # ps)" for q
  proof -
    from a consider "q = p" | "q \<noteq> p" "settled w q" | "q \<in> fst ` set ps" by (auto simp: pf)
    then have "settled ?v q \<or> q \<in> fst ` set ps"
    proof cases
      case 1
      then show ?thesis using poll_settles [OF Cons.prems(1) own] by simp
    next
      case 2
      then show ?thesis using poll_keeps_settled [OF Cons.prems(1) own] by simp
    qed simp
    then show ?thesis unfolding rd using IH by blast
  qed
  moreover have "leader_inv owner (round_of (pf # ps) w)" unfolding rd using IH by simp
  ultimately show ?case by simp
qed (simp add: round_of_def)

end
