(* ===== verification/Rbac.thy ===== *)
theory Rbac
  imports Authorization
begin

text \<open>
  \<open>app/auth/rbac.py\<close>: whether a principal may do something to a target, from the role bindings and
  the deny overrides that apply; the filter a list query is narrowed with; the gate that keeps a
  grantor from handing out more than the grantor has; and the cache in front of it all. Sets are
  lists here. The tables of version 1 are those of \<open>Authorization\<close>.
\<close>

subsection \<open>Targets and scopes\<close>

record target =
  tg_cloud :: "string option"
  tg_account :: "nat option"
  tg_region :: "string option"
  tg_service :: "string option"
  tg_resource_id :: "string option"
  tg_resource_group :: "string option"
  tg_tags :: "(string, string) dict"

definition any_target :: target where
  "any_target = \<lparr>tg_cloud = None, tg_account = None, tg_region = None, tg_service = None,
     tg_resource_id = None, tg_resource_group = None, tg_tags = []\<rparr>"

record v2_scope =
  vs_id :: "nat option"
  vs_label :: "string option"
  vs_cloud :: "string option"
  vs_account :: "nat option"
  vs_regions :: "string list option"
  vs_services :: "string list option"
  vs_resource_groups :: "string list option"
  vs_resource_ids :: "string list option"
  vs_tags :: "(string \<times> tag_allowed) list option"

definition truthy_id :: "nat option \<Rightarrow> bool" where
  "truthy_id v = (case v of None \<Rightarrow> False | Some i \<Rightarrow> i \<noteq> 0)"

definition truthy_tags :: "(string \<times> tag_allowed) list option \<Rightarrow> bool" where
  "truthy_tags v = (case v of None \<Rightarrow> False | Some xs \<Rightarrow> xs \<noteq> [])"

definition is_global :: "v2_scope \<Rightarrow> bool" where
  "is_global s \<longleftrightarrow>
     \<not> (truthy_str (vs_cloud s) \<or> truthy_id (vs_account s) \<or> truthy_list (vs_regions s) \<or>
        truthy_list (vs_services s) \<or> truthy_list (vs_resource_groups s) \<or>
        truthy_list (vs_resource_ids s) \<or> truthy_tags (vs_tags s))"

text \<open>\<open>if xs and v not in xs: return False\<close>: an open dimension admits anything, a closed one not \<open>None\<close>.\<close>

definition within_dim :: "string list option \<Rightarrow> string option \<Rightarrow> bool" where
  "within_dim xs v =
     (if truthy_list xs then (case v of None \<Rightarrow> False | Some x \<Rightarrow> x \<in> set (case xs of Some ys \<Rightarrow> ys | None \<Rightarrow> []))
      else True)"

definition allowed_values :: "tag_allowed \<Rightarrow> string list" where
  "allowed_values v = (case v of OneValue x \<Rightarrow> [x] | Values xs \<Rightarrow> xs)"

definition tags_match :: "(string \<times> tag_allowed) list option \<Rightarrow> (string, string) dict \<Rightarrow> bool" where
  "tags_match selector tags =
     (case selector of
        None \<Rightarrow> True
      | Some ks \<Rightarrow> list_all (\<lambda>(key, v). case dict_get tags key of
                               None \<Rightarrow> False | Some x \<Rightarrow> x \<in> set (allowed_values v)) ks)"

definition scope_covers :: "v2_scope \<Rightarrow> target \<Rightarrow> bool" where
  "scope_covers s t =
     (if truthy_str (vs_cloud s) \<and> tg_cloud t \<noteq> vs_cloud s then False
      else if vs_account s \<noteq> None \<and> tg_account t \<noteq> vs_account s then False
      else within_dim (vs_regions s) (tg_region t) \<and> within_dim (vs_services s) (tg_service t) \<and>
           within_dim (vs_resource_groups s) (tg_resource_group t) \<and>
           within_dim (vs_resource_ids s) (tg_resource_id t) \<and> tags_match (vs_tags s) (tg_tags t))"

subsection \<open>Bindings and denials\<close>

datatype v2_source = ViaUser | ViaGroup | ViaLegacy

record v2_binding =
  bd_role :: string
  bd_rank :: int
  bd_permissions :: "string list"
  bd_scope :: v2_scope
  bd_source :: v2_source
  bd_group_id :: "nat option"
  bd_group_name :: "string option"
  bd_group_level :: "string option"
  bd_id :: "nat option"
  bd_expires_at :: "secs option"

record denial =
  dn_permission :: string
  dn_scope :: "v2_scope option"

record resolved_access =
  ra_user :: nat
  ra_bindings :: "v2_binding list"
  ra_denials :: "denial list"

definition all_permissions :: "resolved_access \<Rightarrow> string list" where
  "all_permissions ra = concat (map bd_permissions (ra_bindings ra))"

definition is_global_admin :: "resolved_access \<Rightarrow> bool" where
  "is_global_admin ra = list_ex (\<lambda>b. bd_role b = ''admin'' \<and> is_global (bd_scope b)) (ra_bindings ra)"

subsection \<open>Loading\<close>

record role_row =
  ro_id :: nat
  ro_key :: string
  ro_rank :: int

record override_row =
  po_permission :: nat
  po_deny :: bool
  po_principal :: principal
  po_scope :: "nat option"
  po_expires_at :: "secs option"

text \<open>
  The tables version 2 adds; \<open>rd_now\<close> is the session's \<open>NOW()\<close>. \<open>rd_bindings\<close> are the rows of
  \<open>role_bindings\<close>.
\<close>

record rbac_db =
  rd_v1 :: auth_db
  rd_bindings :: "role_binding list"
  rd_roles :: "role_row list"
  rd_role_permissions :: "(nat \<times> nat) list"
  rd_permissions :: "(nat \<times> string) list"
  rd_overrides :: "override_row list"
  rd_now :: secs

definition json_list :: "json_col \<Rightarrow> string list option" where
  "json_list v =
     (case v of
        ColNull \<Rightarrow> None
      | ColList xs \<Rightarrow> if xs = [] then None else Some xs
      | ColText None \<Rightarrow> None
      | ColText (Some xs) \<Rightarrow> if xs = [] then None else Some xs)"

definition json_tags :: "tag_col \<Rightarrow> (string \<times> tag_allowed) list option" where
  "json_tags v = (case v of TagColNull \<Rightarrow> None | TagColText None \<Rightarrow> None
     | TagColText (Some ks) \<Rightarrow> if ks = [] then None else Some ks)"

definition scope_from_row :: "rbac_scope \<Rightarrow> v2_scope" where
  "scope_from_row r =
     \<lparr>vs_id = Some (sc_id r), vs_label = Some (sc_label r), vs_cloud = sc_cloud r,
      vs_account = sc_account r, vs_regions = json_list (sc_regions r),
      vs_services = json_list (sc_services r), vs_resource_groups = json_list (sc_resource_groups r),
      vs_resource_ids = json_list (sc_resource_ids r), vs_tags = json_tags (sc_tag_selector r)\<rparr>"

text \<open>The walk of \<open>_principal_group_ids\<close> keeps an id even when no such group exists.\<close>

function parent_walk :: "org_group list \<Rightarrow> nat list \<Rightarrow> nat option \<Rightarrow> nat list" where
  "parent_walk gs seen current =
     (case current of
        None \<Rightarrow> []
      | Some i \<Rightarrow>
          if i \<in> set seen then []
          else i # parent_walk gs (i # seen) (case get_group gs i of Some g \<Rightarrow> og_parent g | None \<Rightarrow> None))"
  by pat_completeness auto
termination
proof (relation "measure (\<lambda>(gs, seen, current).
    length (filter (\<lambda>g. og_id g \<notin> set seen) gs) + (if current = None then 0 else 1))", goal_cases)
  case (2 gs seen current i)
  have le: "length (filter (\<lambda>g. og_id g \<notin> set (i # seen)) gs) \<le> length (filter (\<lambda>g. og_id g \<notin> set seen) gs)"
    by (induction gs) auto
  show ?case
  proof (cases "get_group gs i")
    case None
    then show ?thesis using 2 le by simp
  next
    case (Some g)
    then have g: "g \<in> set gs" "og_id g = i" by (auto simp: get_group_def find_Some_iff)
    have "length (filter (\<lambda>g. og_id g \<notin> set (i # seen)) gs) < length (filter (\<lambda>g. og_id g \<notin> set seen) gs)"
      using unseen_decreases [OF g] 2(2) by simp
    then show ?thesis using 2 Some by simp
  qed
qed simp

declare parent_walk.simps [simp del]

definition principal_group_ids :: "auth_db \<Rightarrow> nat \<Rightarrow> nat list" where
  "principal_group_ids db uid =
     remdups (concat (map (\<lambda>gid. parent_walk (db_groups db) [] (Some gid)) (get_user_group_memberships db uid)))"

definition role_permission_map :: "rbac_db \<Rightarrow> (nat, string list) dict" where
  "role_permission_map db =
     foldl (\<lambda>d (rid, code). dict_set d rid ((case dict_get d rid of Some cs \<Rightarrow> cs | None \<Rightarrow> []) @ [code])) []
       (concat (map (\<lambda>(rid, pid). map (\<lambda>p. (rid, snd p)) (filter (\<lambda>p. fst p = pid) (rd_permissions db)))
          (rd_role_permissions db)))"

definition perms_of :: "rbac_db \<Rightarrow> nat \<Rightarrow> string list" where
  "perms_of db rid = (case dict_get (role_permission_map db) rid of Some cs \<Rightarrow> cs | None \<Rightarrow> [])"

definition all_permission_codes :: "rbac_db \<Rightarrow> string list" where
  "all_permission_codes db = map snd (rd_permissions db)"

definition perms_by_role_key :: "rbac_db \<Rightarrow> (string, string list) dict" where
  "perms_by_role_key db = foldl (\<lambda>d r. dict_set d (ro_key r) (perms_of db (ro_id r))) [] (rd_roles db)"

definition LEGACY_RANK :: "(string, int) dict" where
  "LEGACY_RANK = [(''viewer'', 10), (''editor'', 20), (''admin'', 30)]"

definition legacy_scope :: "scope_row \<Rightarrow> v2_scope" where
  "legacy_scope r =
     \<lparr>vs_id = Some (sr_id r), vs_label = None, vs_cloud = Some (sr_cloud r), vs_account = sr_account r,
      vs_regions = json_list (sr_regions r), vs_services = json_list (sr_resource_types r),
      vs_resource_groups = json_list (sr_resource_groups r),
      vs_resource_ids = json_list (sr_resource_ids r), vs_tags = None\<rparr>"

definition legacy_binding :: "string \<Rightarrow> string list \<Rightarrow> scope_row \<Rightarrow> org_group option \<Rightarrow> v2_binding" where
  "legacy_binding role perms r g =
     \<lparr>bd_role = role, bd_rank = (case dict_get LEGACY_RANK role of Some n \<Rightarrow> n | None \<Rightarrow> 0),
      bd_permissions = perms, bd_scope = legacy_scope r,
      bd_source = (if g = None then ViaLegacy else ViaGroup), bd_group_id = map_option og_id g,
      bd_group_name = map_option og_name g, bd_group_level = map_option og_level g,
      bd_id = None, bd_expires_at = None\<rparr>"

definition org_scope :: v2_scope where
  "org_scope = \<lparr>vs_id = None, vs_label = Some ''Organization (legacy admin)'', vs_cloud = None,
     vs_account = None, vs_regions = None, vs_services = None, vs_resource_groups = None,
     vs_resource_ids = None, vs_tags = None\<rparr>"

definition legacy_grants :: "rbac_db \<Rightarrow> user \<Rightarrow> v2_binding list" where
  "legacy_grants db u =
     (let v1 = rd_v1 db;
          role = us_role u;
          perms = (case dict_get (perms_by_role_key db) role of Some cs \<Rightarrow> cs | None \<Rightarrow> []);
          own = map (\<lambda>r. (r, None)) (filter (\<lambda>r. sr_owner r = us_id u) (db_access_scopes v1));
          groups = map (\<lambda>(r, g). (r, Some g)) (group_policy_rows v1 (principal_group_ids v1 (us_id u)));
          grants = map (\<lambda>(r, g). legacy_binding role perms r g) (own @ groups)
      in if role = ''admin'' \<and> grants = [] then
           [\<lparr>bd_role = ''admin'', bd_rank = 30,
             bd_permissions = (if perms \<noteq> [] then perms else all_permission_codes db),
             bd_scope = org_scope, bd_source = ViaLegacy, bd_group_id = None, bd_group_name = None,
             bd_group_level = None, bd_id = None, bd_expires_at = None\<rparr>]
         else grants)"

definition principal_is :: "nat \<Rightarrow> nat list \<Rightarrow> principal \<Rightarrow> bool" where
  "principal_is uid gids p \<longleftrightarrow> (case p of PUser u \<Rightarrow> u = uid | PGroup g \<Rightarrow> g \<in> set gids)"

definition unexpired :: "secs \<Rightarrow> secs option \<Rightarrow> bool" where
  "unexpired now e \<longleftrightarrow> (case e of None \<Rightarrow> True | Some t \<Rightarrow> t > now)"

definition binding_of_row :: "rbac_db \<Rightarrow> role_binding \<Rightarrow> role_row \<Rightarrow> rbac_scope \<Rightarrow> v2_binding" where
  "binding_of_row db b r s =
     (let gid = (case rb_principal b of PUser _ \<Rightarrow> None | PGroup g \<Rightarrow> Some g);
          group = (case gid of None \<Rightarrow> None | Some g \<Rightarrow> get_group (db_groups (rd_v1 db)) g)
      in \<lparr>bd_role = ro_key r, bd_rank = ro_rank r, bd_permissions = perms_of db (rb_role b),
          bd_scope = scope_from_row s, bd_source = (if gid = None then ViaUser else ViaGroup),
          bd_group_id = gid, bd_group_name = map_option og_name group,
          bd_group_level = map_option og_level group, bd_id = Some (rb_id b),
          bd_expires_at = rb_expires_at b\<rparr>)"

definition binding_rows :: "rbac_db \<Rightarrow> nat \<Rightarrow> (role_binding \<times> rbac_scope) list" where
  "binding_rows db uid =
     (let gids = principal_group_ids (rd_v1 db) uid in
      concat (map (\<lambda>b. map (Pair b) (filter (\<lambda>s. sc_id s = rb_scope b) (db_scopes (rd_v1 db))))
        (filter (\<lambda>b. principal_is uid gids (rb_principal b) \<and> unexpired (rd_now db) (rb_expires_at b))
           (rd_bindings db))))"

definition v2_bindings :: "rbac_db \<Rightarrow> nat \<Rightarrow> v2_binding list" where
  "v2_bindings db uid =
     List.map_filter (\<lambda>(b, s). case find (\<lambda>r. ro_id r = rb_role b) (rd_roles db) of
         None \<Rightarrow> None | Some r \<Rightarrow> Some (binding_of_row db b r s)) (binding_rows db uid)"

text \<open>A deny whose scope row is missing applies everywhere.\<close>

definition denials_of :: "rbac_db \<Rightarrow> nat \<Rightarrow> denial list" where
  "denials_of db uid =
     (let gids = principal_group_ids (rd_v1 db) uid in
      concat (map (\<lambda>po.
          concat (map (\<lambda>p.
            (let scopes = (case po_scope po of None \<Rightarrow> []
                           | Some i \<Rightarrow> filter (\<lambda>s. sc_id s = i) (db_scopes (rd_v1 db)))
             in if scopes = [] then [\<lparr>dn_permission = snd p, dn_scope = None\<rparr>]
                else map (\<lambda>s. \<lparr>dn_permission = snd p, dn_scope = Some (scope_from_row s)\<rparr>) scopes))
            (filter (\<lambda>p. fst p = po_permission po) (rd_permissions db))))
        (filter (\<lambda>po. po_deny po \<and> principal_is uid gids (po_principal po) \<and>
                       unexpired (rd_now db) (po_expires_at po)) (rd_overrides db))))"

definition load_access :: "rbac_db \<Rightarrow> user \<Rightarrow> resolved_access" where
  "load_access db u =
     (let bindings = v2_bindings db (us_id u) in
      \<lparr>ra_user = us_id u, ra_bindings = (if bindings = [] then legacy_grants db u else bindings),
       ra_denials = denials_of db (us_id u)\<rparr>)"

subsection \<open>The cache\<close>

definition CACHE_TTL_SECONDS :: secs where
  "CACHE_TTL_SECONDS = 60"

type_synonym access_cache = "(nat, secs \<times> resolved_access) dict"

definition cache_hit :: "access_cache \<Rightarrow> secs \<Rightarrow> nat \<Rightarrow> resolved_access option" where
  "cache_hit c now uid =
     (case dict_get c uid of None \<Rightarrow> None | Some (e, ra) \<Rightarrow> if e > now then Some ra else None)"

text \<open>\<open>now\<close> is taken before the tables are read.\<close>

definition cache_store :: "access_cache \<Rightarrow> secs \<Rightarrow> nat \<Rightarrow> resolved_access \<Rightarrow> access_cache" where
  "cache_store c now uid ra = dict_set c uid (now + CACHE_TTL_SECONDS, ra)"

definition resolve_access :: "access_cache \<Rightarrow> secs \<Rightarrow> rbac_db \<Rightarrow> user \<Rightarrow> access_cache \<times> resolved_access" where
  "resolve_access c now db u =
     (case cache_hit c now (us_id u) of
        Some ra \<Rightarrow> (c, ra)
      | None \<Rightarrow> (cache_store c now (us_id u) (load_access db u), load_access db u))"

definition invalidate_principal :: "access_cache \<Rightarrow> nat option \<Rightarrow> access_cache" where
  "invalidate_principal c uid = (case uid of None \<Rightarrow> [] | Some i \<Rightarrow> dict_del c i)"

subsection \<open>Decisions\<close>

definition denied :: "resolved_access \<Rightarrow> string \<Rightarrow> target \<Rightarrow> bool" where
  "denied ra perm t =
     list_ex (\<lambda>d. dn_permission d = perm \<and> (case dn_scope d of None \<Rightarrow> True | Some s \<Rightarrow> scope_covers s t)) (ra_denials ra)"

definition granted :: "string \<Rightarrow> target \<Rightarrow> v2_binding \<Rightarrow> bool" where
  "granted perm t b \<longleftrightarrow> perm \<in> set (bd_permissions b) \<and> scope_covers (bd_scope b) t"

definition can :: "resolved_access \<Rightarrow> string \<Rightarrow> target \<Rightarrow> bool" where
  "can ra perm t = (if denied ra perm t then False else list_ex (granted perm t) (ra_bindings ra))"

definition require_permission_v2 :: "resolved_access \<Rightarrow> string \<Rightarrow> bool" where
  "require_permission_v2 ra code =
     (if code \<notin> set (all_permissions ra) then False
      else \<not> list_ex (\<lambda>d. dn_permission d = code \<and> dn_scope d = None) (ra_denials ra))"

datatype explanation = ExplicitDeny | ByBinding v2_binding | OutOfScope | NoPermission

definition explain :: "resolved_access \<Rightarrow> string \<Rightarrow> target \<Rightarrow> bool \<times> explanation" where
  "explain ra perm t =
     (if denied ra perm t then (False, ExplicitDeny)
      else (case filter (granted perm t) (ra_bindings ra) of
              b # _ \<Rightarrow> (True, ByBinding b)
            | [] \<Rightarrow> (False, if perm \<in> set (all_permissions ra) then OutOfScope else NoPermission)))"

subsection \<open>The list filter\<close>

type_synonym region_map = "(nat, string list option) dict"

record access_filter =
  af_unrestricted :: bool
  af_accounts :: "nat list option"
  af_regions :: "region_map option"
  af_services :: "string list option"
  af_resource_ids :: "string list option"

definition no_access :: access_filter where
  "no_access = \<lparr>af_unrestricted = False, af_accounts = Some [], af_regions = None, af_services = None,
     af_resource_ids = None\<rparr>"

definition filter_is_empty :: "access_filter \<Rightarrow> bool" where
  "filter_is_empty f \<longleftrightarrow> \<not> af_unrestricted f \<and> af_accounts f = Some []"

text \<open>The row a list query returns: the columns the filter's SQL names.\<close>

record res_row =
  rr_account :: nat
  rr_region :: "string option"
  rr_type :: string

definition region_clause :: "res_row \<Rightarrow> nat \<times> string list option \<Rightarrow> bool" where
  "region_clause row ar \<longleftrightarrow>
     (case snd ar of
        None \<Rightarrow> rr_account row = fst ar
      | Some rs \<Rightarrow> rs \<noteq> [] \<and> rr_account row = fst ar \<and>
          (case rr_region row of None \<Rightarrow> False | Some r \<Rightarrow> r \<in> set rs))"

definition filter_sql :: "access_filter \<Rightarrow> res_row \<Rightarrow> bool" where
  "filter_sql f row =
     (if af_unrestricted f then True
      else if filter_is_empty f then False
      else
        (case af_accounts f of None \<Rightarrow> True | Some is \<Rightarrow> rr_account row \<in> set is) \<and>
        (case af_services f of None \<Rightarrow> True | Some ss \<Rightarrow> rr_type row \<in> set ss) \<and>
        (case af_regions f of
           None \<Rightarrow> True
         | Some m \<Rightarrow>
             (let usable = filter (\<lambda>ar. snd ar \<noteq> Some []) m in
              usable = [] \<or> list_ex (region_clause row) usable)))"

text \<open>The loop over the bindings: accounts, regions per account, services, resource ids.\<close>

type_synonym filter_state = "nat list \<times> region_map \<times> string list option \<times> string list option"

definition matched_accounts :: "cloud_account list \<Rightarrow> v2_scope \<Rightarrow> nat list" where
  "matched_accounts accs s =
     (case vs_account s of
        Some i \<Rightarrow> [i]
      | None \<Rightarrow> map ca_id (filter (\<lambda>a. vs_cloud s = None \<or> ca_provider a = vs_cloud s) accs))"

definition add_regions :: "v2_scope \<Rightarrow> region_map \<Rightarrow> nat \<Rightarrow> region_map" where
  "add_regions s m acct =
     (if \<not> truthy_list (vs_regions s) then dict_set m acct None
      else (case dict_get m acct of
              Some None \<Rightarrow> m
            | Some (Some rs) \<Rightarrow> dict_set m acct (Some (rs @ the (vs_regions s)))
            | None \<Rightarrow> dict_set m acct (Some (the (vs_regions s)))))"

definition add_dim :: "string list option \<Rightarrow> string list option \<Rightarrow> string list option" where
  "add_dim acc xs =
     (case acc of
        None \<Rightarrow> None
      | Some ys \<Rightarrow> if \<not> truthy_list xs then None else Some (ys @ the xs))"

definition add_binding :: "cloud_account list \<Rightarrow> v2_binding \<Rightarrow> filter_state \<Rightarrow> filter_state" where
  "add_binding accs b st =
     (case st of (ids, m, ss, rids) \<Rightarrow>
        (let s = bd_scope b; matched = matched_accounts accs s in
         (ids @ matched, foldl (add_regions s) m matched, add_dim ss (vs_services s),
          add_dim rids (vs_resource_ids s))))"

definition drop_account :: "nat \<Rightarrow> nat list \<times> region_map \<Rightarrow> nat list \<times> region_map" where
  "drop_account acct im = (filter (\<lambda>i. i \<noteq> acct) (fst im), dict_del (snd im) acct)"

definition precise_denial :: "v2_scope \<Rightarrow> bool" where
  "precise_denial s \<longleftrightarrow>
     \<not> (truthy_list (vs_services s) \<or> truthy_list (vs_resource_groups s) \<or>
        truthy_list (vs_resource_ids s) \<or> truthy_tags (vs_tags s))"

definition deny_account :: "v2_scope \<Rightarrow> nat list \<times> region_map \<Rightarrow> nat \<Rightarrow> nat list \<times> region_map" where
  "deny_account s im acct =
     (if acct \<notin> set (fst im) then im
      else if precise_denial s \<and> truthy_list (vs_regions s) then
        (case dict_get (snd im) acct of
           Some (Some current) \<Rightarrow>
             (let remaining = filter (\<lambda>r. r \<notin> set (the (vs_regions s))) current in
              if remaining \<noteq> [] then (fst im, dict_set (snd im) acct (Some remaining))
              else drop_account acct im)
         | _ \<Rightarrow> drop_account acct im)
      else drop_account acct im)"

definition denied_accounts :: "cloud_account list \<Rightarrow> v2_scope \<Rightarrow> nat list" where
  "denied_accounts accs s =
     map ca_id (filter (\<lambda>a. (vs_account s = None \<or> vs_account s = Some (ca_id a)) \<and>
                            (vs_cloud s = None \<or> ca_provider a = vs_cloud s)) accs)"

definition apply_denial :: "cloud_account list \<Rightarrow> nat list \<times> region_map \<Rightarrow> v2_scope \<Rightarrow> nat list \<times> region_map" where
  "apply_denial accs im s = foldl (deny_account s) im (denied_accounts accs s)"

definition relevant_bindings :: "resolved_access \<Rightarrow> string option \<Rightarrow> v2_binding list" where
  "relevant_bindings ra perm =
     filter (\<lambda>b. case perm of None \<Rightarrow> True | Some p \<Rightarrow> p \<in> set (bd_permissions b)) (ra_bindings ra)"

definition applicable_denials :: "resolved_access \<Rightarrow> string option \<Rightarrow> denial list" where
  "applicable_denials ra perm =
     filter (\<lambda>d. case perm of None \<Rightarrow> True | Some p \<Rightarrow> dn_permission d = p) (ra_denials ra)"

definition accessible_filter :: "cloud_account list \<Rightarrow> resolved_access \<Rightarrow> string option \<Rightarrow> access_filter" where
  "accessible_filter accs ra perm =
     (let relevant = relevant_bindings ra perm;
          denials = applicable_denials ra perm;
          everywhere = list_ex (\<lambda>b. is_global (bd_scope b)) relevant
      in if relevant = [] then no_access
         else if list_ex (\<lambda>d. dn_scope d = None) denials then no_access
         else if everywhere \<and> denials = [] then
           \<lparr>af_unrestricted = True, af_accounts = None, af_regions = None, af_services = None, af_resource_ids = None\<rparr>
         else
           (let (ids, m, ss, rids) =
                  (if everywhere
                   then (map ca_id accs, map (\<lambda>a. (ca_id a, None)) accs, None, None)
                   else foldl (\<lambda>st b. add_binding accs b st) ([], [], Some [], Some []) relevant);
                (ids', m') = foldl (apply_denial accs) (ids, m) (List.map_filter dn_scope denials)
            in \<lparr>af_unrestricted = False, af_accounts = Some ids', af_regions = Some m', af_services = ss,
                af_resource_ids = rids\<rparr>))"

fun services_loop :: "nat option \<Rightarrow> string option \<Rightarrow> v2_binding list \<Rightarrow> string list \<Rightarrow> string list option" where
  "services_loop acct perm [] out = Some out"
| "services_loop acct perm (b # bs) out =
     (if perm \<noteq> None \<and> the perm \<notin> set (bd_permissions b) then services_loop acct perm bs out
      else if acct \<noteq> None \<and> vs_account (bd_scope b) \<noteq> None \<and> vs_account (bd_scope b) \<noteq> acct
      then services_loop acct perm bs out
      else if \<not> truthy_list (vs_services (bd_scope b)) then None
      else services_loop acct perm bs (out @ the (vs_services (bd_scope b))))"

definition accessible_services :: "resolved_access \<Rightarrow> nat option \<Rightarrow> string option \<Rightarrow> string list option" where
  "accessible_services ra acct perm = services_loop acct perm (ra_bindings ra) []"

definition accessible_regions :: "cloud_account list \<Rightarrow> resolved_access \<Rightarrow> nat \<Rightarrow> string option \<Rightarrow> string list option" where
  "accessible_regions accs ra acct perm =
     (let f = accessible_filter accs ra perm in
      if af_unrestricted f then None
      else if acct \<notin> set (case af_accounts f of Some is \<Rightarrow> is | None \<Rightarrow> []) then Some []
      else (case dict_get (case af_regions f of Some m \<Rightarrow> m | None \<Rightarrow> []) acct of
              Some rs \<Rightarrow> rs | None \<Rightarrow> None))"

subsection \<open>Granting\<close>

definition list_contains :: "string list option \<Rightarrow> string list option \<Rightarrow> bool" where
  "list_contains outer inner =
     (if \<not> truthy_list outer then True
      else if \<not> truthy_list inner then False
      else set (the inner) \<subseteq> set (the outer))"

definition scope_contains :: "v2_scope \<Rightarrow> v2_scope \<Rightarrow> bool" where
  "scope_contains outer inner =
     (if is_global outer then True
      else if truthy_str (vs_cloud outer) \<and> vs_cloud inner \<noteq> vs_cloud outer then False
      else if vs_account outer \<noteq> None \<and> vs_account inner \<noteq> vs_account outer then False
      else list_contains (vs_regions outer) (vs_regions inner) \<and>
           list_contains (vs_services outer) (vs_services inner) \<and>
           list_contains (vs_resource_groups outer) (vs_resource_groups inner) \<and>
           list_contains (vs_resource_ids outer) (vs_resource_ids inner))"

definition role_rank :: "rbac_db \<Rightarrow> string \<Rightarrow> int" where
  "role_rank db key = (case find (\<lambda>r. ro_key r = key) (rd_roles db) of Some r \<Rightarrow> ro_rank r | None \<Rightarrow> 0)"

definition may_supply :: "int \<Rightarrow> v2_scope \<Rightarrow> v2_binding \<Rightarrow> bool" where
  "may_supply rank s b \<longleftrightarrow>
     \<not> bd_rank b < rank \<and> ''rbac.binding.manage'' \<in> set (bd_permissions b) \<and> scope_contains (bd_scope b) s"

definition can_grant :: "rbac_db \<Rightarrow> resolved_access \<Rightarrow> string \<Rightarrow> v2_scope \<Rightarrow> bool" where
  "can_grant db ra key s = list_ex (may_supply (role_rank db key) s) (ra_bindings ra)"

subsection \<open>Decisions and their explanation\<close>

lemma denied_iff:
  "denied ra perm t \<longleftrightarrow> (\<exists>d\<in>set (ra_denials ra). dn_permission d = perm \<and>
     (\<forall>s. dn_scope d = Some s \<longrightarrow> scope_covers s t))"
  by (auto simp: denied_def list_ex_iff split: option.splits)

lemma can_iff:
  "can ra perm t \<longleftrightarrow> \<not> denied ra perm t \<and> (\<exists>b\<in>set (ra_bindings ra). granted perm t b)"
  by (auto simp: can_def list_ex_iff)

lemma explain_can: "fst (explain ra perm t) = can ra perm t"
proof (cases "filter (granted perm t) (ra_bindings ra)")
  case Nil
  then show ?thesis by (auto simp: explain_def can_iff filter_empty_conv)
next
  case (Cons b bs)
  then have "b \<in> set (ra_bindings ra) \<and> granted perm t b"
    by (metis (mono_tags, lifting) list.set_intros(1) mem_Collect_eq set_filter)
  with Cons show ?thesis by (auto simp: explain_def can_iff)
qed

lemma explain_reason:
  "case snd (explain ra perm t) of
     ExplicitDeny \<Rightarrow> denied ra perm t
   | ByBinding b \<Rightarrow> \<not> denied ra perm t \<and> b \<in> set (ra_bindings ra) \<and> granted perm t b
   | OutOfScope \<Rightarrow> \<not> can ra perm t \<and> perm \<in> set (all_permissions ra)
   | NoPermission \<Rightarrow> \<not> can ra perm t \<and> perm \<notin> set (all_permissions ra)"
proof (cases "filter (granted perm t) (ra_bindings ra)")
  case Nil
  then show ?thesis by (auto simp: explain_def can_iff filter_empty_conv)
next
  case (Cons b bs)
  then have "b \<in> set (ra_bindings ra) \<and> granted perm t b"
    by (metis (mono_tags, lifting) list.set_intros(1) mem_Collect_eq set_filter)
  with Cons show ?thesis by (auto simp: explain_def)
qed

lemma can_route_gate:
  assumes "can ra perm t"
  shows "require_permission_v2 ra perm"
proof -
  from assms obtain b where "b \<in> set (ra_bindings ra)" "perm \<in> set (bd_permissions b)"
    by (auto simp: can_iff granted_def)
  then have "perm \<in> set (all_permissions ra)" by (auto simp: all_permissions_def)
  moreover have "\<not> (dn_permission d = perm \<and> dn_scope d = None)" if "d \<in> set (ra_denials ra)" for d
    using assms that by (auto simp: can_iff denied_iff)
  ultimately show ?thesis by (auto simp: require_permission_v2_def list_ex_iff)
qed

lemma global_covers: "is_global s \<Longrightarrow> vs_account s \<noteq> Some 0 \<Longrightarrow> scope_covers s t"
  by (auto simp: is_global_def scope_covers_def within_dim_def tags_match_def truthy_id_def truthy_tags_def
      split: option.splits)

subsection \<open>What the list filter shows\<close>

definition region_shown :: "string list option \<Rightarrow> string option \<Rightarrow> bool" where
  "region_shown rs region \<longleftrightarrow>
     (case rs of None \<Rightarrow> True | Some xs \<Rightarrow> (case region of None \<Rightarrow> False | Some r \<Rightarrow> r \<in> set xs))"

definition im_shows :: "nat list \<times> region_map \<Rightarrow> nat \<Rightarrow> string option \<Rightarrow> bool" where
  "im_shows im acct region \<longleftrightarrow>
     acct \<in> set (fst im) \<and> (\<exists>rs. dict_get (snd im) acct = Some rs \<and> region_shown rs region)"

definition im_ok :: "nat list \<times> region_map \<Rightarrow> bool" where
  "im_ok im \<longleftrightarrow>
     dict_wf (snd im) \<and> (\<forall>k. dict_get (snd im) k \<noteq> Some (Some [])) \<and> (\<forall>i\<in>set (fst im). dict_get (snd im) i \<noteq> None)"

lemma filter_sql_shows:
  assumes ok: "im_ok (ids, m)"
  shows "filter_sql \<lparr>af_unrestricted = False, af_accounts = Some ids, af_regions = Some m, af_services = ss,
       af_resource_ids = rids\<rparr> row \<longleftrightarrow>
     im_shows (ids, m) (rr_account row) (rr_region row) \<and> (\<forall>xs. ss = Some xs \<longrightarrow> rr_type row \<in> set xs)"
proof (cases "ids = []")
  case True
  then show ?thesis by (simp add: filter_sql_def filter_is_empty_def im_shows_def)
next
  case False
  have wf: "dict_wf m" using ok by (simp add: im_ok_def)
  have use: "filter (\<lambda>ar. snd ar \<noteq> Some []) m = m"
    using ok dict_get_in [OF wf] by (auto simp: im_ok_def filter_id_conv)
  have ne: "m \<noteq> []" using ok False by (cases ids) (auto simp: im_ok_def)
  have clause: "region_clause row (k, v) \<longleftrightarrow> k = rr_account row \<and> region_shown v (rr_region row)"
    if "(k, v) \<in> set m" for k v
    using ok that dict_get_in [OF wf, of k v]
    by (auto simp: region_clause_def region_shown_def im_ok_def split: option.splits)
  have "list_ex (region_clause row) m \<longleftrightarrow>
      (\<exists>rs. dict_get m (rr_account row) = Some rs \<and> region_shown rs (rr_region row))"
    using clause dict_get_in [OF wf] by (fastforce simp: list_ex_iff)
  then show ?thesis using False ne use
    by (auto simp: filter_sql_def filter_is_empty_def im_shows_def split: option.splits)
qed

lemma im_ok_drop: "im_ok im \<Longrightarrow> im_ok (drop_account a im)"
  by (auto simp: im_ok_def drop_account_def split: if_splits)

lemma im_shows_drop: "im_shows (drop_account a im) acct region \<longleftrightarrow> acct \<noteq> a \<and> im_shows im acct region"
  by (auto simp: im_shows_def drop_account_def)

definition fewer_regions :: "v2_scope \<Rightarrow> string list \<Rightarrow> string list" where
  "fewer_regions s current = filter (\<lambda>r. r \<notin> set (the (vs_regions s))) current"

lemma deny_account_cases:
  obtains (Same) "deny_account s im a = im" "a \<notin> set (fst im)"
  | (Drop) "deny_account s im a = drop_account a im"
  | (Fewer) current where "dict_get (snd im) a = Some (Some current)" "fewer_regions s current \<noteq> []"
      "deny_account s im a = (fst im, dict_set (snd im) a (Some (fewer_regions s current)))"
      "truthy_list (vs_regions s)"
proof (cases "a \<in> set (fst im) \<and> precise_denial s \<and> truthy_list (vs_regions s)")
  case False
  then have "(deny_account s im a = im \<and> a \<notin> set (fst im)) \<or> deny_account s im a = drop_account a im"
    by (auto simp: deny_account_def)
  then show ?thesis using Same Drop by blast
next
  case True
  show ?thesis
  proof (cases "dict_get (snd im) a")
    case None
    then have "deny_account s im a = drop_account a im" using True by (simp add: deny_account_def)
    then show ?thesis by (rule Drop)
  next
    case (Some v)
    show ?thesis
    proof (cases v)
      case None
      then have "deny_account s im a = drop_account a im" using True Some by (simp add: deny_account_def)
      then show ?thesis by (rule Drop)
    next
      case v: (Some current)
      have "deny_account s im a = (if fewer_regions s current \<noteq> []
          then (fst im, dict_set (snd im) a (Some (fewer_regions s current))) else drop_account a im)"
        using True Some v by (simp add: deny_account_def fewer_regions_def)
      then show ?thesis using Drop Fewer Some v True by (cases "fewer_regions s current = []") auto
    qed
  qed
qed

lemma deny_account_ok:
  assumes "im_ok im"
  shows "im_ok (deny_account s im a)"
proof (cases rule: deny_account_cases [of s im a])
  case Same
  then show ?thesis using assms by simp
next
  case Drop
  then show ?thesis using assms im_ok_drop by simp
next
  case (Fewer current)
  then show ?thesis using assms by (simp add: im_ok_def)
qed

lemma deny_account_less:
  assumes "im_shows (deny_account s im a) acct region"
  shows "im_shows im acct region"
proof (cases rule: deny_account_cases [of s im a])
  case Same
  then show ?thesis using assms by simp
next
  case Drop
  then show ?thesis using assms by (simp add: im_shows_drop)
next
  case (Fewer current)
  then show ?thesis using assms
    by (cases "acct = a") (auto simp: im_shows_def region_shown_def fewer_regions_def split: option.splits)
qed

lemma deny_account_hides:
  assumes "within_dim (vs_regions s) region"
  shows "\<not> im_shows (deny_account s im acct) acct region"
proof (cases rule: deny_account_cases [of s im acct])
  case Same
  then show ?thesis by (simp add: im_shows_def)
next
  case Drop
  then show ?thesis by (simp add: im_shows_drop)
next
  case (Fewer current)
  then obtain rs r where "vs_regions s = Some rs" "region = Some r" "r \<in> set rs"
    using assms by (auto simp: within_dim_def truthy_list_def split: option.splits)
  then show ?thesis using Fewer by (simp add: im_shows_def region_shown_def fewer_regions_def)
qed

lemma deny_accounts_ok: "im_ok im \<Longrightarrow> im_ok (foldl (deny_account s) im as)"
  by (induction as arbitrary: im) (simp_all add: deny_account_ok)

lemma deny_accounts_less: "im_shows (foldl (deny_account s) im as) acct region \<Longrightarrow> im_shows im acct region"
proof (induction as arbitrary: im)
  case (Cons a as)
  from Cons.IH [of "deny_account s im a"] Cons.prems have "im_shows (deny_account s im a) acct region" by simp
  then show ?case by (rule deny_account_less)
qed simp

lemma deny_accounts_hide:
  assumes "within_dim (vs_regions s) region"
  shows "acct \<in> set as \<Longrightarrow> \<not> im_shows (foldl (deny_account s) im as) acct region"
proof (induction as arbitrary: im)
  case (Cons a as)
  show ?case
  proof (cases "acct = a")
    case True
    then show ?thesis using deny_account_hides [OF assms, of im acct] deny_accounts_less by fastforce
  next
    case False
    then show ?thesis using Cons by simp
  qed
qed simp

lemma apply_denials_ok: "im_ok im \<Longrightarrow> im_ok (foldl (apply_denial accs) im ss)"
  by (induction ss arbitrary: im) (simp_all add: apply_denial_def deny_accounts_ok)

lemma apply_denials_less: "im_shows (foldl (apply_denial accs) im ss) acct region \<Longrightarrow> im_shows im acct region"
proof (induction ss arbitrary: im)
  case (Cons s ss)
  from Cons.IH [of "apply_denial accs im s"] Cons.prems have "im_shows (apply_denial accs im s) acct region" by simp
  then show ?case unfolding apply_denial_def by (rule deny_accounts_less)
qed simp

lemma apply_denials_hide:
  assumes "within_dim (vs_regions s) region" "acct \<in> set (denied_accounts accs s)"
  shows "s \<in> set ss \<Longrightarrow> \<not> im_shows (foldl (apply_denial accs) im ss) acct region"
proof (induction ss arbitrary: im)
  case (Cons x ss)
  show ?case
  proof (cases "s = x")
    case True
    then have "\<not> im_shows (apply_denial accs im x) acct region"
      using deny_accounts_hide [OF assms(1,2), of im] by (simp add: apply_denial_def)
    then show ?thesis using apply_denials_less by fastforce
  next
    case False
    then show ?thesis using Cons by simp
  qed
qed simp

subsection \<open>The bindings of the filter\<close>

lemma add_regions_ok:
  assumes "im_ok (ids, m)"
  shows "im_ok (ids @ as, foldl (add_regions s) m as)"
  using assms
proof (induction as arbitrary: ids m)
  case (Cons a as)
  have "im_ok (ids @ [a], add_regions s m a)"
    using Cons.prems by (auto simp: im_ok_def add_regions_def truthy_list_def split: option.splits)
  from Cons.IH [OF this] show ?case by simp
qed simp

lemma add_region_keeps:
  "dict_get m acct = Some rs \<Longrightarrow> region_shown rs region \<Longrightarrow>
     \<exists>rs'. dict_get (add_regions s m a) acct = Some rs' \<and> region_shown rs' region"
  by (auto simp: add_regions_def region_shown_def split: option.splits)

lemma add_region_shows:
  "within_dim (vs_regions s) region \<Longrightarrow> \<exists>rs. dict_get (add_regions s m a) a = Some rs \<and> region_shown rs region"
  by (auto simp: add_regions_def region_shown_def within_dim_def truthy_list_def split: option.splits if_splits)

lemma add_regions_keep:
  "dict_get m acct = Some rs \<Longrightarrow> region_shown rs region \<Longrightarrow>
     \<exists>rs'. dict_get (foldl (add_regions s) m as) acct = Some rs' \<and> region_shown rs' region"
proof (induction as arbitrary: m rs)
  case (Cons a as)
  from add_region_keeps [OF Cons.prems] obtain rs' where
    "dict_get (add_regions s m a) acct = Some rs'" "region_shown rs' region" by blast
  from Cons.IH [OF this] show ?case by simp
qed auto

lemma add_regions_show:
  assumes "within_dim (vs_regions s) region"
  shows "acct \<in> set as \<Longrightarrow> \<exists>rs. dict_get (foldl (add_regions s) m as) acct = Some rs \<and> region_shown rs region"
proof (induction as arbitrary: m)
  case (Cons a as)
  show ?case
  proof (cases "acct = a")
    case True
    obtain rs where "dict_get (add_regions s m a) acct = Some rs" "region_shown rs region"
      using add_region_shows [OF assms] True by blast
    from add_regions_keep [OF this] show ?thesis by simp
  next
    case False
    then show ?thesis using Cons by simp
  qed
qed simp

text \<open>What a state of the loop lets through.\<close>

definition st_shows :: "filter_state \<Rightarrow> res_row \<Rightarrow> bool" where
  "st_shows st row \<longleftrightarrow>
     (case st of (ids, m, ss, rids) \<Rightarrow>
        im_shows (ids, m) (rr_account row) (rr_region row) \<and> (\<forall>xs. ss = Some xs \<longrightarrow> rr_type row \<in> set xs))"

definition st_ok :: "filter_state \<Rightarrow> bool" where
  "st_ok st \<longleftrightarrow> (case st of (ids, m, ss, rids) \<Rightarrow> im_ok (ids, m))"

lemma add_binding_ok: "st_ok st \<Longrightarrow> st_ok (add_binding accs b st)"
  by (cases st) (simp add: st_ok_def add_binding_def add_regions_ok Let_def)

lemma add_binding_keeps:
  assumes "st_shows st row"
  shows "st_shows (add_binding accs b st) row"
proof -
  obtain ids m ss rids where st: "st = (ids, m, ss, rids)" by (cases st)
  from assms st obtain rs where rs: "rr_account row \<in> set ids" "dict_get m (rr_account row) = Some rs"
    "region_shown rs (rr_region row)" by (auto simp: st_shows_def im_shows_def)
  from add_regions_keep [OF rs(2,3)] rs(1) assms st show ?thesis
    by (auto simp: st_shows_def im_shows_def add_binding_def add_dim_def Let_def split: option.splits if_splits)
qed

lemma add_binding_shows:
  assumes "rr_account row \<in> set (matched_accounts accs (bd_scope b))"
    and "within_dim (vs_regions (bd_scope b)) (rr_region row)"
    and "within_dim (vs_services (bd_scope b)) (Some (rr_type row))"
  shows "st_shows (add_binding accs b st) row"
proof -
  obtain ids m ss rids where st: "st = (ids, m, ss, rids)" by (cases st)
  from add_regions_show [OF assms(2,1)] assms(1,3) st show ?thesis
    by (auto simp: st_shows_def im_shows_def add_binding_def add_dim_def within_dim_def truthy_list_def Let_def
        split: option.splits if_splits)
qed

lemma add_bindings_ok: "st_ok st \<Longrightarrow> st_ok (foldl (\<lambda>st b. add_binding accs b st) st bs)"
  by (induction bs arbitrary: st) (simp_all add: add_binding_ok)

lemma add_bindings_keep: "st_shows st row \<Longrightarrow> st_shows (foldl (\<lambda>st b. add_binding accs b st) st bs) row"
  by (induction bs arbitrary: st) (simp_all add: add_binding_keeps)

lemma add_bindings_show:
  assumes "rr_account row \<in> set (matched_accounts accs (bd_scope b))"
    and "within_dim (vs_regions (bd_scope b)) (rr_region row)"
    and "within_dim (vs_services (bd_scope b)) (Some (rr_type row))"
  shows "b \<in> set bs \<Longrightarrow> st_shows (foldl (\<lambda>st b. add_binding accs b st) st bs) row"
proof (induction bs arbitrary: st)
  case (Cons x bs)
  then show ?case
    using add_bindings_keep [OF add_binding_shows [OF assms]] by (cases "b = x") auto
qed simp

subsection \<open>The filter against the decision\<close>

text \<open>\<open>t\<close> is a target that is this row: what it says beyond the row's columns is open.\<close>

definition is_row :: "cloud_account list \<Rightarrow> res_row \<Rightarrow> target \<Rightarrow> bool" where
  "is_row accs row t \<longleftrightarrow>
     tg_account t = Some (rr_account row) \<and> tg_region t = rr_region row \<and> tg_service t = Some (rr_type row) \<and>
     list_ex (\<lambda>a. ca_id a = rr_account row \<and> ca_provider a = tg_cloud t) accs"

text \<open>Scopes never name an empty cloud or the account 0.\<close>

definition scope_wf :: "v2_scope \<Rightarrow> bool" where
  "scope_wf s \<longleftrightarrow> vs_cloud s \<noteq> Some [] \<and> vs_account s \<noteq> Some 0"

definition access_wf :: "resolved_access \<Rightarrow> bool" where
  "access_wf ra \<longleftrightarrow>
     list_all (\<lambda>b. scope_wf (bd_scope b)) (ra_bindings ra) \<and>
     list_all (\<lambda>d. case dn_scope d of None \<Rightarrow> True | Some s \<Rightarrow> scope_wf s) (ra_denials ra)"

lemma covers_dims:
  assumes "scope_covers s t"
  shows "within_dim (vs_regions s) (tg_region t)" "within_dim (vs_services s) (tg_service t)"
    "vs_account s = None \<or> vs_account s = tg_account t" "vs_cloud s \<noteq> Some [] \<Longrightarrow> vs_cloud s = None \<or> vs_cloud s = tg_cloud t"
  using assms by (auto simp: scope_covers_def truthy_str_def split: if_splits option.splits)

lemma covered_denied_account:
  assumes "scope_covers s t" "is_row accs row t" "scope_wf s"
  shows "rr_account row \<in> set (denied_accounts accs s)"
proof -
  from assms(2) obtain a where a: "a \<in> set accs" "ca_id a = rr_account row" "ca_provider a = tg_cloud t"
    by (auto simp: is_row_def list_ex_iff)
  moreover have "(vs_account s = None \<or> vs_account s = Some (ca_id a)) \<and> (vs_cloud s = None \<or> ca_provider a = vs_cloud s)"
    using covers_dims(3,4) [OF assms(1)] assms(2,3) a by (auto simp: is_row_def scope_wf_def)
  ultimately show ?thesis unfolding denied_accounts_def by force
qed

lemma covered_matched_account:
  assumes "scope_covers s t" "is_row accs row t" "scope_wf s"
  shows "rr_account row \<in> set (matched_accounts accs s)"
proof (cases "vs_account s")
  case (Some i)
  then show ?thesis using covers_dims(3) [OF assms(1)] assms(2) by (simp add: matched_accounts_def is_row_def)
next
  case None
  from assms(2) obtain a where a: "a \<in> set accs" "ca_id a = rr_account row" "ca_provider a = tg_cloud t"
    by (auto simp: is_row_def list_ex_iff)
  moreover have "vs_cloud s = None \<or> ca_provider a = vs_cloud s"
    using covers_dims(4) [OF assms(1)] assms(3) a by (auto simp: scope_wf_def)
  ultimately show ?thesis using None unfolding matched_accounts_def by force
qed

text \<open>The state before denials are subtracted.\<close>

definition start_state :: "cloud_account list \<Rightarrow> v2_binding list \<Rightarrow> filter_state" where
  "start_state accs relevant =
     (if list_ex (\<lambda>b. is_global (bd_scope b)) relevant
      then (map ca_id accs, map (\<lambda>a. (ca_id a, None)) accs, None, None)
      else foldl (\<lambda>st b. add_binding accs b st) ([], [], Some [], Some []) relevant)"

lemma start_state_ok:
  assumes "distinct (map ca_id accs)"
  shows "st_ok (start_state accs relevant)"
proof -
  let ?m = "map (\<lambda>a. (ca_id a, None)) accs :: region_map"
  have keys: "dict_keys ?m = map ca_id accs" by (simp add: dict_keys_def comp_def)
  then have "dict_wf ?m" using assms by (simp add: dict_wf_def)
  moreover have "dict_get ?m k \<noteq> Some (Some rs)" for k rs
    using dict_get_in [OF calculation] by auto
  moreover have "dict_get ?m i \<noteq> None" if "i \<in> set (map ca_id accs)" for i
    using that keys by (simp add: dict_get_None_iff)
  ultimately have "im_ok (map ca_id accs, ?m)" by (simp add: im_ok_def)
  moreover have "st_ok ([], [], Some [], Some [])" by (simp add: st_ok_def im_ok_def)
  ultimately show ?thesis by (simp add: start_state_def add_bindings_ok) (simp add: st_ok_def)
qed

lemma accessible_filter_eq:
  assumes "relevant_bindings ra perm \<noteq> []" and "\<And>d. d \<in> set (applicable_denials ra perm) \<Longrightarrow> dn_scope d \<noteq> None"
    and "\<not> (list_ex (\<lambda>b. is_global (bd_scope b)) (relevant_bindings ra perm) \<and> applicable_denials ra perm = [])"
    and "start_state accs (relevant_bindings ra perm) = (ids, m, ss, rids)"
    and "foldl (apply_denial accs) (ids, m) (List.map_filter dn_scope (applicable_denials ra perm)) = (ids', m')"
  shows "accessible_filter accs ra perm =
     \<lparr>af_unrestricted = False, af_accounts = Some ids', af_regions = Some m', af_services = ss, af_resource_ids = rids\<rparr>"
proof -
  have "\<not> list_ex (\<lambda>d. dn_scope d = None) (applicable_denials ra perm)"
    using assms(2) by (auto simp: list_ex_iff)
  then show ?thesis using assms(1,3,4,5)
    by (simp add: accessible_filter_def Let_def start_state_def split: if_splits)
qed

lemma filter_sql_no_access [simp]: "\<not> filter_sql no_access row"
  by (simp add: filter_sql_def no_access_def filter_is_empty_def)

lemma denied_rows_hidden:
  assumes ids: "distinct (map ca_id accs)" and wf: "access_wf ra" and row: "is_row accs row t"
    and den: "denied ra perm t"
  shows "\<not> filter_sql (accessible_filter accs ra (Some perm)) row"
proof -
  let ?rel = "relevant_bindings ra (Some perm)" and ?den = "applicable_denials ra (Some perm)"
  from den obtain d where d: "d \<in> set ?den" "\<And>s. dn_scope d = Some s \<Longrightarrow> scope_covers s t" "d \<in> set (ra_denials ra)"
    by (auto simp: denied_iff applicable_denials_def)
  show ?thesis
  proof (cases "?rel = [] \<or> (\<exists>d\<in>set ?den. dn_scope d = None)")
    case True
    then have "accessible_filter accs ra (Some perm) = no_access"
      by (auto simp: accessible_filter_def Let_def list_ex_iff)
    then show ?thesis by simp
  next
    case False
    then obtain s where s: "dn_scope d = Some s" using d(1) by auto
    obtain ids' m ss rids where st: "start_state accs ?rel = (ids', m, ss, rids)"
      by (cases "start_state accs ?rel")
    obtain ids2 m2 where fin: "foldl (apply_denial accs) (ids', m) (List.map_filter dn_scope ?den) = (ids2, m2)"
      by (cases "foldl (apply_denial accs) (ids', m) (List.map_filter dn_scope ?den)")
    have ne: "?den \<noteq> []" using d(1) by auto
    have in_s: "s \<in> set (List.map_filter dn_scope ?den)"
      using d(1) s by (auto simp: set_map_filter_iff)
    have "scope_wf s" using wf d(3) s by (auto simp: access_wf_def list_all_iff split: option.splits)
    then have acct: "rr_account row \<in> set (denied_accounts accs s)"
      using covered_denied_account d(2) [OF s] row by blast
    have reg: "within_dim (vs_regions s) (rr_region row)"
      using covers_dims(1) [OF d(2) [OF s]] row by (simp add: is_row_def)
    have "\<not> im_shows (ids2, m2) (rr_account row) (rr_region row)"
      using apply_denials_hide [OF reg acct in_s, of "(ids', m)"] fin by simp
    moreover have "im_ok (ids2, m2)"
      using apply_denials_ok [of "(ids', m)" accs "List.map_filter dn_scope ?den"] fin start_state_ok [OF ids, of ?rel] st
      by (simp add: st_ok_def)
    ultimately show ?thesis
      using accessible_filter_eq [OF _ _ _ st fin] False ne by (simp add: filter_sql_shows)
  qed
qed

lemma allowed_rows_shown:
  assumes ids: "distinct (map ca_id accs)" and wf: "access_wf ra" and row: "is_row accs row t"
    and none: "applicable_denials ra (Some perm) = []" and ok: "can ra perm t"
  shows "filter_sql (accessible_filter accs ra (Some perm)) row"
proof -
  let ?rel = "relevant_bindings ra (Some perm)"
  from ok obtain b where b: "b \<in> set ?rel" "scope_covers (bd_scope b) t" "b \<in> set (ra_bindings ra)"
    by (auto simp: can_iff granted_def relevant_bindings_def)
  then have ne: "?rel \<noteq> []" by auto
  show ?thesis
  proof (cases "list_ex (\<lambda>b. is_global (bd_scope b)) ?rel")
    case True
    then show ?thesis using ne none by (simp add: accessible_filter_def filter_sql_def)
  next
    case False
    obtain ids' m ss rids where st: "start_state accs ?rel = (ids', m, ss, rids)"
      by (cases "start_state accs ?rel")
    have "scope_wf (bd_scope b)" using wf b(3) by (auto simp: access_wf_def list_all_iff)
    then have acct: "rr_account row \<in> set (matched_accounts accs (bd_scope b))"
      using covered_matched_account b(2) row by blast
    have dims: "within_dim (vs_regions (bd_scope b)) (rr_region row)"
      "within_dim (vs_services (bd_scope b)) (Some (rr_type row))"
      using covers_dims(1,2) [OF b(2)] row by (simp_all add: is_row_def)
    have "st_shows (start_state accs ?rel) row"
      using add_bindings_show [OF acct dims b(1)] False by (simp add: start_state_def)
    then have "im_shows (ids', m) (rr_account row) (rr_region row)" "\<forall>xs. ss = Some xs \<longrightarrow> rr_type row \<in> set xs"
      using st by (simp_all add: st_shows_def)
    moreover have "im_ok (ids', m)" using start_state_ok [OF ids, of ?rel] st by (simp add: st_ok_def)
    ultimately show ?thesis
      using accessible_filter_eq [OF ne _ _ st, of ids' m] none False by (simp add: filter_sql_shows)
  qed
qed

subsection \<open>Granting is contained\<close>

lemma list_contains_dim: "list_contains outer inner \<Longrightarrow> within_dim inner v \<Longrightarrow> within_dim outer v"
  by (auto simp: list_contains_def within_dim_def truthy_list_def split: option.splits if_splits)

text \<open>
  Whatever an inner scope covers the outer one covers, as long as the target carries the tags the
  outer scope selects: the containment check does not look at tag selectors.
\<close>

lemma scope_contains_covers:
  assumes "scope_contains outer inner" "scope_covers inner t" "scope_wf outer" "tags_match (vs_tags outer) (tg_tags t)"
  shows "scope_covers outer t"
proof (cases "is_global outer")
  case True
  then show ?thesis using global_covers assms(3) by (simp add: scope_wf_def)
next
  case False
  then have c: "truthy_str (vs_cloud outer) \<Longrightarrow> vs_cloud inner = vs_cloud outer"
    "vs_account outer \<noteq> None \<Longrightarrow> vs_account inner = vs_account outer"
    "list_contains (vs_regions outer) (vs_regions inner)" "list_contains (vs_services outer) (vs_services inner)"
    "list_contains (vs_resource_groups outer) (vs_resource_groups inner)"
    "list_contains (vs_resource_ids outer) (vs_resource_ids inner)"
    using assms(1) by (auto simp: scope_contains_def split: if_splits)
  have i: "truthy_str (vs_cloud inner) \<Longrightarrow> tg_cloud t = vs_cloud inner"
    "vs_account inner \<noteq> None \<Longrightarrow> tg_account t = vs_account inner"
    "within_dim (vs_regions inner) (tg_region t)" "within_dim (vs_services inner) (tg_service t)"
    "within_dim (vs_resource_groups inner) (tg_resource_group t)" "within_dim (vs_resource_ids inner) (tg_resource_id t)"
    using assms(2) by (auto simp: scope_covers_def split: if_splits)
  have "\<not> (truthy_str (vs_cloud outer) \<and> tg_cloud t \<noteq> vs_cloud outer)" using c(1) i(1) by auto
  moreover have "\<not> (vs_account outer \<noteq> None \<and> tg_account t \<noteq> vs_account outer)" using c(2) i(2) by metis
  ultimately show ?thesis using c(3-) i(3-) assms(4) list_contains_dim by (simp add: scope_covers_def)
qed

subsection \<open>The two walks over the groups\<close>

definition parents_exist :: "org_group list \<Rightarrow> bool" where
  "parents_exist gs \<longleftrightarrow> list_all (\<lambda>g. case og_parent g of None \<Rightarrow> True | Some p \<Rightarrow> get_group gs p \<noteq> None) gs"

lemma parent_walk_chain:
  "parents_exist gs \<Longrightarrow> (case current of None \<Rightarrow> True | Some i \<Rightarrow> get_group gs i \<noteq> None) \<Longrightarrow>
     parent_walk gs seen current = map og_id (group_chain gs seen current)"
proof (induction gs seen current rule: group_chain.induct)
  case (1 gs seen current)
  show ?case
  proof (cases "\<exists>i. current = Some i \<and> i \<notin> set seen")
    case False
    then show ?thesis
      by (cases current) (simp_all add: parent_walk.simps [of gs seen] group_chain.simps [of gs seen])
  next
    case True
    then obtain i where i: "current = Some i" "i \<notin> set seen" by blast
    then obtain g where g: "get_group gs i = Some g" using "1.prems"(2) by auto
    then have gi: "og_id g = i" "g \<in> set gs" by (auto simp: get_group_def find_Some_iff)
    then have "case og_parent g of None \<Rightarrow> True | Some p \<Rightarrow> get_group gs p \<noteq> None"
      using "1.prems"(1) by (auto simp: parents_exist_def list_all_iff)
    with "1.IH" [OF i g "1.prems"(1)] i g gi show ?thesis
      by (simp add: parent_walk.simps [of gs seen] group_chain.simps [of gs seen])
  qed
qed

lemma principal_groups_chain:
  assumes "parents_exist (db_groups db)"
    and "list_all (\<lambda>i. get_group (db_groups db) i \<noteq> None) (get_user_group_memberships db uid)"
  shows "principal_group_ids db uid = inherited_group_ids db uid"
proof -
  have "parent_walk (db_groups db) [] (Some i) = map og_id (get_group_chain (db_groups db) i)"
    if "i \<in> set (get_user_group_memberships db uid)" for i
    using parent_walk_chain [OF assms(1), of "Some i" "[]"] assms(2) that
    by (simp add: get_group_chain_def list_all_iff)
  then have eq: "map (\<lambda>i. parent_walk (db_groups db) [] (Some i)) (get_user_group_memberships db uid) =
      map (\<lambda>i. map og_id (get_group_chain (db_groups db) i)) (get_user_group_memberships db uid)"
    by simp
  show ?thesis
    by (simp only: principal_group_ids_def inherited_group_ids_def inherited_groups_def map_concat list.map_comp
        comp_def eq)
qed

subsection \<open>The cache is never old\<close>

text \<open>
  \<open>hist t\<close> are the tables at time \<open>t\<close>. A request that misses takes the time, reads the tables
  (at some later moment) and stores what it made of them, possibly after other requests have
  stored or invalidated: \<open>inflight\<close> are the requests between reading and storing.
\<close>

type_synonym cache_world = "secs \<times> access_cache \<times> (secs \<times> user \<times> resolved_access) list"

inductive cache_step :: "(secs \<Rightarrow> rbac_db) \<Rightarrow> cache_world \<Rightarrow> cache_world \<Rightarrow> bool" for hist where
  Load: "now \<le> t0 \<Longrightarrow> t0 \<le> t1 \<Longrightarrow> cache_hit c t0 (us_id u) = None \<Longrightarrow>
    cache_step hist (now, c, inflight) (t1, c, (t0, u, load_access (hist t1) u) # inflight)"
| Store: "(t0, u, ra) \<in> set inflight \<Longrightarrow> now \<le> t1 \<Longrightarrow>
    cache_step hist (now, c, inflight) (t1, cache_store c t0 (us_id u) ra, remove1 (t0, u, ra) inflight)"
| Invalidate: "now \<le> t1 \<Longrightarrow> cache_step hist (now, c, inflight) (t1, invalidate_principal c who, inflight)"

inductive cache_run :: "(secs \<Rightarrow> rbac_db) \<Rightarrow> cache_world \<Rightarrow> bool" for hist where
  Start: "cache_run hist (t, [], [])"
| Step: "cache_run hist w \<Longrightarrow> cache_step hist w w' \<Longrightarrow> cache_run hist w'"

inductive_cases cache_stepE: "cache_step hist w w'"

definition loaded :: "(secs \<Rightarrow> rbac_db) \<Rightarrow> secs \<Rightarrow> secs \<Rightarrow> nat \<Rightarrow> resolved_access \<Rightarrow> bool" where
  "loaded hist now t0 uid ra \<longleftrightarrow>
     (\<exists>u t. us_id u = uid \<and> t0 \<le> t \<and> t \<le> now \<and> ra = load_access (hist t) u)"

definition cache_inv :: "(secs \<Rightarrow> rbac_db) \<Rightarrow> cache_world \<Rightarrow> bool" where
  "cache_inv hist w \<longleftrightarrow>
     (case w of (now, c, inflight) \<Rightarrow>
        (\<forall>uid e ra. dict_get c uid = Some (e, ra) \<longrightarrow> loaded hist now (e - CACHE_TTL_SECONDS) uid ra) \<and>
        (\<forall>t0 u ra. (t0, u, ra) \<in> set inflight \<longrightarrow> loaded hist now t0 (us_id u) ra))"

lemma loaded_later: "loaded hist now t0 uid ra \<Longrightarrow> now \<le> t \<Longrightarrow> loaded hist t t0 uid ra"
  unfolding loaded_def by (elim exE conjE, rule exI, rule exI, intro conjI) (assumption | simp)+

lemma cache_inv_step: "cache_inv hist w \<Longrightarrow> cache_step hist w w' \<Longrightarrow> cache_inv hist w'"
proof (erule cache_stepE)
  fix now t0 t1 :: secs and c u inflight
  assume inv: "cache_inv hist w" and w: "w = (now, c, inflight)" and le: "now \<le> t0" "t0 \<le> t1"
    and w': "w' = (t1, c, (t0, u, load_access (hist t1) u) # inflight)"
  have "loaded hist t1 t0 (us_id u) (load_access (hist t1) u)" using le unfolding loaded_def by blast
  then show "cache_inv hist w'" using inv le loaded_later [of hist now _ _ _ t1] unfolding w w' cache_inv_def by auto
next
  fix t0 t1 now :: secs and u ra inflight c
  assume inv: "cache_inv hist w" and w: "w = (now, c, inflight)" and m: "(t0, u, ra) \<in> set inflight" "now \<le> t1"
    and w': "w' = (t1, cache_store c t0 (us_id u) ra, remove1 (t0, u, ra) inflight)"
  have "loaded hist now t0 (us_id u) ra" using inv m unfolding w cache_inv_def by auto
  then show "cache_inv hist w'" using inv m(2) loaded_later [of hist now _ _ _ t1]
    unfolding w w' cache_inv_def cache_store_def by (auto split: if_splits dest: notin_set_remove1 set_remove1_subset [THEN subsetD])
next
  fix now t1 :: secs and c inflight who
  assume inv: "cache_inv hist w" and w: "w = (now, c, inflight)" and le: "now \<le> t1"
    and w': "w' = (t1, invalidate_principal c who, inflight)"
  have "dict_get (invalidate_principal c who) uid = Some v \<Longrightarrow> dict_get c uid = Some v" for uid v
    by (auto simp: invalidate_principal_def split: option.splits if_splits)
  then show "cache_inv hist w'" using inv le loaded_later [of hist now _ _ _ t1] unfolding w w' cache_inv_def by auto
qed

lemma cache_run_inv: "cache_run hist w \<Longrightarrow> cache_inv hist w"
proof (induction rule: cache_run.induct)
  case (Start t)
  show ?case by (simp add: cache_inv_def)
next
  case (Step w w')
  then show ?case using cache_inv_step by blast
qed

lemma cache_hit_fresh:
  assumes "cache_run hist (now, c, inflight)" "now \<le> t" "cache_hit c t uid = Some ra"
  shows "\<exists>u t'. us_id u = uid \<and> t - CACHE_TTL_SECONDS < t' \<and> t' \<le> t \<and> ra = load_access (hist t') u"
proof -
  from assms(3) obtain e where e: "dict_get c uid = Some (e, ra)" "t < e"
    by (auto simp: cache_hit_def split: option.splits if_splits)
  with cache_run_inv [OF assms(1)] have "loaded hist now (e - CACHE_TTL_SECONDS) uid ra"
    by (auto simp: cache_inv_def)
  then obtain u t' where "us_id u = uid" "e - CACHE_TTL_SECONDS \<le> t'" "t' \<le> now" "ra = load_access (hist t') u"
    unfolding loaded_def by blast
  with assms(2) e(2) show ?thesis by (intro exI [of _ u] exI [of _ t']) auto
qed

end
