(* ===== verification/Env_Tags.thy ===== *)
theory Env_Tags
  imports Env_Classifier
begin

text \<open>
  The rest of \<open>app/environment_classifier.py\<close>: whether a resource's stored tags are its own, how
  its environment tag compares with the standard, which standard tags are missing, and the
  warnings about two pieces of evidence that disagree.
\<close>

subsection \<open>The standard\<close>

definition MANDATORY_TAGS :: "string list" where
  "MANDATORY_TAGS = [''Environment'', ''Application'', ''Owner'', ''CostCenter'', ''Criticality'',
     ''DataClassification'', ''ManagedBy'']"

definition ESSENTIAL_TAGS :: "string list" where
  "ESSENTIAL_TAGS = [''Environment'', ''Criticality'', ''Owner'', ''Application'']"

definition TAGS_COLLECTED_TYPES :: "string list" where
  "TAGS_COLLECTED_TYPES = [''ec2'', ''rds'', ''efs'', ''autoscaling'', ''transitgateway'', ''vpn'']"

definition TAG_SYNC_TYPES :: "string list" where
  "TAG_SYNC_TYPES =
     [''s3'', ''logs'', ''kms'', ''lambda'', ''elb'', ''sqs'', ''sns'', ''natgateway'', ''certificatemanager'',
      ''cloudfront'', ''kinesis'', ''wafv2'', ''backup'', ''events'', ''dynamodb'', ''eks'', ''firehose'']"

definition AZURE_TAGGED_TYPES :: "string list" where
  "AZURE_TAGGED_TYPES =
     [''vm'', ''storage_account'', ''sql_database'', ''app_service'', ''function_app'', ''vmss'', ''aks_cluster'',
      ''cosmosdb_account'', ''redis_cache'', ''service_bus_namespace'', ''eventhub_namespace'', ''load_balancer'',
      ''application_gateway'', ''vpn_gateway'', ''key_vault'', ''container_instance'', ''cdn_profile'', ''data_factory'',
      ''managed_disk'']"

definition GCP_LABELED_TYPES :: "string list" where
  "GCP_LABELED_TYPES =
     [''compute_instance'', ''gcs_bucket'', ''cloudsql_instance'', ''cloud_run_service'', ''gke_cluster'',
      ''cloudfunctions_function'', ''pubsub_topic'', ''pubsub_subscription'', ''cloud_lb'', ''redis_instance'',
      ''spanner_instance'', ''gce_persistent_disk'']"

definition PROVIDER_TAG_TYPES :: "(string, string list) dict" where
  "PROVIDER_TAG_TYPES = [(''azure'', AZURE_TAGGED_TYPES), (''gcp'', GCP_LABELED_TYPES)]"

text \<open>\<open>str(x or "").lower()\<close>.\<close>

definition low_text :: "string option \<Rightarrow> string" where
  "low_text v = (case v of None \<Rightarrow> [] | Some s \<Rightarrow> lower s)"

subsection \<open>Whose tags they are\<close>

definition parse_synced :: "raw_tags \<Rightarrow> tags_dict option" where
  "parse_synced raw =
     (case raw of
        TagsNull \<Rightarrow> None
      | TagsDict d \<Rightarrow> Some d
      | TagsText r \<Rightarrow> (case r of LObject d \<Rightarrow> Some d | LBad \<Rightarrow> None | LNonObject \<Rightarrow> None))"

definition synced_usable :: "string option \<Rightarrow> tags_dict option \<Rightarrow> bool" where
  "synced_usable rtype synced \<longleftrightarrow> synced \<noteq> None \<and> low_text rtype \<in> set TAG_SYNC_TYPES"

definition effective_tags :: "string option \<Rightarrow> raw_tags \<Rightarrow> tags_dict option \<Rightarrow> tags_dict" where
  "effective_tags rtype tags synced = (if synced_usable rtype synced then the synced else tags_dict tags)"

definition has_key :: "tags_dict \<Rightarrow> string \<Rightarrow> bool" where
  "has_key d k \<longleftrightarrow> dict_get d k \<noteq> None"

definition tags_known :: "string option \<Rightarrow> raw_tags \<Rightarrow> tags_dict option \<Rightarrow> string option \<Rightarrow> bool" where
  "tags_known rtype tags synced provider =
     (case dict_get PROVIDER_TAG_TYPES (low_text provider) of
        Some types \<Rightarrow> low_text rtype \<in> set types
      | None \<Rightarrow>
          if low_text rtype \<in> set TAGS_COLLECTED_TYPES then True
          else if synced_usable (Some (low_text rtype)) synced then True
          else if low_text rtype = ''ebs'' then \<not> has_key (tags_dict tags) ''parent_ec2''
          else False)"

subsection \<open>The state of the environment tag\<close>

datatype tag_status = TsOk | TsNonstandard | TsInvalid | TsMissing | TsNotChecked

definition standard_key :: "string option \<Rightarrow> string" where
  "standard_key provider = (if low_text provider = ''gcp'' then ''environment'' else ''Environment'')"

definition standard_value :: "tags_dict \<Rightarrow> string \<Rightarrow> string" where
  "standard_value d key = (case dict_get d key of None \<Rightarrow> [] | Some v \<Rightarrow> py_str v)"

definition tag_state :: "string option \<Rightarrow> raw_tags \<Rightarrow> tags_dict option \<Rightarrow> string option \<Rightarrow> tag_status" where
  "tag_state rtype tags synced provider =
     (if \<not> tags_known rtype tags synced provider then TsNotChecked
      else
        (let d = effective_tags rtype tags synced in
         if standard_value d (standard_key provider) \<in> set (map tier_value TIERS) then TsOk
         else if \<not> list_ex (\<lambda>kv. fold_key (fst kv) \<in> set TAG_KEYS) d then TsMissing
         else (case from_tags (TagsDict d) of Some _ \<Rightarrow> TsNonstandard | None \<Rightarrow> TsInvalid)))"

definition tag_environment :: "raw_tags \<Rightarrow> tier option" where
  "tag_environment tags = map_option env (from_tags tags)"

definition missing_tags :: "raw_tags \<Rightarrow> string list option \<Rightarrow> string list" where
  "missing_tags tags keys =
     (let have = map (\<lambda>kv. fold_key (fst kv)) (tags_dict tags);
          wanted = (case keys of None \<Rightarrow> MANDATORY_TAGS | Some ks \<Rightarrow> if ks = [] then MANDATORY_TAGS else ks)
      in filter (\<lambda>k. fold_key k \<notin> set have) wanted)"

subsection \<open>Warnings\<close>

datatype warning = ManualVsTag | TagVsName | ManualVsName | VolumeVsInstance

definition kind_text :: "warning \<Rightarrow> string" where
  "kind_text k = (case k of ManualVsTag \<Rightarrow> ''manual_vs_tag'' | TagVsName \<Rightarrow> ''tag_vs_name''
     | ManualVsName \<Rightarrow> ''manual_vs_name'' | VolumeVsInstance \<Rightarrow> ''volume_vs_instance'')"

definition WARNING_KINDS :: "warning list" where
  "WARNING_KINDS = [ManualVsTag, TagVsName, ManualVsName, VolumeVsInstance]"

definition REASON_MAX :: nat where
  "REASON_MAX = 200"

definition clip :: "string \<Rightarrow> string" where
  "clip t = (if length t \<le> REASON_MAX then t else take (REASON_MAX - 3) t @ ''...'')"

definition name_environment :: "string option \<Rightarrow> string option \<Rightarrow> tier option" where
  "name_environment name resource_id =
     (case from_name name resource_id of
        Some h \<Rightarrow> if src h = SName then Some (env h) else None
      | None \<Rightarrow> None)"

definition tier_word :: "tier \<Rightarrow> string" where
  "tier_word t = (case t of Prod \<Rightarrow> ''prod'' | Nonprod \<Rightarrow> ''non-prod'')"

text \<open>The tier a stored override means; \<open>ignore\<close> means none here.\<close>

definition manual_tier :: "string option \<Rightarrow> tier option" where
  "manual_tier override =
     (if truthy_str override
      then (let ov = lower (strip (the override)) in if ov = [] then None else recognized_tier (Some ov))
      else None)"

definition own_tag_words :: "string option \<Rightarrow> raw_tags \<Rightarrow> string" where
  "own_tag_words rtype tags =
     (if low_text rtype = ''ebs'' \<and> has_key (tags_dict tags) ''parent_ec2''
      then ''attached instance'' @ [CHR 0x27] @ ''s tag'' else ''tag'')"

definition disagree :: "tier option \<Rightarrow> tier option \<Rightarrow> bool" where
  "disagree a b \<longleftrightarrow> a \<noteq> None \<and> b \<noteq> None \<and> a \<noteq> b"

definition disagreeing_parent :: "tier \<Rightarrow> (resolution \<times> string) list \<Rightarrow> (resolution \<times> string) option" where
  "disagreeing_parent e attached = find (\<lambda>(r, lbl). src r \<in> set RELATED_PARENT_SOURCES \<and> env r \<noteq> e) attached"

definition detect_warning ::
  "tier option \<Rightarrow> source \<Rightarrow> string option \<Rightarrow> raw_tags \<Rightarrow> string option \<Rightarrow> string option \<Rightarrow> string option
   \<Rightarrow> (resolution \<times> string) list \<Rightarrow> (warning \<times> string) option" where
  "detect_warning e source override tags name resource_id rtype attached =
     (let manual = manual_tier override;
          tag_env = tag_environment tags;
          name_env = name_environment name resource_id;
          own_tag = own_tag_words rtype tags
      in if disagree manual tag_env then
           Some (ManualVsTag, clip (''manual_vs_tag: placed as '' @ tier_word (the manual) @ '' here but the '' @
             own_tag @ '' says '' @ tier_word (the tag_env)))
         else if disagree tag_env name_env then
           Some (TagVsName, clip (''tag_vs_name: the '' @ own_tag @ '' says '' @ tier_word (the tag_env) @
             '' but the name says '' @ tier_word (the name_env)))
         else if disagree manual name_env then
           Some (ManualVsName, clip (''manual_vs_name: placed as '' @ tier_word (the manual) @
             '' here but the name says '' @ tier_word (the name_env)))
         else
           (case e of
              None \<Rightarrow> None
            | Some t \<Rightarrow>
                if source \<in> {SRelated, SUnknown} then None
                else (case disagreeing_parent t attached of
                        None \<Rightarrow> None
                      | Some (r, lbl) \<Rightarrow>
                          Some (VolumeVsInstance, clip (''volume_vs_instance: '' @ tier_word t @ '' but attached to '' @
                            lbl @ '', which is '' @ tier_word (env r))))))"

text \<open>\<open>str(message).split(":", 1)[0].strip()\<close>, looked up among the kinds.\<close>

definition warning_kind :: "string option \<Rightarrow> warning option" where
  "warning_kind message =
     (case message of
        None \<Rightarrow> None
      | Some m \<Rightarrow>
          if m = [] then None
          else (let kind = strip (takeWhile (\<lambda>c. c \<noteq> CHR '':'') m)
                in find (\<lambda>k. kind_text k = kind) WARNING_KINDS))"

subsection \<open>What the state says\<close>

lemma dict_get_in_set: "dict_get d k = Some v \<Longrightarrow> (k, v) \<in> set d"
  by (simp add: dict_get_def map_of_SomeD)

lemma folded_keys:
  "dict_get (folded_tags kvs acc) k \<noteq> None \<longleftrightarrow> dict_get acc k \<noteq> None \<or> (\<exists>kv\<in>set kvs. fold_key (fst kv) = k)"
  by (induction kvs acc rule: folded_tags.induct) (auto split: option.splits)

lemma first_tag_hit_key:
  "first_tag_hit f ks = Some r \<Longrightarrow> \<exists>k\<in>set ks. dict_get f k \<noteq> None"
  by (induction f ks rule: first_tag_hit.induct) (auto split: option.splits prod.splits)

lemma from_tags_key:
  assumes "from_tags (TagsDict d) = Some r"
  shows "list_ex (\<lambda>kv. fold_key (fst kv) \<in> set TAG_KEYS) d"
proof -
  from assms obtain k where "k \<in> set TAG_KEYS" "dict_get (folded_tags d []) k \<noteq> None"
    using first_tag_hit_key by (fastforce simp: from_tags_def tags_dict_def)
  then show ?thesis using folded_keys [of d "[]" k] by (auto simp: list_ex_iff)
qed

text \<open>A folded key stands for the first tag in the dictionary that folds to it.\<close>

lemma folded_first:
  "dict_get (folded_tags kvs acc) k =
     (case dict_get acc k of Some v \<Rightarrow> Some v | None \<Rightarrow> find (\<lambda>kv. fold_key (fst kv) = k) kvs)"
  by (induction kvs acc rule: folded_tags.induct) (auto split: option.splits)

lemma normalize_stored:
  "normalize_tier (Some ''prod'') = Some Prod" "normalize_tier (Some ''nonprod'') = Some Nonprod"
  by code_simp+

lemma normalize_tier_value [simp]: "normalize_tier (Some (tier_value t)) = Some t"
  by (cases t) (simp_all add: tier_value_def normalize_stored)

lemma environment_folds:
  "fold_key ''environment'' = ''environment''" "fold_key ''Environment'' = ''environment''"
  by code_simp+

lemma standard_key_folds [simp]: "fold_key (standard_key p) = ''environment''"
  by (simp add: standard_key_def environment_folds)

lemma standard_tag_decides:
  assumes v: "standard_value d (standard_key p) = tier_value t"
    and only: "filter (\<lambda>kv. fold_key (fst kv) = ''environment'') d = [kv]"
  shows "tag_environment (TagsDict d) = Some t"
proof -
  have "tier_value t \<noteq> []" by (cases t) (simp_all add: tier_value_def)
  then obtain w where w: "dict_get d (standard_key p) = Some w" "py_str w = tier_value t"
    using v by (auto simp: standard_value_def split: option.splits)
  then have "(standard_key p, w) \<in> set (filter (\<lambda>kv. fold_key (fst kv) = ''environment'') d)"
    using dict_get_in_set by fastforce
  then have kv: "kv = (standard_key p, w)" using only by simp
  have "find (\<lambda>kv. fold_key (fst kv) = ''environment'') d = Some kv"
    using only by (simp add: find_filter_hd)
  then have "dict_get (folded_tags d []) ''environment'' = Some (standard_key p, w)"
    by (simp add: folded_first kv)
  moreover have "jval_opt w = Some (tier_value t)"
    using w(2) by (cases w) (cases t; auto simp: py_str_def jval_opt_def tier_value_def)+
  ultimately show ?thesis
    by (simp add: tag_environment_def from_tags_def tags_dict_def TAG_KEYS_def)
qed

text \<open>What each state promises about the environment the tags give.\<close>

lemma tag_state_cases:
  assumes "tags_known rtype tags synced provider"
  defines "d \<equiv> effective_tags rtype tags synced"
  shows "case tag_state rtype tags synced provider of
      TsOk \<Rightarrow> (\<exists>t. standard_value d (standard_key provider) = tier_value t)
    | TsNonstandard \<Rightarrow> tag_environment (TagsDict d) \<noteq> None \<and>
        (\<nexists>t. standard_value d (standard_key provider) = tier_value t)
    | TsInvalid \<Rightarrow> tag_environment (TagsDict d) = None \<and> (\<exists>kv\<in>set d. fold_key (fst kv) \<in> set TAG_KEYS)
    | TsMissing \<Rightarrow> tag_environment (TagsDict d) = None \<and> (\<forall>kv\<in>set d. fold_key (fst kv) \<notin> set TAG_KEYS)
    | TsNotChecked \<Rightarrow> False"
proof -
  have tv: "v \<in> set (map tier_value TIERS) \<longleftrightarrow> (\<exists>t. v = tier_value t)" for v
    by (simp add: TIERS_def) (metis tier.exhaust)
  have none: "tag_environment (TagsDict d) = None \<longleftrightarrow> from_tags (TagsDict d) = None"
    by (simp add: tag_environment_def)
  consider (ok) "standard_value d (standard_key provider) \<in> set (map tier_value TIERS)"
    | (missing) "standard_value d (standard_key provider) \<notin> set (map tier_value TIERS)"
        "\<not> list_ex (\<lambda>kv. fold_key (fst kv) \<in> set TAG_KEYS) d"
    | (other) "standard_value d (standard_key provider) \<notin> set (map tier_value TIERS)"
        "list_ex (\<lambda>kv. fold_key (fst kv) \<in> set TAG_KEYS) d"
    by blast
  then show ?thesis
  proof cases
    case ok
    then have "tag_state rtype tags synced provider = TsOk"
      using assms(1) by (simp add: tag_state_def d_def Let_def)
    then show ?thesis using ok tv by simp
  next
    case missing
    then have "tag_state rtype tags synced provider = TsMissing"
      using assms(1) by (simp add: tag_state_def d_def Let_def)
    moreover have "from_tags (TagsDict d) = None"
      using from_tags_key [of d] missing(2) by (cases "from_tags (TagsDict d)") auto
    ultimately show ?thesis using missing(2) none by (simp add: list_ex_iff)
  next
    case other
    then have "tag_state rtype tags synced provider =
        (case from_tags (TagsDict d) of Some _ \<Rightarrow> TsNonstandard | None \<Rightarrow> TsInvalid)"
      using assms(1) by (simp add: tag_state_def d_def Let_def)
    then show ?thesis
      using other none tv by (cases "from_tags (TagsDict d)") (simp_all add: list_ex_iff)
  qed
qed

lemma tag_state_not_checked:
  "tag_state rtype tags synced provider = TsNotChecked \<longleftrightarrow> \<not> tags_known rtype tags synced provider"
  using tag_state_cases by (fastforce simp: tag_state_def)

subsection \<open>What a warning says\<close>

text \<open>Clipping keeps the kind at the front of the message, so it can be read back.\<close>

lemma takeWhile_clip:
  assumes "length k < 190" "CHR '':'' \<notin> set k"
  shows "takeWhile (\<lambda>c. c \<noteq> CHR '':'') (clip (k @ CHR '':'' # m)) = k"
proof -
  have tw: "takeWhile (\<lambda>c. c \<noteq> CHR '':'') (k @ CHR '':'' # m') = k" for m'
    using assms(2) by (induction k) auto
  obtain n where n: "197 - length k = Suc n" using assms(1) by (cases "197 - length k") auto
  show ?thesis using assms(1) tw by (simp add: clip_def REASON_MAX_def n)
qed

lemma kind_text_facts:
  "length (kind_text k) < 190" "CHR '':'' \<notin> set (kind_text k)" "strip (kind_text k) = kind_text k"
  "find (\<lambda>j. kind_text j = kind_text k) WARNING_KINDS = Some k"
  by (cases k; simp add: kind_text_def WARNING_KINDS_def strip_def is_space_ch_def ch_code_def)+

lemma warning_kind_clip: "warning_kind (Some (clip (kind_text k @ CHR '':'' # m))) = Some k"
proof -
  have "clip (kind_text k @ CHR '':'' # m) \<noteq> []"
    by (cases k) (simp_all add: clip_def kind_text_def REASON_MAX_def)
  then show ?thesis
    by (simp add: warning_kind_def takeWhile_clip kind_text_facts)
qed

lemma warning_kind_read_back:
  assumes "detect_warning e s ov tags n i rt att = Some (k, msg)"
  shows "warning_kind (Some msg) = Some k"
proof -
  have "\<exists>m. msg = clip (kind_text k @ CHR '':'' # m)"
    using assms by (auto simp: detect_warning_def Let_def kind_text_def split: if_splits option.splits)
  then show ?thesis using warning_kind_clip by blast
qed

text \<open>Every warning rests on two pieces of evidence that name different tiers.\<close>

lemma detect_warning_evidence:
  assumes "detect_warning e s ov tags n i rt att = Some (k, msg)"
  shows "case k of
      ManualVsTag \<Rightarrow> disagree (manual_tier ov) (tag_environment tags)
    | TagVsName \<Rightarrow> disagree (tag_environment tags) (name_environment n i)
    | ManualVsName \<Rightarrow> disagree (manual_tier ov) (name_environment n i)
    | VolumeVsInstance \<Rightarrow> s \<noteq> SUnknown \<and> s \<noteq> SRelated \<and>
        (\<exists>(r, lbl)\<in>set att. src r \<in> set RELATED_PARENT_SOURCES \<and> disagree e (Some (env r)))"
proof -
  have parent: "(r, lbl) \<in> set att \<and> src r \<in> set RELATED_PARENT_SOURCES \<and> disagree (Some t) (Some (env r))"
    if "disagreeing_parent t att = Some (r, lbl)" for t r lbl
    using find_SomeD [OF that [unfolded disagreeing_parent_def]] by (auto simp: disagree_def)
  show ?thesis
    using assms parent by (fastforce simp: detect_warning_def Let_def split: if_splits option.splits)
qed

lemma clip_length: "length (clip t) \<le> REASON_MAX"
  by (simp add: clip_def REASON_MAX_def)

lemma warning_length:
  assumes "detect_warning e s ov tags n i rt att = Some (k, msg)"
  shows "length msg \<le> REASON_MAX"
  using assms clip_length by (auto simp: detect_warning_def Let_def split: if_splits option.splits)

lemma no_warning:
  assumes "detect_warning e s ov tags n i rt att = None"
  shows "\<not> disagree (manual_tier ov) (tag_environment tags)"
    "\<not> disagree (tag_environment tags) (name_environment n i)"
    "\<not> disagree (manual_tier ov) (name_environment n i)"
  using assms by (auto simp: detect_warning_def Let_def split: if_splits)

text \<open>An override, tag and name that agree raise none.\<close>

lemma agreement_is_silent:
  assumes "\<not> disagree (manual_tier ov) (tag_environment tags)"
    and "\<not> disagree (tag_environment tags) (name_environment n i)"
    and "\<not> disagree (manual_tier ov) (name_environment n i)"
    and "\<And>r lbl. (r, lbl) \<in> set att \<Longrightarrow> Some (env r) = e"
  shows "detect_warning e s ov tags n i rt att = None"
  using assms by (auto simp: detect_warning_def Let_def disagreeing_parent_def
      dest!: find_SomeD split: option.splits)

end
