(* ===== verification/Env_Suggest.thy ===== *)
theory Env_Suggest
  imports Env_Tags "HOL-Library.Product_Lexorder"
begin

text \<open>
  The suggestion half of \<open>app/environment_classifier.py\<close>: proposing an environment for a
  resource nobody has placed, from siblings of the same account. \<open>suggestion_index\<close> is the
  class \<open>SuggestionIndex\<close>; \<open>consulted\<close> is the scan over all siblings that the index replaces,
  and \<open>index_lookup\<close> shows that they agree.
\<close>

subsection \<open>Siblings\<close>

record sibling =
  sb_resource_id :: "string option"
  sb_id :: string
  sb_name :: "string option"
  sb_tags :: raw_tags
  sb_env :: "tier option"
  sb_source :: source

definition SUGGESTION_SOURCES :: "source list" where
  "SUGGESTION_SOURCES = [SManual, STag, SName]"

datatype confidence = Low | Medium | High

definition confidence_index :: "confidence \<Rightarrow> nat" where
  "confidence_index c = (case c of Low \<Rightarrow> 0 | Medium \<Rightarrow> 1 | High \<Rightarrow> 2)"

lemma confidence_index_eq [simp]: "confidence_index a = confidence_index b \<longleftrightarrow> a = b"
  by (cases a; cases b) (simp_all add: confidence_index_def)

instantiation confidence :: linorder
begin

definition less_eq_confidence :: "confidence \<Rightarrow> confidence \<Rightarrow> bool" where
  "less_eq_confidence a b \<longleftrightarrow> confidence_index a \<le> confidence_index b"

definition less_confidence :: "confidence \<Rightarrow> confidence \<Rightarrow> bool" where
  "less_confidence a b \<longleftrightarrow> confidence_index a < confidence_index b"

instance
  by standard (auto simp: less_eq_confidence_def less_confidence_def simp flip: confidence_index_eq)

end

definition CONFIDENCE :: "confidence list" where
  "CONFIDENCE = [Low, Medium, High]"

definition APPLICATION_TAG_KEYS :: "string list" where
  "APPLICATION_TAG_KEYS = [''application'', ''app'', ''application_name'']"

definition STACK_TAG_KEYS :: "string list" where
  "STACK_TAG_KEYS =
     [''aws:cloudformation:stack_name'', ''aws:autoscaling:groupname'', ''elasticbeanstalk:environment_name'']"

definition MIN_PREFIX_CHARS :: nat where
  "MIN_PREFIX_CHARS = 5"

datatype basis = ByApplication | ByStack | ByPrefix

definition basis_text :: "basis \<Rightarrow> string" where
  "basis_text b = (case b of ByApplication \<Rightarrow> ''application'' | ByStack \<Rightarrow> ''stack'' | ByPrefix \<Rightarrow> ''prefix'')"

record suggestion =
  sg_env :: tier
  sg_confidence :: confidence
  sg_basis :: basis
  sg_reason :: string
  sg_evidence :: nat

subsection \<open>What a sibling has in common\<close>

fun first_tag_value :: "(string, string \<times> jval) dict \<Rightarrow> string list \<Rightarrow> string option" where
  "first_tag_value folded [] = None"
| "first_tag_value folded (key # keys) =
     (case map_option (\<lambda>p. jval_opt (snd p)) (dict_get folded key) of
        Some (Some s) \<Rightarrow> if strip s \<noteq> [] then Some (lower (strip s)) else first_tag_value folded keys
      | _ \<Rightarrow> first_tag_value folded keys)"

definition tag_value :: "raw_tags \<Rightarrow> string list \<Rightarrow> string option" where
  "tag_value tags keys = first_tag_value (folded_tags (tags_dict tags) []) keys"

definition name_tokens :: "string option \<Rightarrow> string list" where
  "name_tokens text =
     (if \<not> truthy_str text then []
      else
        (let r1 = fst (re_sub (match_prefixed_prod ''pre'') '' '' False 0 (the text));
             r2 = fst (re_sub (match_prefixed_prod ''non'') '' '' False 0 r1);
             s1 = camel_2 (camel_1 r2);
             s2 = fst (re_sub match_devops '' devops '' False 0 s1)
         in filter (\<lambda>low. let base = drop_trailing_digits low in WORD_TIER base = None \<and> base \<noteq> [])
              (map lower (tokens s2))))"

text \<open>Python truth of a tag value; \<open>JOther\<close> holds the \<open>str\<close> of a number, a bool or a container.\<close>

definition jval_truthy :: "jval \<Rightarrow> bool" where
  "jval_truthy v = (case v of JNull \<Rightarrow> False | JStr s \<Rightarrow> s \<noteq> []
     | JOther s \<Rightarrow> s \<notin> {''False'', ''0'', ''0.0'', ''-0.0'', ''[]'', ''{}''})"

definition evidence_unit :: "sibling \<Rightarrow> string" where
  "evidence_unit sib =
     (case dict_get (tags_dict (sb_tags sib)) ''parent_ec2'' of
        Some parent \<Rightarrow> if jval_truthy parent then py_str parent
          else (if truthy_str (sb_resource_id sib) then the (sb_resource_id sib) else sb_id sib)
      | None \<Rightarrow> if truthy_str (sb_resource_id sib) then the (sb_resource_id sib) else sb_id sib)"

text \<open>\<open>a or b\<close> on optional strings.\<close>

definition or_text :: "string option \<Rightarrow> string option \<Rightarrow> string option" where
  "or_text a b = (if truthy_str a then a else b)"

definition shared_name :: "sibling \<Rightarrow> string list" where
  "shared_name s = name_tokens (or_text (sb_name s) (sb_resource_id s))"

subsection \<open>Votes\<close>

definition vote :: "sibling list \<Rightarrow> tier option \<times> nat" where
  "vote candidates =
     (let by_unit = group_rows evidence_unit (\<lambda>es s. List.insert (sb_env s) es) [] candidates [];
          envs = remdups (concat (map snd by_unit))
      in (case envs of [e] \<Rightarrow> e | _ \<Rightarrow> None, length by_unit))"

definition bump :: "confidence \<Rightarrow> confidence" where
  "bump level = CONFIDENCE ! min (confidence_index level + 1) (length CONFIDENCE - 1)"

definition is_control_ch :: "char \<Rightarrow> bool" where
  "is_control_ch c \<longleftrightarrow> ch_code c < 32 \<or> ch_code c = 127"

definition shown :: "string \<Rightarrow> string" where
  "shown value =
     (let v = map (\<lambda>c. if is_control_ch c then CHR '' '' else c) value
      in if length v \<le> 40 then v else take 37 v @ ''...'')"

subsection \<open>\<open>SuggestionIndex\<close>\<close>

record suggestion_index =
  by_app :: "(string, sibling list) dict"
  by_stack :: "(string, sibling list) dict"
  by_prefix :: "(nat \<times> string list, sibling list) dict"
  ix_size :: nat

definition sharing :: "('k, 'v list) dict \<Rightarrow> 'k \<Rightarrow> 'v list" where
  "sharing d k = (case dict_get d k of Some xs \<Rightarrow> xs | None \<Rightarrow> [])"

definition push :: "('k, 'v list) dict \<Rightarrow> 'k \<Rightarrow> 'v \<Rightarrow> ('k, 'v list) dict" where
  "push d k v = dict_set d k (sharing d k @ [v])"

definition push_opt :: "('k, 'v list) dict \<Rightarrow> 'k option \<Rightarrow> 'v \<Rightarrow> ('k, 'v list) dict" where
  "push_opt d k v = (case k of Some k' \<Rightarrow> push d k' v | None \<Rightarrow> d)"

definition prefix_key :: "nat \<Rightarrow> string list \<Rightarrow> (nat \<times> string list) option" where
  "prefix_key len toks = (if len \<le> length toks then Some (len, take len toks) else None)"

definition counts_as_evidence :: "sibling \<Rightarrow> bool" where
  "counts_as_evidence s \<longleftrightarrow> sb_env s \<noteq> None \<and> sb_source s \<in> set SUGGESTION_SOURCES"

definition index_add :: "suggestion_index \<Rightarrow> sibling \<Rightarrow> suggestion_index" where
  "index_add ix s =
     (if \<not> counts_as_evidence s then ix
      else
        (let toks = shared_name s in
         \<lparr>by_app = push_opt (by_app ix) (tag_value (sb_tags s) APPLICATION_TAG_KEYS) s,
          by_stack = push_opt (by_stack ix) (tag_value (sb_tags s) STACK_TAG_KEYS) s,
          by_prefix = push_opt (push_opt (by_prefix ix) (prefix_key 2 toks) s) (prefix_key 3 toks) s,
          ix_size = ix_size ix + 1\<rparr>))"

definition empty_index :: suggestion_index where
  "empty_index = \<lparr>by_app = [], by_stack = [], by_prefix = [], ix_size = 0\<rparr>"

definition build_index :: "sibling list \<Rightarrow> suggestion_index" where
  "build_index siblings = foldl index_add empty_index siblings"

definition others :: "sibling list \<Rightarrow> sibling \<Rightarrow> sibling list" where
  "others candidates target = filter (\<lambda>c. sb_resource_id c \<noteq> sb_resource_id target) candidates"

subsection \<open>\<open>suggest\<close>\<close>

definition app_confidence :: "nat \<Rightarrow> confidence" where
  "app_confidence n = (if n \<ge> 3 then High else if n = 2 then Medium else Low)"

definition stack_confidence :: "nat \<Rightarrow> confidence" where
  "stack_confidence n = (if n \<ge> 2 then High else Medium)"

definition prefix_confidence :: "nat \<Rightarrow> confidence" where
  "prefix_confidence n = (if n \<ge> 3 then Medium else Low)"

definition all_are :: "nat \<Rightarrow> string \<Rightarrow> tier \<Rightarrow> string" where
  "all_are n shared e = nat_text n @ '' other resource(s) '' @ shared @ '' are all '' @ tier_word e"

definition tag_basis ::
  "basis \<Rightarrow> (nat \<Rightarrow> confidence) \<Rightarrow> string \<Rightarrow> sibling list \<Rightarrow> suggestion list" where
  "tag_basis b conf shared candidates =
     (case vote candidates of
        (Some e, n) \<Rightarrow>
          [\<lparr>sg_env = e, sg_confidence = conf n, sg_basis = b, sg_reason = all_are n shared e, sg_evidence = n\<rparr>]
      | (None, n) \<Rightarrow> [])"

fun prefix_loop :: "suggestion_index \<Rightarrow> sibling \<Rightarrow> string list \<Rightarrow> nat list \<Rightarrow> suggestion list" where
  "prefix_loop ix target toks [] = []"
| "prefix_loop ix target toks (len # lens) =
     (let head = take len toks in
      if sum_list (map length head) < MIN_PREFIX_CHARS then prefix_loop ix target toks lens
      else
        (let cands = others (sharing (by_prefix ix) (len, head)) target in
         if cands = [] then prefix_loop ix target toks lens
         else
           (case vote cands of
              (Some e, n) \<Rightarrow>
                if n \<ge> 2 then
                  [\<lparr>sg_env = e, sg_confidence = prefix_confidence n, sg_basis = ByPrefix,
                    sg_reason = all_are n (''named '' @ quoted (py_join ''-'' head @ ''...'')) e,
                    sg_evidence = n\<rparr>]
                else []
            | (None, n) \<Rightarrow> [])))"

definition findings :: "suggestion_index \<Rightarrow> sibling \<Rightarrow> suggestion list" where
  "findings ix target =
     (let app_v = tag_value (sb_tags target) APPLICATION_TAG_KEYS;
          stack_v = tag_value (sb_tags target) STACK_TAG_KEYS;
          toks = shared_name target
      in (case app_v of
            Some v \<Rightarrow> tag_basis ByApplication app_confidence (''with Application '' @ quoted (shown v))
                        (others (sharing (by_app ix) v) target)
          | None \<Rightarrow> []) @
         (case stack_v of
            Some v \<Rightarrow> tag_basis ByStack stack_confidence (''in stack or group '' @ quoted (shown v))
                        (others (sharing (by_stack ix) v) target)
          | None \<Rightarrow> []) @
         (if length toks \<ge> 2 then prefix_loop ix target toks (rev [2..<Suc (min (length toks) 3)]) else []))"

text \<open>\<open>found.sort(key=..., reverse=True)\<close> is stable: of equals, the one found first stays first.\<close>

definition best_first :: "suggestion list \<Rightarrow> suggestion list" where
  "best_first found = sort_key (\<lambda>f. (- int (confidence_index (sg_confidence f)), - int (sg_evidence f))) found"

definition supported :: "suggestion list \<Rightarrow> suggestion option" where
  "supported found =
     (case best_first found of
        [] \<Rightarrow> None
      | f # rest \<Rightarrow>
          Some (f\<lparr>sg_confidence := (if rest = [] then sg_confidence f else bump (sg_confidence f)),
                  sg_reason := clip (sg_reason f @
                    (if rest = [] then [] else ''; also supported by '' @
                       py_join '', '' (map (\<lambda>g. basis_text (sg_basis g)) rest)))\<rparr>))"

definition suggest :: "suggestion_index \<Rightarrow> sibling \<Rightarrow> suggestion option" where
  "suggest ix target =
     (if ix_size ix = 0 then None
      else
        (let found = findings ix target in
         if found = [] \<or> length (remdups (map sg_env found)) > 1 then None
         else
           (case supported found of
              None \<Rightarrow> None
            | Some s \<Rightarrow>
                (let own = scan_tiers (sb_name target) @ scan_tiers (sb_resource_id target) in
                 if own \<noteq> [] \<and> sg_env s \<notin> set own then None else Some s))))"

definition suggest_environment :: "sibling \<Rightarrow> sibling list \<Rightarrow> suggestion option" where
  "suggest_environment target siblings = suggest (build_index siblings) target"

subsection \<open>The index is a scan\<close>

lemma sharing_push [simp]: "sharing (push d k v) k' = sharing d k' @ (if k = k' then [v] else [])"
  by (simp add: push_def sharing_def)

lemma sharing_push_opt [simp]: "sharing (push_opt d k v) k' = sharing d k' @ (if k = Some k' then [v] else [])"
  by (auto simp: push_opt_def split: option.splits)

lemma sharing_Nil [simp]: "sharing [] k = []"
  by (simp add: sharing_def)

lemma prefix_key_Some [simp]:
  "prefix_key n toks = Some (len, head) \<longleftrightarrow> len = n \<and> n \<le> length toks \<and> head = take n toks"
  by (auto simp: prefix_key_def)

lemma build_index_snoc: "build_index (sibs @ [s]) = index_add (build_index sibs) s"
  by (simp add: build_index_def)

lemma app_lookup:
  "sharing (by_app (build_index sibs)) v =
     filter (\<lambda>s. counts_as_evidence s \<and> tag_value (sb_tags s) APPLICATION_TAG_KEYS = Some v) sibs"
  by (induction sibs rule: rev_induct)
    (simp_all add: build_index_snoc index_add_def Let_def build_index_def empty_index_def)

lemma stack_lookup:
  "sharing (by_stack (build_index sibs)) v =
     filter (\<lambda>s. counts_as_evidence s \<and> tag_value (sb_tags s) STACK_TAG_KEYS = Some v) sibs"
  by (induction sibs rule: rev_induct)
    (simp_all add: build_index_snoc index_add_def Let_def build_index_def empty_index_def)

lemma prefix_lookup:
  assumes "len = 2 \<or> len = 3"
  shows "sharing (by_prefix (build_index sibs)) (len, head) =
     filter (\<lambda>s. counts_as_evidence s \<and> len \<le> length (shared_name s) \<and> head = take len (shared_name s)) sibs"
  using assms
  by (induction sibs rule: rev_induct)
    (auto simp: build_index_snoc index_add_def Let_def build_index_def empty_index_def)

lemma size_lookup: "ix_size (build_index sibs) = length (filter counts_as_evidence sibs)"
  by (induction sibs rule: rev_induct)
    (simp_all add: build_index_snoc index_add_def Let_def build_index_def empty_index_def)

lemmas index_lookup = app_lookup stack_lookup prefix_lookup size_lookup

subsection \<open>Votes are unanimous\<close>

lemma foldl_insert_set:
  "set (foldl (\<lambda>es s. List.insert (f s) es) acc xs) = set acc \<union> f ` set xs"
  by (induction xs arbitrary: acc) auto

lemma group_rows_elements:
  "\<Union> (set ` snd ` set (group_rows key (\<lambda>es s. List.insert (f s) es) [] rs [])) = f ` set rs" (is "?L = _")
proof -
  let ?d = "group_rows key (\<lambda>es s. List.insert (f s) es) [] rs []"
  have wf: "dict_wf ?d" by (simp add: dict_wf_group_rows)
  have at: "(k, es) \<in> set ?d \<longleftrightarrow>
      k \<in> key ` set rs \<and> es = foldl (\<lambda>es s. List.insert (f s) es) [] (filter (\<lambda>r. key r = k) rs)" for k es
    by (auto simp: group_rows_get simp flip: dict_get_in [OF wf])
  show ?thesis
  proof (intro set_eqI iffI)
    fix x assume "x \<in> ?L"
    then obtain k es where "(k, es) \<in> set ?d" "x \<in> set es" by auto
    then show "x \<in> f ` set rs" by (auto simp: at foldl_insert_set)
  next
    fix x assume "x \<in> f ` set rs"
    then obtain r where r: "r \<in> set rs" "x = f r" by auto
    let ?es = "foldl (\<lambda>es s. List.insert (f s) es) [] (filter (\<lambda>q. key q = key r) rs)"
    have "(key r, ?es) \<in> set ?d" "x \<in> set ?es" using r by (auto simp: at foldl_insert_set)
    then show "x \<in> ?L" by force
  qed
qed

lemma length_group_rows: "length (group_rows key add blank rs []) = card (key ` set rs)"
proof -
  let ?d = "group_rows key add blank rs []"
  have "distinct (dict_keys ?d)" by (simp add: dict_wf_group_rows flip: dict_wf_def)
  then have "length (dict_keys ?d) = card (set (dict_keys ?d))" by (simp add: distinct_card)
  then show ?thesis by (simp add: group_rows_keys) (simp add: dict_keys_def)
qed

lemma vote_Some:
  assumes "vote cs = (Some e, n)"
  shows "cs \<noteq> []" "\<forall>c\<in>set cs. sb_env c = Some e" "n = card (evidence_unit ` set cs)"
proof -
  let ?d = "group_rows evidence_unit (\<lambda>es s. List.insert (sb_env s) es) [] cs []"
  let ?envs = "remdups (concat (map snd ?d))"
  have n: "n = length ?d" and "(case ?envs of [e] \<Rightarrow> e | _ \<Rightarrow> None) = Some e"
    using assms by (auto simp: vote_def Let_def)
  then have "?envs = [Some e]" by (auto split: list.splits)
  then have "set ?envs = {Some e}" by simp
  then have "sb_env ` set cs = {Some e}"
    using group_rows_elements [of evidence_unit sb_env cs] by simp
  then show "cs \<noteq> []" "\<forall>c\<in>set cs. sb_env c = Some e" by auto
  show "n = card (evidence_unit ` set cs)" by (simp add: n length_group_rows)
qed

subsection \<open>What a suggestion rests on\<close>

text \<open>What two resources have in common, per basis.\<close>

definition alike :: "basis \<Rightarrow> sibling \<Rightarrow> sibling \<Rightarrow> bool" where
  "alike b c t =
     (case b of
        ByApplication \<Rightarrow> tag_value (sb_tags c) APPLICATION_TAG_KEYS \<noteq> None \<and>
          tag_value (sb_tags c) APPLICATION_TAG_KEYS = tag_value (sb_tags t) APPLICATION_TAG_KEYS
      | ByStack \<Rightarrow> tag_value (sb_tags c) STACK_TAG_KEYS \<noteq> None \<and>
          tag_value (sb_tags c) STACK_TAG_KEYS = tag_value (sb_tags t) STACK_TAG_KEYS
      | ByPrefix \<Rightarrow> 2 \<le> length (shared_name t) \<and> take 2 (shared_name c) = take 2 (shared_name t))"

definition peers :: "basis \<Rightarrow> sibling \<Rightarrow> sibling list \<Rightarrow> sibling list" where
  "peers b target sibs =
     filter (\<lambda>c. counts_as_evidence c \<and> sb_resource_id c \<noteq> sb_resource_id target \<and> alike b c target) sibs"

text \<open>Supporters all say the suggested tier; with a tag basis they are all the peers there are.\<close>

definition rests_on :: "suggestion \<Rightarrow> sibling \<Rightarrow> sibling list \<Rightarrow> sibling list \<Rightarrow> bool" where
  "rests_on f target sibs cs \<longleftrightarrow>
     cs \<noteq> [] \<and> set cs \<subseteq> set (peers (sg_basis f) target sibs) \<and>
     (sg_basis f \<noteq> ByPrefix \<longrightarrow> cs = peers (sg_basis f) target sibs) \<and>
     (\<forall>c\<in>set cs. sb_env c = Some (sg_env f)) \<and> sg_evidence f = card (evidence_unit ` set cs)"

lemma tag_basis_rests:
  assumes "f \<in> set (tag_basis b conf shared cands)" and "cands = peers b target sibs"
  shows "rests_on f target sibs cands"
proof -
  obtain e n where v: "vote cands = (Some e, n)" "sg_env f = e" "sg_basis f = b" "sg_evidence f = n"
    using assms(1) by (cases "vote cands"; cases "fst (vote cands)") (auto simp: tag_basis_def)
  then show ?thesis using vote_Some [OF v(1)] assms(2) by (simp add: rests_on_def)
qed

lemma prefix_loop_rests:
  assumes "f \<in> set (prefix_loop (build_index sibs) target (shared_name target) lens)"
    and "\<forall>len\<in>set lens. (len = 2 \<or> len = 3) \<and> len \<le> length (shared_name target)"
  shows "\<exists>cs. rests_on f target sibs cs"
  using assms
proof (induction lens)
  case (Cons len lens)
  let ?toks = "shared_name target"
  let ?cands = "others (sharing (by_prefix (build_index sibs)) (len, take len ?toks)) target"
  have IH: "f \<in> set (prefix_loop (build_index sibs) target ?toks lens) \<Longrightarrow> ?case"
    using Cons.IH Cons.prems(2) by simp
  have len: "len = 2 \<or> len = 3" "len \<le> length ?toks" using Cons.prems(2) by auto
  have two: "take 2 xs = take 2 ys" if "take len xs = take len ys" for xs ys :: "string list"
  proof -
    have "take 2 (take len xs) = take 2 (take len ys)" using that by simp
    then show ?thesis using len(1) by auto
  qed
  have sub: "set ?cands \<subseteq> set (peers ByPrefix target sibs)"
  proof
    fix c assume "c \<in> set ?cands"
    then have c: "c \<in> set sibs" "counts_as_evidence c" "sb_resource_id c \<noteq> sb_resource_id target"
      "take len ?toks = take len (shared_name c)"
      by (simp_all add: others_def prefix_lookup [OF len(1)])
    have "2 \<le> length ?toks" using len by linarith
    then show "c \<in> set (peers ByPrefix target sibs)"
      using c two [OF c(4)] by (simp add: peers_def alike_def)
  qed
  show ?case
  proof (cases "f \<in> set (prefix_loop (build_index sibs) target ?toks lens)")
    case True
    then show ?thesis by (rule IH)
  next
    case False
    then have "\<not> sum_list (map length (take len ?toks)) < MIN_PREFIX_CHARS" "?cands \<noteq> []"
      using Cons.prems(1) by (auto simp: Let_def split: if_splits)
    then obtain e n where "vote ?cands = (Some e, n)" "sg_env f = e" "sg_basis f = ByPrefix" "sg_evidence f = n"
      using Cons.prems(1) by (cases "vote ?cands"; cases "fst (vote ?cands)") (simp_all split: if_splits)
    then have "rests_on f target sibs ?cands"
      using vote_Some [of ?cands e n] sub by (simp add: rests_on_def)
    then show ?thesis by blast
  qed
qed simp

lemma findings_rest:
  assumes "f \<in> set (findings (build_index sibs) target)"
  shows "\<exists>cs. rests_on f target sibs cs"
proof -
  have tags: "others (sharing (by_app (build_index sibs)) v) target = peers ByApplication target sibs"
    if "tag_value (sb_tags target) APPLICATION_TAG_KEYS = Some v" for v
    using that by (auto simp: others_def app_lookup peers_def alike_def intro: filter_cong)
  have stacks: "others (sharing (by_stack (build_index sibs)) v) target = peers ByStack target sibs"
    if "tag_value (sb_tags target) STACK_TAG_KEYS = Some v" for v
    using that by (auto simp: others_def stack_lookup peers_def alike_def intro: filter_cong)
  have lens: "\<forall>len\<in>set (rev [2..<Suc (min (length (shared_name target)) 3)]).
      (len = 2 \<or> len = 3) \<and> len \<le> length (shared_name target)"
    by auto
  let ?app = "tag_value (sb_tags target) APPLICATION_TAG_KEYS"
  let ?stack = "tag_value (sb_tags target) STACK_TAG_KEYS"
  from assms consider
      (app) "f \<in> set (case ?app of Some v \<Rightarrow> tag_basis ByApplication app_confidence
          (''with Application '' @ quoted (shown v)) (others (sharing (by_app (build_index sibs)) v) target)
          | None \<Rightarrow> [])"
    | (stack) "f \<in> set (case ?stack of Some v \<Rightarrow> tag_basis ByStack stack_confidence
          (''in stack or group '' @ quoted (shown v)) (others (sharing (by_stack (build_index sibs)) v) target)
          | None \<Rightarrow> [])"
    | (pre) "f \<in> set (if length (shared_name target) \<ge> 2
          then prefix_loop (build_index sibs) target (shared_name target)
                 (rev [2..<Suc (min (length (shared_name target)) 3)]) else [])"
    by (simp only: findings_def Let_def set_append Un_iff) blast
  then show ?thesis
  proof cases
    case app
    then obtain v where v: "?app = Some v" "f \<in> set (tag_basis ByApplication app_confidence
        (''with Application '' @ quoted (shown v)) (others (sharing (by_app (build_index sibs)) v) target))"
      by (cases ?app) simp_all
    then show ?thesis using tag_basis_rests [OF v(2) tags] by blast
  next
    case stack
    then obtain v where v: "?stack = Some v" "f \<in> set (tag_basis ByStack stack_confidence
        (''in stack or group '' @ quoted (shown v)) (others (sharing (by_stack (build_index sibs)) v) target))"
      by (cases ?stack) simp_all
    then show ?thesis using tag_basis_rests [OF v(2) stacks] by blast
  next
    case pre
    then show ?thesis using prefix_loop_rests [OF _ lens] by (auto split: if_splits simp del: upt_Suc)
  qed
qed

lemma supported_from:
  assumes "supported found = Some s"
  shows "\<exists>f\<in>set found. sg_env s = sg_env f \<and> sg_basis s = sg_basis f \<and> sg_evidence s = sg_evidence f"
proof -
  from assms obtain f rest where b: "best_first found = f # rest" and s: "sg_env s = sg_env f"
    "sg_basis s = sg_basis f" "sg_evidence s = sg_evidence f"
    by (auto simp: supported_def split: list.splits)
  have "f \<in> set (best_first found)" using b by simp
  then show ?thesis using s by (auto simp: best_first_def)
qed

lemma suggestion_facts:
  assumes "suggest_environment target sibs = Some s"
  shows "\<exists>cs. rests_on s target sibs cs"
    and "\<forall>f\<in>set (findings (build_index sibs) target). sg_env f = sg_env s"
    and "set (scan_tiers (sb_name target) @ scan_tiers (sb_resource_id target)) \<noteq> {} \<Longrightarrow>
         sg_env s \<in> set (scan_tiers (sb_name target) @ scan_tiers (sb_resource_id target))"
proof -
  let ?found = "findings (build_index sibs) target"
  from assms have one: "length (remdups (map sg_env ?found)) \<le> 1" and sup: "supported ?found = Some s"
    and own: "scan_tiers (sb_name target) @ scan_tiers (sb_resource_id target) \<noteq> [] \<Longrightarrow>
      sg_env s \<in> set (scan_tiers (sb_name target) @ scan_tiers (sb_resource_id target))"
    by (auto simp: suggest_environment_def suggest_def Let_def split: if_splits option.splits)
  obtain f where f: "f \<in> set ?found" "sg_env s = sg_env f" "sg_basis s = sg_basis f" "sg_evidence s = sg_evidence f"
    using supported_from [OF sup] by blast
  show "\<exists>cs. rests_on s target sibs cs"
    using findings_rest [OF f(1)] f by (simp add: rests_on_def)
  show "\<forall>g\<in>set ?found. sg_env g = sg_env s"
  proof
    fix g assume g: "g \<in> set ?found"
    have "card (sg_env ` set ?found) \<le> 1" using one by (simp add: length_remdups_card_conv)
    then show "sg_env g = sg_env s"
      using g f(1,2) by (metis List.finite_set card_le_Suc0_iff_eq finite_imageI image_eqI One_nat_def)
  qed
  show "set (scan_tiers (sb_name target) @ scan_tiers (sb_resource_id target)) \<noteq> {} \<Longrightarrow>
         sg_env s \<in> set (scan_tiers (sb_name target) @ scan_tiers (sb_resource_id target))"
    using own by auto
qed

end
