(* ===== verification/Health.thy ===== *)
theory Health
  imports Alert_Rules Maintenance "HOL-Library.Product_Lexorder" "HOL-Library.List_Lexorder" "HOL-Library.Char_ord"
begin

text \<open>
  \<open>app/collector/health_score.py\<close>: the score of every resource with a firing alert, recomputed in one
  transaction that is tried again after a deadlock. A resource without a row counts as healthy.
\<close>

subsection \<open>Scores\<close>

definition CRITICAL_PENALTY :: int where "CRITICAL_PENALTY = 40"
definition WARNING_PENALTY :: int where "WARNING_PENALTY = 15"
definition MAX_ALERT_PENALTY :: int where "MAX_ALERT_PENALTY = 80"
definition BLAST_RADIUS_PENALTY_PER_DEPENDENT :: int where "BLAST_RADIUS_PENALTY_PER_DEPENDENT = 1"
definition MAX_BLAST_RADIUS_PENALTY :: int where "MAX_BLAST_RADIUS_PENALTY = 20"

record health_row =
  he_score :: int
  he_critical :: nat
  he_warning :: nat
  he_alert_penalty :: int
  he_fan_out :: nat
  he_blast_penalty :: int

type_synonym health_key = "nat \<times> string"

definition fan_out :: "relationship list \<Rightarrow> health_key \<Rightarrow> nat" where
  "fan_out es k =
     length (remdups (map rl_target (filter (\<lambda>e. rl_account e = fst k \<and> rl_source e = snd k) es)))"

definition health_row_of :: "relationship list \<Rightarrow> health_key \<times> nat \<times> nat \<Rightarrow> health_row" where
  "health_row_of es row =
     (case row of (k, c, w) \<Rightarrow>
        let pen = min MAX_ALERT_PENALTY (int c * CRITICAL_PENALTY + int w * WARNING_PENALTY);
            fan = fan_out es k;
            blast = min MAX_BLAST_RADIUS_PENALTY (int fan * BLAST_RADIUS_PENALTY_PER_DEPENDENT)
        in \<lparr>he_score = max 0 (100 - pen - blast), he_critical = c, he_warning = w, he_alert_penalty = pen,
            he_fan_out = fan, he_blast_penalty = blast\<rparr>)"

subsection \<open>What is breaching\<close>

record health_input =
  hi_now :: secs
  hi_stale :: "alert \<Rightarrow> resource \<Rightarrow> account \<Rightarrow> nat"
  hi_alerts :: "alert list"
  hi_resources :: "resource list"
  hi_accounts :: "account list"
  hi_edges :: "relationship list"

definition key_of_row :: "alert \<times> resource \<times> account \<Rightarrow> health_key" where
  "key_of_row arc = (case arc of (a, r, ac) \<Rightarrow> (rs_account r, rs_resource_id r))"

definition firing_rows :: "health_input \<Rightarrow> (alert \<times> resource \<times> account) list" where
  "firing_rows x =
     filter (\<lambda>(a, r, ac). firing_where (hi_now x) (hi_stale x a r ac) a \<and> base_where a)
       (alert_base_from (hi_alerts x) (hi_resources x) (hi_accounts x))"

text \<open>The two sums of the \<open>GROUP BY\<close>.\<close>

definition add_severity :: "nat \<times> nat \<Rightarrow> alert \<times> resource \<times> account \<Rightarrow> nat \<times> nat" where
  "add_severity cw arc =
     (fst cw + (if al_severity (fst arc) = CRITICAL then 1 else 0),
      snd cw + (if al_severity (fst arc) = WARNING then 1 else 0))"

definition breaching :: "health_input \<Rightarrow> (health_key \<times> nat \<times> nat) list" where
  "breaching x =
     sort_key fst (filter (\<lambda>(k, c, w). c + w > 0)
       (group_rows key_of_row add_severity (0, 0) (firing_rows x) []))"

subsection \<open>A recomputation\<close>

definition upsert_scores ::
  "relationship list \<Rightarrow> (health_key \<times> nat \<times> nat) list \<Rightarrow> (health_key, health_row) dict \<Rightarrow> (health_key, health_row) dict" where
  "upsert_scores es rows tbl = fold (\<lambda>row t. dict_set t (fst row) (health_row_of es row)) rows tbl"

definition drop_recovered :: "health_key list \<Rightarrow> (health_key, health_row) dict \<Rightarrow> (health_key, health_row) dict" where
  "drop_recovered firing tbl =
     fold (\<lambda>k t. dict_del t k) (sort (filter (\<lambda>k. k \<notin> set firing) (dict_keys tbl))) tbl"

definition recompute_once ::
  "health_input \<Rightarrow> (health_key, health_row) dict \<Rightarrow> (health_key, health_row) dict \<times> nat" where
  "recompute_once x tbl =
     (let rows = breaching x in
      (drop_recovered (map fst rows) (upsert_scores (hi_edges x) rows tbl), length rows))"

definition RETRYABLE_ERRNOS :: "int list" where
  "RETRYABLE_ERRNOS = [1213, 1205]"

definition MAX_ATTEMPTS :: nat where
  "MAX_ATTEMPTS = 4"

definition is_retryable :: "int option \<Rightarrow> bool" where
  "is_retryable errno \<longleftrightarrow> (case errno of None \<Rightarrow> False | Some e \<Rightarrow> e \<in> set RETRYABLE_ERRNOS)"

text \<open>
  \<open>fails n\<close>: how attempt \<open>n\<close> fails, if it does, with the error number of the exception if it has one; a failing
  attempt is rolled back. The second argument counts the attempts left.
\<close>

fun try_recompute ::
  "(nat \<Rightarrow> int option option) \<Rightarrow> nat \<Rightarrow> health_input \<Rightarrow> (health_key, health_row) dict
   \<Rightarrow> (health_key, health_row) dict \<times> (int option + nat)" where
  "try_recompute fails 0 x tbl = (tbl, Inr 0)"
| "try_recompute fails (Suc n) x tbl =
     (case fails (MAX_ATTEMPTS - n) of
        None \<Rightarrow> (case recompute_once x tbl of (tbl', scored) \<Rightarrow> (tbl', Inr scored))
      | Some e \<Rightarrow> if \<not> is_retryable e \<or> n = 0 then (tbl, Inl e) else try_recompute fails n x tbl)"

definition recompute_health_scores ::
  "(nat \<Rightarrow> int option option) \<Rightarrow> health_input \<Rightarrow> (health_key, health_row) dict
   \<Rightarrow> (health_key, health_row) dict \<times> (int option + nat)" where
  "recompute_health_scores fails x tbl = try_recompute fails MAX_ATTEMPTS x tbl"

subsection \<open>The table the recomputation is for\<close>

definition severity_count :: "severity \<Rightarrow> health_key \<Rightarrow> health_input \<Rightarrow> nat" where
  "severity_count s k x =
     length (filter (\<lambda>arc. key_of_row arc = k \<and> al_severity (fst arc) = s) (firing_rows x))"

definition health_of :: "health_input \<Rightarrow> health_key \<Rightarrow> health_row option" where
  "health_of x k =
     (let c = severity_count CRITICAL k x; w = severity_count WARNING k x in
      if c + w = 0 then None else Some (health_row_of (hi_edges x) (k, c, w)))"

lemma add_severity_fold:
  "foldl add_severity (c, w) rs =
    (c + length (filter (\<lambda>r. al_severity (fst r) = CRITICAL) rs), w + length (filter (\<lambda>r. al_severity (fst r) = WARNING) rs))"
  by (induction rs arbitrary: c w) (auto simp: add_severity_def)

lemma health_row_of_bounds:
  assumes "c + w > 0"
  shows "0 \<le> he_score (health_row_of es (k, c, w)) \<and> he_score (health_row_of es (k, c, w)) \<le> 85"
proof -
  have "int c * 40 + int w * 15 \<ge> 15" using assms by (cases c; cases w) auto
  then show ?thesis
    by (auto simp: health_row_of_def Let_def CRITICAL_PENALTY_def WARNING_PENALTY_def MAX_ALERT_PENALTY_def
        BLAST_RADIUS_PENALTY_PER_DEPENDENT_def MAX_BLAST_RADIUS_PENALTY_def)
qed

lemma breaching_wf: "dict_wf (breaching x)"
proof -
  have "distinct (map fst (filter P (group_rows key_of_row add_severity (0, 0) rs [])))" for P rs
    using dict_wf_group_rows [of "[]" key_of_row add_severity "(0, 0)" rs]
    by (auto simp: dict_wf_def dict_keys_def intro: distinct_map_filter)
  then show ?thesis by (simp add: breaching_def dict_wf_def dict_keys_def distinct_map)
qed

lemma breaching_get:
  "dict_get (breaching x) k =
    (let c = severity_count CRITICAL k x; w = severity_count WARNING k x in if c + w = 0 then None else Some (c, w))"
proof -
  let ?g = "group_rows key_of_row add_severity (0, 0) (firing_rows x) []"
  have g: "dict_get ?g k = (if k \<in> key_of_row ` set (firing_rows x)
      then Some (severity_count CRITICAL k x, severity_count WARNING k x) else None)" for k
    by (simp add: group_rows_get add_severity_fold severity_count_def conj_commute)
  have none: "severity_count s k x = 0" if "k \<notin> key_of_row ` set (firing_rows x)" for s k
    using that by (auto simp: severity_count_def filter_empty_conv)
  have wf: "dict_wf ?g" by (rule dict_wf_group_rows) simp
  have "dict_get (breaching x) k = Some cw \<longleftrightarrow> dict_get ?g k = Some cw \<and> fst cw + snd cw > 0" for cw
    using dict_get_in [OF breaching_wf, of x k cw] dict_get_in [OF wf, of k cw]
    by (auto simp: breaching_def)
  then have "dict_get (breaching x) k = (case dict_get ?g k of None \<Rightarrow> None | Some cw \<Rightarrow> if fst cw + snd cw > 0 then Some cw else None)"
    by (cases "dict_get (breaching x) k"; cases "dict_get ?g k") force+
  then show ?thesis using none by (auto simp: g Let_def)
qed

lemma upsert_get:
  "dict_wf rows \<Longrightarrow> dict_get (upsert_scores es rows tbl) k =
     (case dict_get rows k of None \<Rightarrow> dict_get tbl k | Some cw \<Rightarrow> Some (health_row_of es (k, cw)))"
proof (induction rows arbitrary: tbl)
  case (Cons row rows)
  have "dict_get rows (fst row) = None" "dict_wf rows"
    using Cons.prems by (simp_all add: dict_wf_def dict_keys_def dict_get_def map_of_eq_None_iff)
  then show ?case
    using Cons.IH by (cases row) (auto simp: upsert_scores_def dict_get_def [of "_ # _"] split: option.splits simp flip: dict_get_def)
qed (simp add: upsert_scores_def)

lemma upsert_wf: "dict_wf tbl \<Longrightarrow> dict_wf (upsert_scores es rows tbl)"
  unfolding upsert_scores_def by (induction rows arbitrary: tbl) simp_all

lemma drop_get: "dict_get (drop_recovered firing tbl) k = (if k \<in> set firing then dict_get tbl k else None)"
proof -
  have "dict_get (fold (\<lambda>k t. dict_del t k) ks t) k = (if k \<in> set ks then None else dict_get t k)"
    for ks and t :: "(health_key, health_row) dict"
    by (induction ks arbitrary: t) auto
  then show ?thesis by (auto simp: drop_recovered_def dict_get_None_iff)
qed

lemma drop_wf: "dict_wf tbl \<Longrightarrow> dict_wf (drop_recovered firing tbl)"
proof -
  have "dict_wf t \<Longrightarrow> dict_wf (fold (\<lambda>k t. dict_del t k) ks t)" for ks and t :: "(health_key, health_row) dict"
    by (induction ks arbitrary: t) simp_all
  then show "dict_wf tbl \<Longrightarrow> dict_wf (drop_recovered firing tbl)" by (simp add: drop_recovered_def)
qed

lemma length_by_keys: "dict_wf d \<Longrightarrow> length d = card (set (dict_keys d))"
  using distinct_card [of "dict_keys d"] by (simp add: dict_wf_def dict_keys_def)

text \<open>One recomputation leaves the table it is for, however the table was before.\<close>

lemma recompute_once_table:
  assumes "dict_wf tbl" "recompute_once x tbl = (tbl', scored)"
  shows "dict_get tbl' k = health_of x k" "dict_wf tbl'" "scored = length tbl'"
proof -
  let ?rows = "breaching x"
  have tbl': "tbl' = drop_recovered (map fst ?rows) (upsert_scores (hi_edges x) ?rows tbl)" and n: "scored = length ?rows"
    using assms(2) by (simp_all add: recompute_once_def Let_def)
  have at: "dict_get tbl' k = map_option (\<lambda>cw. health_row_of (hi_edges x) (k, cw)) (dict_get ?rows k)" for k
    using dict_get_None_iff [of ?rows k]
    by (auto simp: tbl' drop_get upsert_get [OF breaching_wf] dict_keys_def split: option.splits)
  show "dict_get tbl' k = health_of x k" by (simp add: at breaching_get health_of_def Let_def)
  show wf: "dict_wf tbl'" unfolding tbl' by (rule drop_wf) (rule upsert_wf [OF assms(1)])
  have "set (dict_keys tbl') = set (dict_keys ?rows)"
    using dict_get_None_iff [of tbl'] dict_get_None_iff [of ?rows] at by (metis map_option_is_None subsetI subset_antisym)
  then show "scored = length tbl'" unfolding n length_by_keys [OF breaching_wf] length_by_keys [OF wf] by simp
qed

text \<open>The attempts: the table is recomputed, or an attempt failed for good and nothing is written.\<close>

lemma try_recompute_result:
  "try_recompute fails (Suc n) x tbl = (tbl', res) \<Longrightarrow>
    (\<exists>m e. m \<le> n \<and> fails (MAX_ATTEMPTS - m) = Some e \<and> (\<not> is_retryable e \<or> m = 0) \<and> res = Inl e \<and> tbl' = tbl) \<or>
    (\<exists>scored. res = Inr scored \<and> recompute_once x tbl = (tbl', scored))"
proof (induction n)
  case (Suc n)
  then show ?case
    by (cases "fails (MAX_ATTEMPTS - Suc n)") (auto split: if_splits prod.splits intro: le_SucI)
qed (auto split: option.splits if_splits prod.splits)

lemma health_attempts:
  "recompute_health_scores fails x tbl = (tbl', res) \<Longrightarrow>
    (\<exists>i e. 1 \<le> i \<and> i \<le> MAX_ATTEMPTS \<and> fails i = Some e \<and> (is_retryable e \<longrightarrow> i = MAX_ATTEMPTS) \<and> res = Inl e \<and> tbl' = tbl) \<or>
    (\<exists>scored. res = Inr scored \<and> recompute_once x tbl = (tbl', scored))"
  using try_recompute_result [of fails 3 x tbl tbl' res]
  unfolding recompute_health_scores_def MAX_ATTEMPTS_def numeral_eq_Suc
  by (auto simp: numeral_eq_Suc)

end
