(* ===== verification/Mail_Rules.thy ===== *)
theory Mail_Rules
  imports Authorization Cost_Settings
begin

text \<open>
  Mail rules for alerts and incidents: \<open>app/email/alert_rules.py\<close> (which events a rule wants, throttle and hourly
  cap), \<open>app/email/recipients.py\<close> (who is on a list), the channel test of \<open>app/notifications/sender.py\<close> and the
  sending half of \<open>app/email/rule_dispatch.py\<close>. The hash, the JSON reader and the mail server are arguments.
  One event is handled at one instant, on a database nobody edits meanwhile.
\<close>

subsection \<open>Rules\<close>

definition EVENTS :: "string list" where
  "EVENTS = [''alert_opened'', ''alert_escalated'', ''alert_resolved'', ''incident_opened'', ''incident_resolved'']"

record mail_rule =
  mr_id :: nat
  mr_enabled :: bool
  mr_events :: "string option"
  mr_min_severity :: "string option"
  mr_account :: "nat option"
  mr_list :: "nat option"
  mr_extra :: "string option"

definition knob :: "environ \<Rightarrow> string \<Rightarrow> int \<times> int \<times> int \<Rightarrow> int" where
  "knob osenv name lims =
     (case lims of (dflt, lo, hi) \<Rightarrow>
        (case osenv name of
           None \<Rightarrow> dflt
         | Some raw \<Rightarrow> (case py_int (strip raw) of None \<Rightarrow> dflt | Some n \<Rightarrow> if lo \<le> n \<and> n \<le> hi then n else dflt)))"

definition throttle_seconds :: "environ \<Rightarrow> int" where
  "throttle_seconds osenv = knob osenv ''EMAIL_RULE_THROTTLE_SECONDS'' (1800, 60, 86400)"

definition max_per_hour :: "environ \<Rightarrow> int" where
  "max_per_hour osenv = knob osenv ''EMAIL_RULE_MAX_PER_RECIPIENT_HOUR'' (20, 1, 200)"

definition text_or :: "string option \<Rightarrow> string \<Rightarrow> string" where
  "text_or s d = (if truthy_str s then the s else d)"

definition severity_rank :: "nat \<Rightarrow> string \<Rightarrow> nat" where
  "severity_rank d s = (if s = ''WARNING'' then 1 else if s = ''CRITICAL'' then 2 else d)"

definition rule_matches :: "mail_rule \<Rightarrow> string \<Rightarrow> string option \<Rightarrow> nat option \<Rightarrow> bool" where
  "rule_matches r event sev acct \<longleftrightarrow>
     mr_enabled r \<and> event \<in> set (map strip (split_ch (CHR '','') (text_or (mr_events r) []))) \<and>
     severity_rank 1 (upper (text_or (mr_min_severity r) ''WARNING'')) \<le> severity_rank 0 (upper (text_or sev [])) \<and>
     (mr_account r = None \<or> mr_account r = acct)"

text \<open>One mail to one person for one rule.\<close>

datatype decision = MayGo | AlreadyMailed | HourlyCap | Throttled

definition decide ::
  "secs \<Rightarrow> (secs \<times> string option) list \<Rightarrow> string option \<Rightarrow> int \<Rightarrow> int \<Rightarrow> bool \<Rightarrow> decision" where
  "decide now recent res throttle cap already =
     (if already then AlreadyMailed
      else if int (length (filter (\<lambda>r. now - 3600 < fst r) recent)) \<ge> cap then HourlyCap
      else if truthy_str res \<and> list_ex (\<lambda>r. snd r = res \<and> now - throttle < fst r) recent then Throttled
      else MayGo)"

subsection \<open>Recipients\<close>

definition MAX_EMAILS :: nat where
  "MAX_EMAILS = 50"

definition address_bad :: "char \<Rightarrow> bool" where
  "address_bad c \<longleftrightarrow> email_bad c \<or> c = CHR 0x22 \<or> c = CHR 0x27 \<or> c = CHR 0x5C"

fun parse_pieces :: "string list \<Rightarrow> string list \<Rightarrow> string + string list" where
  "parse_pieces out [] = Inr out"
| "parse_pieces out (raw # rest) =
     (let a = strip raw in
      if a = [] then parse_pieces out rest
      else if length a > 254 \<or> \<not> email_shape address_bad a then Inl (''not a valid email address: '' @ take 60 a)
      else parse_pieces (if lower a \<in> lower ` set out then out else out @ [a]) rest)"

definition parse_emails :: "string option \<Rightarrow> string + string list" where
  "parse_emails v =
     (if \<not> truthy_str v then Inr []
      else (case parse_pieces [] (split_pieces (\<lambda>c. c \<in> set '',;'' \<or> c = CHR 0x0A) [] (the v)) of
              Inl e \<Rightarrow> Inl e
            | Inr out \<Rightarrow> if length out > MAX_EMAILS then Inl ''at most 50 typed addresses'' else Inr out))"

definition load_ids :: "(string \<Rightarrow> json option) \<Rightarrow> string option \<Rightarrow> int list" where
  "load_ids loads v =
     (if \<not> truthy_str v then []
      else (case loads (the v) of
              Some (JsonList xs) \<Rightarrow> List.map_filter (\<lambda>x. case x of JsonInt n \<Rightarrow> Some n | _ \<Rightarrow> None) xs
            | _ \<Rightarrow> []))"

record list_row =
  lr_user_ids :: "string option"
  lr_group_ids :: "string option"
  lr_emails :: "string option"

record mail_user =
  mu_id :: nat
  mu_name :: "string option"
  mu_role :: string
  mu_email :: "string option"
  mu_active :: "bool option"

datatype skip_reason = Inactive | NoEmail | MayNotSee

definition mail_visible :: "auth_db \<Rightarrow> (nat \<Rightarrow> bool) \<Rightarrow> nat option \<Rightarrow> mail_user \<Rightarrow> bool" where
  "mail_visible adb lookup_fails acct u =
     (case acct of
        None \<Rightarrow> True
      | Some i \<Rightarrow>
          if lookup_fails (mu_id u) then False
          else (case get_accessible_account_ids adb \<lparr>us_id = mu_id u, us_role = mu_role u\<rparr> of
                  None \<Rightarrow> True | Some ids \<Rightarrow> i \<in> set ids))"

definition add_address :: "string list \<Rightarrow> string \<Rightarrow> string list" where
  "add_address as a = (if lower a \<in> lower ` set as then as else as @ [a])"

fun add_users ::
  "(mail_user \<Rightarrow> bool) \<Rightarrow> nat list \<Rightarrow> mail_user list \<Rightarrow> string list \<times> (string \<times> skip_reason) list
   \<Rightarrow> string list \<times> (string \<times> skip_reason) list" where
  "add_users visible seen [] st = st"
| "add_users visible seen (u # us) st =
     (if mu_id u \<in> set seen then add_users visible seen us st
      else
        (let who = text_or (mu_name u) (''user '' @ nat_text (mu_id u)) in
         add_users visible (mu_id u # seen) us
           (if mu_active u = Some False then (fst st, snd st @ [(who, Inactive)])
            else if strip (text_or (mu_email u) []) = [] then (fst st, snd st @ [(who, NoEmail)])
            else if \<not> visible u then (fst st, snd st @ [(who, MayNotSee)])
            else (add_address (fst st) (strip (the (mu_email u))), snd st))))"

text \<open>Users named on the list, then members of its groups, each as the database scans them.\<close>

definition listed_users :: "mail_user list \<Rightarrow> (nat \<times> nat) list \<Rightarrow> int list \<Rightarrow> int list \<Rightarrow> mail_user list" where
  "listed_users users members user_ids group_ids =
     filter (\<lambda>u. int (mu_id u) \<in> set user_ids) users @
     filter (\<lambda>u. list_ex (\<lambda>(g, m). m = mu_id u \<and> int g \<in> set group_ids) members) users"

definition no_list :: list_row where
  "no_list = \<lparr>lr_user_ids = None, lr_group_ids = None, lr_emails = None\<rparr>"

definition resolve_list ::
  "(string \<Rightarrow> json option) \<Rightarrow> mail_user list \<Rightarrow> (nat \<times> nat) list \<Rightarrow> (mail_user \<Rightarrow> bool) \<Rightarrow> list_row \<Rightarrow> string option
   \<Rightarrow> string + string list \<times> (string \<times> skip_reason) list" where
  "resolve_list loads users members visible row extra =
     (case parse_emails (lr_emails row) of Inl e \<Rightarrow> Inl e | Inr t1 \<Rightarrow>
     (case parse_emails extra of Inl e \<Rightarrow> Inl e | Inr t2 \<Rightarrow>
        (case add_users visible [] (listed_users users members (load_ids loads (lr_user_ids row)) (load_ids loads (lr_group_ids row)))
                ([], []) of
           (as, skipped) \<Rightarrow> Inr (foldl add_address as (t1 @ t2), skipped))))"

subsection \<open>Channels\<close>

record channel =
  ch_id :: nat
  ch_enabled :: bool
  ch_email :: bool
  ch_target :: "string option"
  ch_events :: "string option"
  ch_min_severity :: "string option"
  ch_account :: "nat option"

definition parse_addresses :: "string option \<Rightarrow> string list" where
  "parse_addresses v = filter (\<lambda>a. a \<noteq> []) (map strip (split_ch (CHR '','') (text_or v [])))"

text \<open>Event names are not stripped here, and an unknown lowest severity means critical.\<close>

definition channel_matches :: "channel \<Rightarrow> string \<Rightarrow> string option \<Rightarrow> nat option \<Rightarrow> bool" where
  "channel_matches ch event sev acct \<longleftrightarrow>
     ch_enabled ch \<and> event \<in> set (split_ch (CHR '','') (text_or (ch_events ch) [])) \<and>
     (case ch_min_severity ch of None \<Rightarrow> 2 | Some m \<Rightarrow> severity_rank 2 m) \<le> (case sev of None \<Rightarrow> 0 | Some s \<Rightarrow> severity_rank 0 s) \<and>
     (ch_account ch = None \<or> acct = None \<or> ch_account ch = acct)"

text \<open>
  \<open>notify_alert_event\<close>: an email channel works when one of its addresses is accepted; \<open>posts\<close> is the outcome of
  the other kinds. Each attempt is logged, and none hinders the next.
\<close>

record delivery =
  nl_channel :: nat
  nl_alert :: nat
  nl_event :: string
  nl_sent :: bool

definition deliver :: "bool \<Rightarrow> (string \<Rightarrow> bool) \<Rightarrow> (channel \<Rightarrow> bool) \<Rightarrow> channel \<Rightarrow> bool" where
  "deliver smtp accepts posts ch =
     (if ch_email ch then smtp \<and> list_ex accepts (parse_addresses (ch_target ch)) else posts ch)"

definition notify_alert_event ::
  "(channel \<Rightarrow> bool) \<Rightarrow> channel list \<Rightarrow> string \<Rightarrow> bool \<Rightarrow> string option \<Rightarrow> nat option \<Rightarrow> nat
   \<Rightarrow> delivery list \<Rightarrow> delivery list \<times> nat" where
  "notify_alert_event works channels event silenced sev acct i logs =
     (if silenced then (logs, 0)
      else (let chs = filter (\<lambda>ch. ch_enabled ch \<and> channel_matches ch event sev acct) channels in
            (logs @ map (\<lambda>ch. \<lparr>nl_channel = ch_id ch, nl_alert = i, nl_event = event, nl_sent = works ch\<rparr>) chs,
             length (filter works chs))))"

subsection \<open>Whom somebody else mails\<close>

datatype mail_kind = AboutAlert | AboutIncident

record mail_ctx =
  mc_kind :: mail_kind
  mc_object :: nat
  mc_account :: "nat option"
  mc_resource :: "string option"
  mc_metric :: "string option"
  mc_severity :: "string option"
  mc_group :: "nat option"
  mc_silenced :: bool

record contact =
  co_check :: nat
  co_email :: "string option"
  co_outage :: bool
  co_cert :: bool

record mail_db =
  md_rules :: "mail_rule list"
  md_lists :: "(nat, list_row) dict"
  md_users :: "mail_user list"
  md_members :: "(nat \<times> nat) list"
  md_channels :: "channel list"
  md_contacts :: "contact list"
  md_costs :: "(nat, cj_row) dict"
  md_auth :: auth_db

datatype mail_error = BadAddress string | UnknownCheck | RecordFailed

text \<open>\<open>re.match(r"synthetic-(\d+)", ...)\<close>.\<close>

definition check_of_resource :: "string option \<Rightarrow> nat option" where
  "check_of_resource v =
     (let s = text_or v []; ds = takeWhile is_digit_ch (drop 10 s) in
      if startswith s ''synthetic-'' \<and> ds \<noteq> [] then map_option nat (py_int ds) else None)"

definition contact_addresses :: "contact list \<Rightarrow> (contact \<Rightarrow> bool) \<Rightarrow> string option \<Rightarrow> mail_error + string list" where
  "contact_addresses cs wants res =
     (case check_of_resource res of
        None \<Rightarrow> Inl UnknownCheck
      | Some i \<Rightarrow> Inr (filter (\<lambda>a. a \<noteq> [])
          (map (\<lambda>c. lower (strip (text_or (co_email c) []))) (filter (\<lambda>c. co_check c = i \<and> wants c) cs))))"

definition synthetic_addresses :: "mail_db \<Rightarrow> mail_ctx \<Rightarrow> mail_error + string list" where
  "synthetic_addresses db cx =
     (if mc_metric cx = Some ''synthetic_uptime'' then contact_addresses (md_contacts db) co_outage (mc_resource cx)
      else if mc_metric cx = Some ''synthetic_cert_expiry'' then contact_addresses (md_contacts db) co_cert (mc_resource cx)
      else Inr [])"

text \<open>An event without an account has the recipients of all accounts, as no account has the key of the global row.\<close>

definition cost_addresses :: "(string \<Rightarrow> json option) \<Rightarrow> mail_db \<Rightarrow> mail_ctx \<Rightarrow> string list" where
  "cost_addresses loads db cx =
     (case scope_recipients (load_settings loads (md_costs db)) (case mc_account cx of Some i \<Rightarrow> i | None \<Rightarrow> GLOBAL_KEY) of
        (users, emails) \<Rightarrow>
          filter (\<lambda>a. a \<noteq> []) (map (\<lambda>a. lower (strip a)) emails) @
          filter (\<lambda>a. a \<noteq> []) (map (\<lambda>u. lower (strip (text_or (mu_email u) [])))
             (filter (\<lambda>u. int (mu_id u) \<in> set users) (md_users db))))"

definition channel_addresses :: "mail_db \<Rightarrow> string \<Rightarrow> mail_ctx \<Rightarrow> string list" where
  "channel_addresses db event cx =
     (if event \<in> {''alert_opened'', ''alert_escalated''}
      then concat (map (\<lambda>ch. map lower (parse_addresses (ch_target ch)))
             (filter (\<lambda>ch. ch_enabled ch \<and> ch_email ch \<and>
                 channel_matches ch (if event = ''alert_opened'' then ''opened'' else ''escalated'') (mc_severity cx) (mc_account cx))
               (md_channels db)))
      else [])"

definition group_addresses :: "mail_db \<Rightarrow> string \<Rightarrow> mail_ctx \<Rightarrow> string list" where
  "group_addresses db event cx =
     (case mc_group cx of
        None \<Rightarrow> []
      | Some g \<Rightarrow>
          if event = ''alert_escalated'' \<and> g \<noteq> 0
          then map (\<lambda>u. lower (strip (the (mu_email u))))
                 (filter (\<lambda>u. (g, mu_id u) \<in> set (md_members db) \<and> truthy_str (mu_email u)) (md_users db))
          else [])"

definition excluded_addresses ::
  "(string \<Rightarrow> json option) \<Rightarrow> mail_db \<Rightarrow> string \<Rightarrow> mail_ctx \<Rightarrow> mail_error + string list" where
  "excluded_addresses loads db event cx =
     (case synthetic_addresses db cx of
        Inl e \<Rightarrow> Inl e
      | Inr own \<Rightarrow>
          Inr (channel_addresses db event cx @ group_addresses db event cx @ own @
               (if mc_metric cx = Some ''cloud_cost_jump'' \<and> event = ''alert_opened'' then cost_addresses loads db cx else [])))"

subsection \<open>Sending\<close>

record send_row =
  se_rule :: nat
  se_recipient :: string
  se_kind :: mail_kind
  se_object :: nat
  se_event :: string
  se_resource :: "string option"
  se_at :: secs

record sent_mail =
  sm_rule :: nat
  sm_address :: string
  sm_event :: string
  sm_ctx :: mail_ctx
  sm_at :: secs

record mail_io =
  io_osenv :: environ
  io_hash :: "string \<Rightarrow> string"
  io_loads :: "string \<Rightarrow> json option"
  io_accepts :: "sent_mail \<Rightarrow> bool"
  io_record_fails :: "send_row \<Rightarrow> bool"
  io_lookup_fails :: "nat \<Rightarrow> bool"

record mail_world =
  ds_sends :: "send_row list"
  ds_outbox :: "sent_mail list"

definition recipient_key :: "mail_io \<Rightarrow> string \<Rightarrow> string" where
  "recipient_key io a = io_hash io (lower (strip a))"

definition resource_key :: "mail_io \<Rightarrow> nat option \<Rightarrow> string \<Rightarrow> string" where
  "resource_key io acct res =
     io_hash io ((case acct of None \<Rightarrow> ''None'' | Some i \<Rightarrow> nat_text i) @ ''|'' @ res)"

definition ctx_resource_key :: "mail_io \<Rightarrow> string \<Rightarrow> mail_ctx \<Rightarrow> string option" where
  "ctx_resource_key io event cx =
     (if truthy_str (mc_resource cx) then Some (resource_key io (mc_account cx) (event @ '':'' @ the (mc_resource cx))) else None)"

text \<open>The key of \<open>uq_rule_send_once\<close>.\<close>

definition once_key :: "send_row \<Rightarrow> string \<times> mail_kind \<times> nat \<times> string" where
  "once_key r = (se_recipient r, se_kind r, se_object r, se_event r)"

definition already_sent :: "send_row list \<Rightarrow> string \<times> mail_kind \<times> nat \<times> string \<Rightarrow> bool" where
  "already_sent rows k \<longleftrightarrow> list_ex (\<lambda>r. once_key r = k) rows"

text \<open>The ages are measured by the database's clock, the decision by the server's.\<close>

definition recent_sends :: "send_row list \<Rightarrow> nat \<Rightarrow> string \<Rightarrow> secs \<Rightarrow> secs \<Rightarrow> (secs \<times> string option) list" where
  "recent_sends rows rule rkey now dbnow =
     map (\<lambda>r. (now - (dbnow - se_at r), se_resource r))
       (filter (\<lambda>r. se_rule r = rule \<and> se_recipient r = rkey \<and> dbnow - 3600 < se_at r) rows)"

text \<open>\<open>INSERT IGNORE\<close>.\<close>

definition record_send :: "send_row \<Rightarrow> send_row list \<Rightarrow> send_row list" where
  "record_send r rows = (if already_sent rows (once_key r) then rows else rows @ [r])"

definition send_row_of :: "mail_io \<Rightarrow> sent_mail \<Rightarrow> send_row" where
  "send_row_of io m =
     \<lparr>se_rule = sm_rule m, se_recipient = recipient_key io (sm_address m), se_kind = mc_kind (sm_ctx m),
      se_object = mc_object (sm_ctx m), se_event = sm_event m, se_resource = ctx_resource_key io (sm_event m) (sm_ctx m),
      se_at = sm_at m\<rparr>"

text \<open>One address: the mail may not go, is not accepted, or goes and is recorded.\<close>

definition mail_address ::
  "mail_io \<Rightarrow> mail_rule \<Rightarrow> string \<Rightarrow> mail_ctx \<Rightarrow> secs \<times> secs \<Rightarrow> string \<Rightarrow> mail_world \<times> nat
   \<Rightarrow> (mail_world \<times> nat) \<times> mail_error option" where
  "mail_address io rule event cx clk a st =
     (case clk of (now, dbnow) \<Rightarrow>
        let w = fst st; rkey = recipient_key io a;
            m = \<lparr>sm_rule = mr_id rule, sm_address = a, sm_event = event, sm_ctx = cx, sm_at = dbnow\<rparr>;
            row = send_row_of io m
        in if decide now (recent_sends (ds_sends w) (mr_id rule) rkey now dbnow) (ctx_resource_key io event cx)
                (throttle_seconds (io_osenv io)) (max_per_hour (io_osenv io)) (already_sent (ds_sends w) (once_key row)) \<noteq> MayGo
           then (st, None)
           else if \<not> io_accepts io m then (st, None)
           else if io_record_fails io row then ((w\<lparr>ds_outbox := ds_outbox w @ [m]\<rparr>, snd st), Some RecordFailed)
           else ((w\<lparr>ds_outbox := ds_outbox w @ [m], ds_sends := record_send row (ds_sends w)\<rparr>, snd st + 1), None))"

fun mail_addresses ::
  "mail_io \<Rightarrow> mail_rule \<Rightarrow> string \<Rightarrow> mail_ctx \<Rightarrow> secs \<times> secs \<Rightarrow> string list \<Rightarrow> string list \<Rightarrow> mail_world \<times> nat
   \<Rightarrow> (mail_world \<times> nat) \<times> mail_error option" where
  "mail_addresses io rule event cx clk excluded [] st = (st, None)"
| "mail_addresses io rule event cx clk excluded (a # as) st =
     (if lower a \<in> set excluded then mail_addresses io rule event cx clk excluded as st
      else (case mail_address io rule event cx clk a st of
              (st', None) \<Rightarrow> mail_addresses io rule event cx clk excluded as st'
            | (st', Some e) \<Rightarrow> (st', Some e)))"

text \<open>A list that no longer exists counts as an empty one.\<close>

definition rule_addresses :: "mail_io \<Rightarrow> mail_db \<Rightarrow> mail_rule \<Rightarrow> nat option \<Rightarrow> mail_error + string list" where
  "rule_addresses io db rule acct =
     (let row = (case mr_list rule of
                   None \<Rightarrow> no_list
                 | Some i \<Rightarrow> (case dict_get (md_lists db) i of None \<Rightarrow> no_list | Some r \<Rightarrow> r))
      in case resolve_list (io_loads io) (md_users db) (md_members db)
                (mail_visible (md_auth db) (io_lookup_fails io) acct) row (mr_extra rule) of
           Inl e \<Rightarrow> Inl (BadAddress e)
         | Inr (as, skipped) \<Rightarrow> Inr as)"

fun mail_rules ::
  "mail_io \<Rightarrow> mail_db \<Rightarrow> string \<Rightarrow> mail_ctx \<Rightarrow> secs \<times> secs \<Rightarrow> string list \<Rightarrow> mail_rule list \<Rightarrow> mail_world \<times> nat
   \<Rightarrow> (mail_world \<times> nat) \<times> mail_error option" where
  "mail_rules io db event cx clk excluded [] st = (st, None)"
| "mail_rules io db event cx clk excluded (r # rs) st =
     (case rule_addresses io db r (mc_account cx) of
        Inl e \<Rightarrow> (st, Some e)
      | Inr as \<Rightarrow>
          (case mail_addresses io r event cx clk excluded as st of
             (st', None) \<Rightarrow> mail_rules io db event cx clk excluded rs st'
           | (st', Some e) \<Rightarrow> (st', Some e)))"

definition dispatch_one ::
  "mail_io \<Rightarrow> mail_db \<Rightarrow> mail_rule list \<Rightarrow> string \<times> mail_ctx \<Rightarrow> secs \<times> secs \<Rightarrow> mail_world
   \<Rightarrow> (mail_world \<times> nat) \<times> mail_error option" where
  "dispatch_one io db rules item clk w =
     (case item of (event, cx) \<Rightarrow>
        if mc_silenced cx then ((w, 0), None)
        else (let matching = filter (\<lambda>r. rule_matches r event (mc_severity cx) (mc_account cx)) rules in
              if matching = [] then ((w, 0), None)
              else (case excluded_addresses (io_loads io) db event cx of
                      Inl e \<Rightarrow> ((w, 0), Some e)
                    | Inr excluded \<Rightarrow> mail_rules io db event cx clk excluded matching (w, 0))))"

text \<open>The mails of an item that raised are not counted, though they went out.\<close>

fun dispatch_items ::
  "mail_io \<Rightarrow> mail_db \<Rightarrow> mail_rule list \<Rightarrow> ((string \<times> mail_ctx) \<times> secs \<times> secs) list \<Rightarrow> mail_world \<times> nat \<Rightarrow> mail_world \<times> nat" where
  "dispatch_items io db rules [] st = st"
| "dispatch_items io db rules ((item, clk) # items) st =
     (case dispatch_one io db rules item clk (fst st) of
        ((w, n), err) \<Rightarrow> dispatch_items io db rules items (w, snd st + (if err = None then n else 0)))"

definition email_center_enabled :: "environ \<Rightarrow> bool" where
  "email_center_enabled osenv \<longleftrightarrow>
     (case osenv ''EMAIL_CENTER_ENABLED'' of
        None \<Rightarrow> False | Some v \<Rightarrow> lower (strip v) \<in> {''true'', ''1'', ''yes''})"

definition load_rules :: "mail_db \<Rightarrow> mail_rule list" where
  "load_rules db = sort_key mr_id (filter mr_enabled (md_rules db))"

text \<open>\<open>smtp\<close>: the mailer is configured. Each item comes with the instant it is handled at, on both clocks.\<close>

definition dispatch_many ::
  "bool \<Rightarrow> mail_io \<Rightarrow> mail_db \<Rightarrow> ((string \<times> mail_ctx) \<times> secs \<times> secs) list \<Rightarrow> mail_world \<Rightarrow> mail_world \<times> nat" where
  "dispatch_many smtp io db items w =
     (if items = [] \<or> \<not> email_center_enabled (io_osenv io) \<or> \<not> smtp then (w, 0)
      else (let rules = load_rules db in if rules = [] then (w, 0) else dispatch_items io db rules items (w, 0)))"

end
