(* ===== verification/Mail_Limits.thy ===== *)
theory Mail_Limits
  imports Mail_Rules
begin

text \<open>
  What a dispatch of rule mails keeps: nobody is mailed twice about one event, the hourly cap and the spacing of
  mails about one resource hold, and every mail went to somebody its rule may mail.
\<close>

subsection \<open>Limits of the table of sends\<close>

definition hour_count :: "send_row list \<Rightarrow> nat \<Rightarrow> string \<Rightarrow> secs \<Rightarrow> nat" where
  "hour_count rows rule k t =
     length (filter (\<lambda>r. se_rule r = rule \<and> se_recipient r = k \<and> t - 3600 < se_at r \<and> se_at r \<le> t) rows)"

definition mail_spaced :: "int \<Rightarrow> send_row \<Rightarrow> send_row \<Rightarrow> bool" where
  "mail_spaced gap r s \<longleftrightarrow>
     (se_rule r = se_rule s \<and> se_recipient r = se_recipient s \<and> se_resource r = se_resource s \<and> truthy_str (se_resource s) \<longrightarrow>
      se_at r + gap \<le> se_at s)"

definition mail_gap :: "environ \<Rightarrow> int" where
  "mail_gap osenv = min (throttle_seconds osenv) 3600"

definition within_limits :: "environ \<Rightarrow> send_row list \<Rightarrow> bool" where
  "within_limits osenv rows \<longleftrightarrow>
     distinct (map once_key rows) \<and> (\<forall>rule k t. int (hour_count rows rule k t) \<le> max_per_hour osenv) \<and>
     sorted_wrt (mail_spaced (mail_gap osenv)) rows"

definition sends_ok :: "environ \<Rightarrow> secs \<Rightarrow> send_row list \<Rightarrow> bool" where
  "sends_ok osenv now rows \<longleftrightarrow> within_limits osenv rows \<and> (\<forall>r\<in>set rows. se_at r \<le> now)"

lemma knob_range: "lo \<le> dflt \<Longrightarrow> dflt \<le> hi \<Longrightarrow> lo \<le> knob osenv name (dflt, lo, hi) \<and> knob osenv name (dflt, lo, hi) \<le> hi"
  by (auto simp: knob_def split: option.splits)

lemma cap_positive: "1 \<le> max_per_hour osenv"
  using knob_range [of 1 20 200] by (simp add: max_per_hour_def)

lemma sends_ok_Nil: "sends_ok osenv now []"
  using cap_positive [of osenv] by (simp add: sends_ok_def within_limits_def hour_count_def)

lemma sends_ok_later: "sends_ok osenv now rows \<Longrightarrow> now \<le> now' \<Longrightarrow> sends_ok osenv now' rows"
  by (force simp: sends_ok_def)

lemma length_filter_mono: "(\<And>x. x \<in> set xs \<Longrightarrow> P x \<Longrightarrow> Q x) \<Longrightarrow> length (filter P xs) \<le> length (filter Q xs)"
  by (induction xs) auto

text \<open>What the decision lets through.\<close>

lemma recent_count:
  "length (filter (\<lambda>r. now - 3600 < fst r) (recent_sends rows rule k now dbnow)) =
    length (filter (\<lambda>r. se_rule r = rule \<and> se_recipient r = k \<and> dbnow - 3600 < se_at r) rows)"
proof -
  have "filter (\<lambda>r. now - 3600 < fst r) (recent_sends rows rule k now dbnow) = recent_sends rows rule k now dbnow"
    unfolding recent_sends_def by (rule filter_True) auto
  then show ?thesis by (simp add: recent_sends_def)
qed

lemma decide_MayGo:
  assumes "decide now (recent_sends rows rule k now dbnow) res thr cap already = MayGo"
  shows "\<not> already" "int (length (filter (\<lambda>r. se_rule r = rule \<and> se_recipient r = k \<and> dbnow - 3600 < se_at r) rows)) < cap"
    and "\<And>r. \<lbrakk>truthy_str res; r \<in> set rows; se_rule r = rule; se_recipient r = k; se_resource r = res; dbnow - 3600 < se_at r\<rbrakk>
      \<Longrightarrow> se_at r \<le> dbnow - thr"
proof -
  show "\<not> already" using assms by (auto simp: decide_def split: if_splits)
  show "int (length (filter (\<lambda>r. se_rule r = rule \<and> se_recipient r = k \<and> dbnow - 3600 < se_at r) rows)) < cap"
    using assms unfolding decide_def recent_count by (auto split: if_splits)
  have *: "\<not> (truthy_str res \<and> list_ex (\<lambda>r. snd r = res \<and> now - thr < fst r) (recent_sends rows rule k now dbnow))"
    using assms unfolding decide_def by (auto split: if_splits)
  show "se_at r \<le> dbnow - thr"
    if "truthy_str res" "r \<in> set rows" "se_rule r = rule" "se_recipient r = k" "se_resource r = res" "dbnow - 3600 < se_at r" for r
  proof (rule ccontr)
    assume "\<not> se_at r \<le> dbnow - thr"
    moreover have "(now - (dbnow - se_at r), res) \<in> set (recent_sends rows rule k now dbnow)"
      using that by (auto simp: recent_sends_def image_iff)
    ultimately show False using * that(1) by (force simp: list_ex_iff)
  qed
qed

lemma hour_count_add:
  assumes "\<forall>r\<in>set rows. se_at r \<le> now" "se_at row = now"
    and "int (length (filter (\<lambda>r. se_rule r = se_rule row \<and> se_recipient r = se_recipient row \<and> now - 3600 < se_at r) rows)) < cap"
    and "\<And>t. int (hour_count rows rule k t) \<le> cap"
  shows "int (hour_count (rows @ [row]) rule k t) \<le> cap"
proof (cases "se_rule row = rule \<and> se_recipient row = k \<and> t - 3600 < now \<and> now \<le> t")
  case True
  have "hour_count rows rule k t
      \<le> length (filter (\<lambda>r. se_rule r = se_rule row \<and> se_recipient r = se_recipient row \<and> now - 3600 < se_at r) rows)"
    unfolding hour_count_def using True by (intro length_filter_mono) auto
  then show ?thesis using assms(2,3) True by (simp add: hour_count_def)
next
  case False
  then have "hour_count (rows @ [row]) rule k t = hour_count rows rule k t"
    using assms(2) by (auto simp: hour_count_def)
  then show ?thesis using assms(4) [of t] by simp
qed

lemma sends_ok_add:
  assumes ok: "sends_ok osenv dbnow rows" and row: "se_at row = dbnow"
    and go: "decide now (recent_sends rows (se_rule row) (se_recipient row) now dbnow) (se_resource row)
      (throttle_seconds osenv) (max_per_hour osenv) (already_sent rows (once_key row)) = MayGo"
  shows "sends_ok osenv dbnow (rows @ [row])"
proof -
  have late: "\<forall>r\<in>set rows. se_at r \<le> dbnow" using ok by (simp add: sends_ok_def)
  have "\<forall>r\<in>set rows. mail_spaced (mail_gap osenv) r row"
    using decide_MayGo(3) [OF go] row by (fastforce simp: mail_spaced_def mail_gap_def)
  moreover have "once_key row \<notin> once_key ` set rows"
    using decide_MayGo(1) [OF go] by (auto simp: already_sent_def list_ex_iff)
  moreover have "int (hour_count (rows @ [row]) rule k t) \<le> max_per_hour osenv" for rule k t
    by (rule hour_count_add [OF late row decide_MayGo(2) [OF go]]) (use ok in \<open>simp add: sends_ok_def within_limits_def\<close>)
  ultimately show ?thesis using ok row by (auto simp: sends_ok_def within_limits_def sorted_wrt_append)
qed

subsection \<open>What a dispatch does\<close>

text \<open>Whom a rule may mail: a typed address, or an active user of its list who may see the account.\<close>

definition rule_list :: "mail_db \<Rightarrow> mail_rule \<Rightarrow> list_row" where
  "rule_list db r =
     (case mr_list r of
        None \<Rightarrow> no_list
      | Some i \<Rightarrow> (case dict_get (md_lists db) i of None \<Rightarrow> no_list | Some row \<Rightarrow> row))"

definition typed_on :: "mail_db \<Rightarrow> mail_rule \<Rightarrow> string \<Rightarrow> bool" where
  "typed_on db r a \<longleftrightarrow>
     (\<exists>t. (parse_emails (lr_emails (rule_list db r)) = Inr t \<or> parse_emails (mr_extra r) = Inr t) \<and> a \<in> set t)"

definition user_on :: "mail_io \<Rightarrow> mail_db \<Rightarrow> mail_rule \<Rightarrow> mail_user \<Rightarrow> bool" where
  "user_on io db r u \<longleftrightarrow>
     u \<in> set (md_users db) \<and>
     (int (mu_id u) \<in> set (load_ids (io_loads io) (lr_user_ids (rule_list db r))) \<or>
      (\<exists>g. (g, mu_id u) \<in> set (md_members db) \<and> int g \<in> set (load_ids (io_loads io) (lr_group_ids (rule_list db r)))))"

definition may_mail :: "mail_io \<Rightarrow> mail_db \<Rightarrow> mail_rule \<Rightarrow> nat option \<Rightarrow> string \<Rightarrow> bool" where
  "may_mail io db r acct a \<longleftrightarrow>
     typed_on db r a \<or>
     (\<exists>u. user_on io db r u \<and> mu_active u \<noteq> Some False \<and> a = strip (text_or (mu_email u) []) \<and> a \<noteq> [] \<and>
        mail_visible (md_auth db) (io_lookup_fails io) acct u)"

lemma set_add_address: "set (add_address as a) \<subseteq> insert a (set as)"
  by (auto simp: add_address_def)

lemma add_users_from:
  "a \<in> set (fst (add_users visible seen us st)) \<Longrightarrow>
    a \<in> set (fst st) \<or>
    (\<exists>u\<in>set us. mu_active u \<noteq> Some False \<and> a = strip (text_or (mu_email u) []) \<and> a \<noteq> [] \<and> visible u)"
proof (induction visible seen us st rule: add_users.induct)
  case (2 visible seen u us st)
  show ?case
  proof (cases "mu_id u \<in> set seen")
    case True
    then show ?thesis using 2 by auto
  next
    case False
    have "text_or (mu_email u) [] = the (mu_email u)" if "strip (text_or (mu_email u) []) \<noteq> []"
      using that by (auto simp: text_or_def strip_def split: if_splits)
    then show ?thesis
      using 2(2) [OF False refl] 2(3) False set_add_address [of "fst st" "strip (the (mu_email u))"]
      by (auto simp: Let_def split: if_splits)
  qed
qed simp

lemma foldl_add_address: "a \<in> set (foldl add_address as bs) \<Longrightarrow> a \<in> set as \<or> a \<in> set bs"
  by (induction bs arbitrary: as) (use set_add_address in fastforce)+

lemma rule_addresses_may:
  assumes "rule_addresses io db r acct = Inr as" "a \<in> set as"
  shows "may_mail io db r acct a"
proof -
  let ?row = "rule_list db r" and ?vis = "mail_visible (md_auth db) (io_lookup_fails io) acct"
  let ?us = "listed_users (md_users db) (md_members db) (load_ids (io_loads io) (lr_user_ids ?row)) (load_ids (io_loads io) (lr_group_ids ?row))"
  obtain t1 t2 where t: "parse_emails (lr_emails ?row) = Inr t1" "parse_emails (mr_extra r) = Inr t2"
      and as: "as = foldl add_address (fst (add_users ?vis [] ?us ([], []))) (t1 @ t2)"
    using assms(1) by (auto simp: rule_addresses_def resolve_list_def rule_list_def [symmetric] Let_def split: sum.splits prod.splits)
  from foldl_add_address [OF assms(2) [unfolded as]] consider "a \<in> set t1 \<or> a \<in> set t2" | "a \<in> set (fst (add_users ?vis [] ?us ([], [])))"
    by auto
  then show ?thesis
  proof cases
    case 1
    then show ?thesis using t by (auto simp: may_mail_def typed_on_def)
  next
    case 2
    from add_users_from [OF this] obtain u where u: "u \<in> set ?us" "mu_active u \<noteq> Some False"
        "a = strip (text_or (mu_email u) [])" "a \<noteq> []" "?vis u"
      by auto
    then have "user_on io db r u" by (auto simp: listed_users_def user_on_def list_ex_iff)
    then show ?thesis using u by (auto simp: may_mail_def)
  qed
qed

text \<open>A mail that may be sent, and what a dispatch under way has done.\<close>

definition proper :: "mail_io \<Rightarrow> mail_db \<Rightarrow> mail_rule list \<Rightarrow> sent_mail \<Rightarrow> bool" where
  "proper io db rules m \<longleftrightarrow>
     \<not> mc_silenced (sm_ctx m) \<and>
     (\<exists>r\<in>set rules. mr_id r = sm_rule m \<and> rule_matches r (sm_event m) (mc_severity (sm_ctx m)) (mc_account (sm_ctx m)) \<and>
        may_mail io db r (mc_account (sm_ctx m)) (sm_address m)) \<and>
     (\<exists>ex. excluded_addresses (io_loads io) db (sm_event m) (sm_ctx m) = Inr ex \<and> lower (sm_address m) \<notin> set ex)"

definition recorded :: "mail_io \<Rightarrow> mail_world \<Rightarrow> mail_world \<Rightarrow> sent_mail list \<Rightarrow> bool" where
  "recorded io w0 w mails \<longleftrightarrow>
     ds_outbox w = ds_outbox w0 @ mails \<and>
     ((\<forall>r. \<not> io_record_fails io r) \<longrightarrow> ds_sends w = ds_sends w0 @ map (send_row_of io) mails)"

definition under_way :: "mail_io \<Rightarrow> mail_db \<Rightarrow> mail_rule list \<Rightarrow> mail_world \<Rightarrow> secs \<Rightarrow> mail_world \<Rightarrow> bool" where
  "under_way io db rules w0 now w \<longleftrightarrow>
     sends_ok (io_osenv io) now (ds_sends w) \<and> (\<exists>mails. recorded io w0 w mails \<and> (\<forall>m\<in>set mails. proper io db rules m))"

lemma mail_address_step:
  assumes uw: "under_way io db rules w0 (snd clk) (fst st)"
    and ok: "proper io db rules \<lparr>sm_rule = mr_id r, sm_address = a, sm_event = event, sm_ctx = cx, sm_at = snd clk\<rparr>"
  shows "under_way io db rules w0 (snd clk) (fst (fst (mail_address io r event cx clk a st)))"
proof -
  obtain now dbnow w n where eqs: "clk = (now, dbnow)" "st = (w, n)" by (cases clk; cases st)
  let ?m = "\<lparr>sm_rule = mr_id r, sm_address = a, sm_event = event, sm_ctx = cx, sm_at = dbnow\<rparr>"
  let ?row = "send_row_of io ?m"
  let ?w = "w\<lparr>ds_outbox := ds_outbox w @ [?m]\<rparr>" and ?w' = "w\<lparr>ds_outbox := ds_outbox w @ [?m], ds_sends := record_send ?row (ds_sends w)\<rparr>"
  obtain mails where mails: "recorded io w0 w mails" "\<forall>m\<in>set mails. proper io db rules m"
    using uw by (auto simp: under_way_def eqs)
  have sends: "sends_ok (io_osenv io) dbnow (ds_sends w)" using uw by (simp add: under_way_def eqs)
  let ?d = "decide now (recent_sends (ds_sends w) (se_rule ?row) (se_recipient ?row) now dbnow) (se_resource ?row)
      (throttle_seconds (io_osenv io)) (max_per_hour (io_osenv io)) (already_sent (ds_sends w) (once_key ?row))"
  have cases: "fst (fst (mail_address io r event cx clk a st)) =
      (if ?d \<noteq> MayGo \<or> \<not> io_accepts io ?m then w else if io_record_fails io ?row then ?w else ?w')"
    by (simp add: mail_address_def eqs Let_def send_row_of_def)
  have more: "\<forall>m\<in>set (mails @ [?m]). proper io db rules m" using mails(2) ok by (simp add: eqs)
  show ?thesis
  proof (cases "?d = MayGo")
    case False
    then show ?thesis using uw unfolding cases by (simp add: eqs)
  next
    case go: True
    from decide_MayGo(1) [OF go] have rec: "record_send ?row (ds_sends w) = ds_sends w @ [?row]" by (simp add: record_send_def)
    have "sends_ok (io_osenv io) dbnow (ds_sends w @ [?row])"
      using sends_ok_add [OF sends _ go] by (simp add: send_row_of_def)
    then have "under_way io db rules w0 dbnow ?w'"
      using mails(1) more unfolding under_way_def by (auto simp: rec recorded_def intro!: exI [of _ "mails @ [?m]"])
    moreover have "under_way io db rules w0 dbnow ?w" if "io_record_fails io ?row"
      using mails(1) more sends that unfolding under_way_def by (auto simp: recorded_def intro!: exI [of _ "mails @ [?m]"])
    ultimately show ?thesis using uw go unfolding cases by (simp add: eqs)
  qed
qed

lemma mail_addresses_step:
  assumes "\<not> mc_silenced cx" "r \<in> set rules" "rule_matches r event (mc_severity cx) (mc_account cx)"
    and "excluded_addresses (io_loads io) db event cx = Inr ex"
  shows "\<lbrakk>\<And>a. a \<in> set as \<Longrightarrow> may_mail io db r (mc_account cx) a; under_way io db rules w0 (snd clk) (fst st)\<rbrakk> \<Longrightarrow>
    under_way io db rules w0 (snd clk) (fst (fst (mail_addresses io r event cx clk ex as st)))"
proof (induction as arbitrary: st)
  case (Cons a as)
  show ?case
  proof (cases "lower a \<in> set ex")
    case True
    then show ?thesis using Cons.IH [OF _ Cons.prems(2)] Cons.prems(1) by simp
  next
    case False
    have "proper io db rules \<lparr>sm_rule = mr_id r, sm_address = a, sm_event = event, sm_ctx = cx, sm_at = snd clk\<rparr>"
      using assms False Cons.prems(1) [of a] by (auto simp: proper_def)
    from mail_address_step [OF Cons.prems(2) this] show ?thesis
      using False Cons.IH Cons.prems(1) by (auto split: prod.split option.split)
  qed
qed simp

lemma mail_rules_step:
  assumes "\<not> mc_silenced cx" "excluded_addresses (io_loads io) db event cx = Inr ex"
  shows "\<lbrakk>\<And>r. r \<in> set rs \<Longrightarrow> r \<in> set rules \<and> rule_matches r event (mc_severity cx) (mc_account cx);
      under_way io db rules w0 (snd clk) (fst st)\<rbrakk> \<Longrightarrow>
    under_way io db rules w0 (snd clk) (fst (fst (mail_rules io db event cx clk ex rs st)))"
proof (induction rs arbitrary: st)
  case (Cons r rs)
  show ?case
  proof (cases "rule_addresses io db r (mc_account cx)")
    case (Inl e)
    then show ?thesis using Cons.prems(2) by simp
  next
    case (Inr as)
    have "under_way io db rules w0 (snd clk) (fst (fst (mail_addresses io r event cx clk ex as st)))"
      using mail_addresses_step [OF assms(1) _ _ assms(2)] Cons.prems rule_addresses_may [OF Inr] by simp
    then show ?thesis using Inr Cons.IH Cons.prems(1) by (auto split: prod.split option.split)
  qed
qed simp

lemma dispatch_one_step:
  assumes "under_way io db rules w0 (snd clk) w"
  shows "under_way io db rules w0 (snd clk) (fst (fst (dispatch_one io db rules item clk w)))"
proof -
  obtain event cx where item: "item = (event, cx)" by (cases item)
  let ?rs = "filter (\<lambda>r. rule_matches r event (mc_severity cx) (mc_account cx)) rules"
  have "under_way io db rules w0 (snd clk) (fst (fst (mail_rules io db event cx clk ex ?rs (w, 0))))"
    if "\<not> mc_silenced cx" "excluded_addresses (io_loads io) db event cx = Inr ex" for ex
    by (rule mail_rules_step [OF that]) (use assms in auto)
  then show ?thesis using assms by (auto simp: dispatch_one_def item Let_def split: sum.splits)
qed

text \<open>A whole dispatch, the items in the order of their instants.\<close>

lemma dispatch_items_step:
  assumes "sorted (now # map (\<lambda>x. snd (snd x)) items)" "under_way io db rules w0 now (fst st)"
  shows "under_way io db rules w0 (last (now # map (\<lambda>x. snd (snd x)) items)) (fst (dispatch_items io db rules items st))"
  using assms
proof (induction items arbitrary: now st)
  case (Cons x items)
  obtain item clk where x: "x = (item, clk)" by (cases x)
  have "under_way io db rules w0 (snd clk) (fst st)"
    using Cons.prems sends_ok_later by (fastforce simp: under_way_def x)
  from dispatch_one_step [OF this, of item]
  have "under_way io db rules w0 (snd clk) (fst (fst (dispatch_one io db rules item clk (fst st))))" .
  moreover have "sorted (snd clk # map (\<lambda>x. snd (snd x)) items)" using Cons.prems(1) by (simp add: x)
  ultimately show ?case
    using Cons.IH [of "snd clk"] by (auto simp: x split: prod.splits)
qed simp

lemma dispatch_many_mails:
  assumes "sorted (now # map (\<lambda>x. snd (snd x)) items)" "sends_ok (io_osenv io) now (ds_sends w)"
    and "dispatch_many smtp io db items w = (w', n)"
  shows "within_limits (io_osenv io) (ds_sends w')"
    and "\<exists>mails. recorded io w w' mails \<and> (\<forall>m\<in>set mails. proper io db (md_rules db) m)"
proof -
  have uw: "under_way io db (load_rules db) w now (fst (w, 0::nat))"
    using assms(2) by (auto simp: under_way_def recorded_def intro!: exI [of _ "[]"])
  have "\<exists>t. under_way io db (load_rules db) w t w'"
    using assms(3) uw dispatch_items_step [OF assms(1) uw]
    by (auto simp: dispatch_many_def Let_def split: if_splits)
  then obtain t where t: "under_way io db (load_rules db) w t w'" by blast
  then show "within_limits (io_osenv io) (ds_sends w')" by (simp add: under_way_def sends_ok_def)
  have "proper io db (load_rules db) m \<Longrightarrow> proper io db (md_rules db) m" for m
    by (auto simp: proper_def load_rules_def)
  then show "\<exists>mails. recorded io w w' mails \<and> (\<forall>m\<in>set mails. proper io db (md_rules db) m)"
    using t unfolding under_way_def by blast
qed

subsection \<open>A window longer than an hour\<close>

text \<open>Only the sends of the last hour are looked at, so a longer throttle lets a second mail through after an hour.\<close>

definition demo_mail_env :: "string \<Rightarrow> environ" where
  "demo_mail_env n =
     (\<lambda>k. if k = ''EMAIL_CENTER_ENABLED'' then Some ''true'' else if k = ''EMAIL_RULE_THROTTLE_SECONDS'' then Some n else None)"

definition demo_io :: "string \<Rightarrow> mail_io" where
  "demo_io n = \<lparr>io_osenv = demo_mail_env n, io_hash = (\<lambda>s. s),
     io_loads = (\<lambda>t. if t = ''[7, 8]'' then Some (JsonList [JsonInt 7, JsonInt 8]) else None),
     io_accepts = (\<lambda>_. True), io_record_fails = (\<lambda>_. False), io_lookup_fails = (\<lambda>_. False)\<rparr>"

definition demo_mail_db :: mail_db where
  "demo_mail_db =
     \<lparr>md_rules = [\<lparr>mr_id = 1, mr_enabled = True, mr_events = Some ''alert_opened'', mr_min_severity = Some ''WARNING'',
         mr_account = None, mr_list = Some 3, mr_extra = Some ''ops@x.io;Ops@x.io''\<rparr>],
      md_lists = [(3, \<lparr>lr_user_ids = Some ''[7, 8]'', lr_group_ids = None, lr_emails = None\<rparr>)],
      md_users = [\<lparr>mu_id = 7, mu_name = None, mu_role = ''admin'', mu_email = Some ''ann@x.io'', mu_active = None\<rparr>,
         \<lparr>mu_id = 8, mu_name = None, mu_role = ''viewer'', mu_email = Some ''bob@x.io'', mu_active = None\<rparr>],
      md_members = [], md_channels = [], md_contacts = [], md_costs = [],
      md_auth = \<lparr>db_groups = [], db_memberships = [], db_access_scopes = [], db_group_policies = [], db_bindings = Some [],
         db_roles = [], db_scopes = [], db_accounts = [], db_now = 0\<rparr>\<rparr>"

definition demo_ctx :: "nat \<Rightarrow> mail_ctx" where
  "demo_ctx i = \<lparr>mc_kind = AboutAlert, mc_object = i, mc_account = Some 4, mc_resource = Some ''vm'', mc_metric = Some ''cpu'',
     mc_severity = Some ''WARNING'', mc_group = None, mc_silenced = False\<rparr>"

definition demo_mails :: "string \<Rightarrow> secs list \<Rightarrow> (secs \<times> nat \<times> string) list" where
  "demo_mails n ts =
     map (\<lambda>m. (sm_at m, mc_object (sm_ctx m), sm_address m))
       (ds_outbox (fst (dispatch_many True (demo_io n) demo_mail_db
          (map (\<lambda>(i, t). ((''alert_opened'', demo_ctx i), t, t)) (enumerate 1 ts)) \<lparr>ds_sends = [], ds_outbox = []\<rparr>)))"

lemma throttle_holds_for_an_hour:
  "demo_mails ''7200'' [0, 1800, 3600] =
    [(0, 1, ''ann@x.io''), (0, 1, ''ops@x.io''), (3600, 3, ''ann@x.io''), (3600, 3, ''ops@x.io'')]"
  by code_simp

end
