(* ===== verification/Incidents.thy ===== *)
theory Incidents
  imports Alert_Rules Maintenance
begin

text \<open>
  \<open>app/collector/correlate.py\<close>: active alerts of connected resources that began within half an hour
  become one incident. One run is one transaction over \<open>incidents\<close> and \<open>incident_alerts\<close>; a
  query with \<open>LIMIT 1\<close> and no order takes the row that comes first in the database's scan, given
  by the rank of its id.
\<close>

subsection \<open>Rows\<close>

datatype incident_status = IncActive | IncResolved

record incident =
  in_id :: nat
  in_account :: nat
  in_title :: string
  in_severity :: severity
  in_status :: incident_status
  in_created :: secs
  in_started :: secs
  in_last_seen :: secs
  in_resolved_at :: "secs option"

record incident_db =
  ic_incidents :: "incident list"
  ic_members :: "(nat \<times> nat) list"
  ic_next :: nat

definition CORRELATION_WINDOW_MINUTES :: int where
  "CORRELATION_WINDOW_MINUTES = 30"

text \<open>\<open>ABS(TIMESTAMPDIFF(MINUTE, s, t)) <= 30\<close>: whole minutes, cut off.\<close>

definition near :: "secs \<Rightarrow> secs \<Rightarrow> bool" where
  "near s t \<longleftrightarrow> abs (t - s) div 60 \<le> CORRELATION_WINDOW_MINUTES"

definition linked :: "relationship list \<Rightarrow> nat \<Rightarrow> string \<Rightarrow> string \<Rightarrow> bool" where
  "linked es acct r s \<longleftrightarrow>
     list_ex (\<lambda>e. rl_account e = acct \<and>
        (rl_source e = r \<and> rl_target e = s \<or> rl_target e = r \<and> rl_source e = s)) es"

definition first_by :: "('a \<Rightarrow> nat) \<Rightarrow> 'a list \<Rightarrow> 'a option" where
  "first_by rank xs = (case sort_key rank xs of [] \<Rightarrow> None | x # _ \<Rightarrow> Some x)"

subsection \<open>The root of an incident\<close>

definition severity_place :: "severity \<Rightarrow> nat" where
  "severity_place s = (case s of CRITICAL \<Rightarrow> 0 | WARNING \<Rightarrow> 1 | _ \<Rightarrow> 2)"

text \<open>The first breach, then the more severe, then the lower id.\<close>

definition earlier :: "alert \<Rightarrow> alert \<Rightarrow> bool" where
  "earlier a b \<longleftrightarrow>
     (if al_triggered_at a \<noteq> al_triggered_at b then al_triggered_at a < al_triggered_at b
      else if severity_place (al_severity a) \<noteq> severity_place (al_severity b)
      then severity_place (al_severity a) < severity_place (al_severity b)
      else al_id a < al_id b)"

definition pick_root :: "alert \<Rightarrow> alert \<Rightarrow> alert" where
  "pick_root a b = (if earlier b a then b else a)"

definition incident_title :: "alert \<Rightarrow> string" where
  "incident_title r =
     take 255 ((if al_metric r = [] then ''Correlated breach'' else al_metric r @ '' breach'') @ '' on '' @
       al_resource r @ '' and related resource(s)'')"

subsection \<open>One alert\<close>

definition active_incident :: "incident_db \<Rightarrow> nat \<Rightarrow> bool" where
  "active_incident db i \<longleftrightarrow> list_ex (\<lambda>x. in_id x = i \<and> in_status x = IncActive) (ic_incidents db)"

definition loose :: "incident_db \<Rightarrow> alert \<Rightarrow> bool" where
  "loose db a \<longleftrightarrow> al_status a = Active \<and> al_account a \<noteq> None \<and> base_where a \<and>
     \<not> list_ex (\<lambda>(i, k). k = al_id a \<and> active_incident db i) (ic_members db)"

text \<open>The open incidents an alert can join.\<close>

definition joinable :: "relationship list \<Rightarrow> alert list \<Rightarrow> incident_db \<Rightarrow> alert \<Rightarrow> incident \<Rightarrow> bool" where
  "joinable es as db a x \<longleftrightarrow>
     in_status x = IncActive \<and> al_account a = Some (in_account x) \<and> near (in_started x) (al_triggered_at a) \<and>
     list_ex (\<lambda>(i, k). i = in_id x \<and>
        list_ex (\<lambda>b. al_id b = k \<and> al_account b = al_account a \<and> linked es (in_account x) (al_resource b) (al_resource a)) as)
       (ic_members db)"

definition partner_of :: "relationship list \<Rightarrow> incident_db \<Rightarrow> alert \<Rightarrow> alert \<Rightarrow> bool" where
  "partner_of es db a b \<longleftrightarrow>
     al_status b = Active \<and> base_where b \<and> al_account b = al_account a \<and> al_id b \<noteq> al_id a \<and>
     \<not> list_ex (\<lambda>(i, k). k = al_id b) (ic_members db) \<and> near (al_triggered_at b) (al_triggered_at a) \<and>
     linked es (the (al_account a)) (al_resource b) (al_resource a)"

text \<open>\<open>INSERT IGNORE\<close>, with the row count.\<close>

definition add_member :: "nat \<Rightarrow> nat \<Rightarrow> incident_db \<Rightarrow> incident_db" where
  "add_member i k db = (if (i, k) \<in> set (ic_members db) then db else db\<lparr>ic_members := ic_members db @ [(i, k)]\<rparr>)"

definition refresh_incident :: "secs \<Rightarrow> alert \<Rightarrow> incident \<Rightarrow> incident" where
  "refresh_incident now a x =
     x\<lparr>in_last_seen := now, in_severity := (if al_severity a = CRITICAL then CRITICAL else in_severity x)\<rparr>"

definition join_incident :: "secs \<Rightarrow> alert \<Rightarrow> incident \<Rightarrow> incident_db \<Rightarrow> incident_db" where
  "join_incident now a x db =
     (let db1 = add_member (in_id x) (al_id a) db in
      db1\<lparr>ic_incidents := update_where (\<lambda>y. in_id y = in_id x) (refresh_incident now a) (ic_incidents db1)\<rparr>)"

definition seed_incident :: "secs \<Rightarrow> alert \<Rightarrow> alert \<Rightarrow> incident_db \<Rightarrow> incident_db" where
  "seed_incident now a b db =
     (let i = ic_next db; r = pick_root a b;
          x = \<lparr>in_id = i, in_account = the (al_account a), in_title = incident_title r,
               in_severity = (if al_severity a = CRITICAL \<or> al_severity b = CRITICAL then CRITICAL else al_severity a),
               in_status = IncActive, in_created = now, in_started = al_triggered_at r, in_last_seen = now, in_resolved_at = None\<rparr>
      in add_member i (al_id b) (add_member i (al_id a)
           (db\<lparr>ic_incidents := ic_incidents db @ [x], ic_next := i + 1\<rparr>)))"

text \<open>The counts are those of the run: incidents created and alerts attached.\<close>

record correlate_env =
  cr_now :: secs
  cr_alerts :: "alert list"
  cr_edges :: "relationship list"
  cr_rank_alert :: "nat \<Rightarrow> nat"
  cr_rank_incident :: "nat \<Rightarrow> nat"

definition correlate_one ::
  "correlate_env \<Rightarrow> alert \<Rightarrow> incident_db \<times> nat list \<times> nat \<Rightarrow> incident_db \<times> nat list \<times> nat" where
  "correlate_one x a st =
     (case st of (db, created, attached) \<Rightarrow>
        (case first_by (cr_rank_incident x \<circ> in_id)
                (filter (joinable (cr_edges x) (cr_alerts x) db a) (ic_incidents db)) of
           Some i \<Rightarrow>
             (join_incident (cr_now x) a i db, created,
              attached + (if (in_id i, al_id a) \<in> set (ic_members db) then 0 else 1))
         | None \<Rightarrow>
             (case first_by (cr_rank_alert x \<circ> al_id) (filter (partner_of (cr_edges x) db a) (cr_alerts x)) of
                None \<Rightarrow> st
              | Some b \<Rightarrow> (seed_incident (cr_now x) a b db, created @ [ic_next db], attached + 2))))"

subsection \<open>A run\<close>

text \<open>The loose alerts are read once, before the first of them is looked at.\<close>

definition loose_alerts :: "correlate_env \<Rightarrow> incident_db \<Rightarrow> alert list" where
  "loose_alerts x db = sort_key (cr_rank_alert x \<circ> al_id) (filter (loose db) (cr_alerts x))"

definition has_open_member :: "alert list \<Rightarrow> incident_db \<Rightarrow> incident \<Rightarrow> bool" where
  "has_open_member as db x \<longleftrightarrow>
     list_ex (\<lambda>(i, k). i = in_id x \<and> list_ex (\<lambda>a. al_id a = k \<and> is_open a) as) (ic_members db)"

definition close_incidents :: "secs \<Rightarrow> alert list \<Rightarrow> incident_db \<Rightarrow> incident_db" where
  "close_incidents now as db =
     db\<lparr>ic_incidents := update_where (\<lambda>x. in_status x = IncActive \<and> \<not> has_open_member as db x)
          (\<lambda>x. x\<lparr>in_status := IncResolved, in_resolved_at := Some now\<rparr>) (ic_incidents db)\<rparr>"

definition correlate_alerts :: "correlate_env \<Rightarrow> incident_db \<Rightarrow> incident_db \<times> nat list \<times> nat" where
  "correlate_alerts x db =
     (case fold (correlate_one x) (loose_alerts x db) (db, [], 0) of
        (db', created, attached) \<Rightarrow> (close_incidents (cr_now x) (cr_alerts x) db', created, attached))"

subsection \<open>Facts\<close>

lemma first_by_Some: "first_by rank xs = Some x \<Longrightarrow> x \<in> set xs"
  unfolding first_by_def by (metis list.case_eq_if list.set_sel(1) option.distinct(1) option.inject set_sort)

lemma first_by_None: "first_by rank xs = None \<longleftrightarrow> xs = []"
  by (auto simp: first_by_def split: list.split dest: arg_cong [where f = set])

lemma linked_sym: "linked es acct r s = linked es acct s r"
  by (auto simp: linked_def list_ex_iff)

lemma pick_root_first: "al_triggered_at (pick_root a b) = min (al_triggered_at a) (al_triggered_at b)"
  by (auto simp: pick_root_def earlier_def)

text \<open>Which account each incident belongs to, and the invariant: a member belongs to that account.\<close>

definition homes :: "incident_db \<Rightarrow> (nat \<times> nat) set" where
  "homes db = (\<lambda>x. (in_id x, in_account x)) ` set (ic_incidents db)"

definition incidents_ok :: "alert list \<Rightarrow> incident_db \<Rightarrow> bool" where
  "incidents_ok as db \<longleftrightarrow>
     distinct (map in_id (ic_incidents db)) \<and> (\<forall>x\<in>set (ic_incidents db). in_id x < ic_next db) \<and>
     (\<forall>(i, k)\<in>set (ic_members db). \<exists>acct. (i, acct) \<in> homes db \<and>
        (\<forall>a\<in>set as. al_id a = k \<longrightarrow> al_account a = Some acct))"

text \<open>A member that is linked, in the account of the incident, with another member.\<close>

definition linked_in :: "correlate_env \<Rightarrow> incident_db \<Rightarrow> nat \<Rightarrow> nat \<Rightarrow> bool" where
  "linked_in x db i k \<longleftrightarrow>
     (\<exists>acct. (i, acct) \<in> homes db \<and> (\<exists>a\<in>set (cr_alerts x). \<exists>b\<in>set (cr_alerts x).
        al_id a = k \<and> al_id b \<noteq> k \<and> (i, al_id b) \<in> set (ic_members db) \<and>
        linked (cr_edges x) acct (al_resource b) (al_resource a)))"

lemma linked_in_mono:
  assumes "linked_in x db i k" "homes db \<subseteq> homes db'" "set (ic_members db) \<subseteq> set (ic_members db')"
  shows "linked_in x db' i k"
  using assms unfolding linked_in_def by blast

lemma add_member_facts [simp]:
  "ic_incidents (add_member i k db) = ic_incidents db" "ic_next (add_member i k db) = ic_next db"
  "set (ic_members (add_member i k db)) = insert (i, k) (set (ic_members db))"
  by (auto simp: add_member_def)

lemma homes_add_member [simp]: "homes (add_member i k db) = homes db"
  by (simp add: homes_def)

text \<open>Updates of the incident rows that keep the row's id and account.\<close>

lemma homes_update:
  "(\<And>y. in_id (f y) = in_id y \<and> in_account (f y) = in_account y) \<Longrightarrow>
   homes (db\<lparr>ic_incidents := update_where p f (ic_incidents db)\<rparr>) = homes db"
  using map_update_where [of "\<lambda>x. (in_id x, in_account x)" f p "ic_incidents db"]
  by (simp add: homes_def flip: set_map)

lemma incidents_ok_update:
  assumes "incidents_ok as db" "\<And>y. in_id (f y) = in_id y \<and> in_account (f y) = in_account y"
  shows "incidents_ok as (db\<lparr>ic_incidents := update_where p f (ic_incidents db)\<rparr>)"
proof -
  have ids: "map in_id (update_where p f (ic_incidents db)) = map in_id (ic_incidents db)"
    by (rule map_update_where) (simp add: assms(2))
  have "\<forall>n\<in>set (map in_id (update_where p f (ic_incidents db))). n < ic_next db"
    unfolding ids using assms(1) by (auto simp: incidents_ok_def)
  then have "\<forall>x\<in>set (update_where p f (ic_incidents db)). in_id x < ic_next db" by simp
  then show ?thesis
    using assms(1) ids homes_update [of f p db, OF assms(2)] by (simp add: incidents_ok_def)
qed

lemma incidents_ok_member:
  assumes "incidents_ok as db" "(i, acct) \<in> homes db" "\<And>a. a \<in> set as \<Longrightarrow> al_id a = k \<Longrightarrow> al_account a = Some acct"
  shows "incidents_ok as (add_member i k db)"
  using assms by (auto simp: incidents_ok_def)

text \<open>One alert: what a run that is under way keeps.\<close>

definition on_course :: "correlate_env \<Rightarrow> incident_db \<Rightarrow> incident_db \<Rightarrow> bool" where
  "on_course x db0 db \<longleftrightarrow>
     incidents_ok (cr_alerts x) db \<and> homes db0 \<subseteq> homes db \<and> set (ic_members db0) \<subseteq> set (ic_members db) \<and>
     (\<forall>(i, k)\<in>set (ic_members db) - set (ic_members db0). linked_in x db i k)"

lemma same_alert:
  "distinct (map al_id as) \<Longrightarrow> a \<in> set as \<Longrightarrow> b \<in> set as \<Longrightarrow> al_id a = al_id b \<Longrightarrow> a = b"
  by (auto simp: distinct_map inj_on_def)

lemma join_on_course:
  assumes "distinct (map al_id (cr_alerts x))" "on_course x db0 db" "a \<in> set (cr_alerts x)"
    and "y \<in> set (ic_incidents db)" "joinable (cr_edges x) (cr_alerts x) db a y"
  shows "on_course x db0 (join_incident (cr_now x) a y db)"
proof -
  let ?db1 = "add_member (in_id y) (al_id a) db" and ?db' = "join_incident (cr_now x) a y db"
  have keep: "in_id (refresh_incident n a z) = in_id z \<and> in_account (refresh_incident n a z) = in_account z" for n z
    by (simp add: refresh_incident_def)
  have acct: "al_account a = Some (in_account y)" using assms(5) by (simp add: joinable_def)
  have home: "(in_id y, in_account y) \<in> homes db" using assms(4) by (simp add: homes_def)
  have "incidents_ok (cr_alerts x) ?db1"
    using assms(2) home acct same_alert [OF assms(1) _ assms(3)]
    by (intro incidents_ok_member) (auto simp: on_course_def)
  then have ok: "incidents_ok (cr_alerts x) ?db'"
    unfolding join_incident_def Let_def by (rule incidents_ok_update) (rule keep)
  have homes: "homes ?db' = homes db"
    unfolding join_incident_def Let_def by (subst homes_update) (simp_all add: keep)
  have members: "set (ic_members ?db') = insert (in_id y, al_id a) (set (ic_members db))"
    by (simp add: join_incident_def Let_def)
  have "linked_in x ?db' i k" if "(i, k) \<in> set (ic_members ?db') - set (ic_members db0)" for i k
  proof (cases "(i, k) \<in> set (ic_members db)")
    case True
    then have "linked_in x db i k" using assms(2) that by (auto simp: on_course_def)
    then show ?thesis by (rule linked_in_mono) (auto simp: homes members)
  next
    case False
    then have ik: "i = in_id y" "k = al_id a" using that members by auto
    obtain b where b: "b \<in> set (cr_alerts x)" "(in_id y, al_id b) \<in> set (ic_members db)"
        "linked (cr_edges x) (in_account y) (al_resource b) (al_resource a)"
      using assms(5) by (auto simp: joinable_def list_ex_iff)
    then have "al_id b \<noteq> al_id a" using False ik by auto
    then show ?thesis using b home assms(3) unfolding linked_in_def homes members ik by blast
  qed
  then show ?thesis using assms(2) ok homes members by (auto simp: on_course_def)
qed

lemma seed_on_course:
  assumes "distinct (map al_id (cr_alerts x))" "on_course x db0 db" "a \<in> set (cr_alerts x)" "al_account a \<noteq> None"
    and "b \<in> set (cr_alerts x)" "partner_of (cr_edges x) db a b"
  shows "on_course x db0 (seed_incident (cr_now x) a b db)"
proof -
  let ?i = "ic_next db" and ?db' = "seed_incident (cr_now x) a b db"
  obtain acct where acct: "al_account a = Some acct" using assms(4) by auto
  have b: "al_account b = Some acct" "al_id b \<noteq> al_id a" "linked (cr_edges x) acct (al_resource b) (al_resource a)"
    using assms(6) acct by (simp_all add: partner_of_def)
  define y where "y = \<lparr>in_id = ?i, in_account = acct, in_title = incident_title (pick_root a b),
    in_severity = (if al_severity a = CRITICAL \<or> al_severity b = CRITICAL then CRITICAL else al_severity a),
    in_status = IncActive, in_created = cr_now x, in_started = al_triggered_at (pick_root a b), in_last_seen = cr_now x, in_resolved_at = None\<rparr>"
  let ?db1 = "db\<lparr>ic_incidents := ic_incidents db @ [y], ic_next := ?i + 1\<rparr>"
  have db': "?db' = add_member ?i (al_id b) (add_member ?i (al_id a) ?db1)"
    by (simp add: seed_incident_def Let_def y_def acct)
  have homes1: "homes ?db1 = insert (?i, acct) (homes db)" unfolding homes_def by (simp add: y_def)
  have ok0: "incidents_ok (cr_alerts x) db" using assms(2) by (simp add: on_course_def)
  have ok1: "incidents_ok (cr_alerts x) ?db1"
    unfolding incidents_ok_def homes1
  proof (intro conjI)
    show "distinct (map in_id (ic_incidents ?db1))" using ok0 by (auto simp: incidents_ok_def y_def)
    show "\<forall>z\<in>set (ic_incidents ?db1). in_id z < ic_next ?db1" using ok0 by (auto simp: incidents_ok_def y_def)
    show "\<forall>(i, k)\<in>set (ic_members ?db1). \<exists>ac. (i, ac) \<in> insert (?i, acct) (homes db) \<and>
        (\<forall>a\<in>set (cr_alerts x). al_id a = k \<longrightarrow> al_account a = Some ac)"
      using ok0 unfolding incidents_ok_def by fastforce
  qed
  have ok2: "incidents_ok (cr_alerts x) (add_member ?i (al_id a) ?db1)"
    by (rule incidents_ok_member [OF ok1, of _ acct]) (use homes1 acct same_alert [OF assms(1) _ assms(3)] in auto)
  have ok: "incidents_ok (cr_alerts x) ?db'"
    unfolding db'
    by (rule incidents_ok_member [OF ok2, of _ acct]) (use homes1 b same_alert [OF assms(1) _ assms(5)] in auto)
  have homes: "homes ?db' = insert (?i, acct) (homes db)" unfolding db' homes_add_member by (rule homes1)
  have members: "set (ic_members ?db') = insert (?i, al_id b) (insert (?i, al_id a) (set (ic_members db)))"
    by (simp add: db')
  have "linked_in x ?db' i k" if "(i, k) \<in> set (ic_members ?db') - set (ic_members db0)" for i k
  proof (cases "(i, k) \<in> set (ic_members db)")
    case True
    then have "linked_in x db i k" using assms(2) that by (auto simp: on_course_def)
    then show ?thesis by (rule linked_in_mono) (auto simp: homes members)
  next
    case False
    then have "i = ?i" "k = al_id a \<or> k = al_id b" using that members by auto
    then show ?thesis
      using b assms(3,5) linked_sym [of "cr_edges x" acct "al_resource b"] unfolding linked_in_def homes members
      by (metis insertI1 insertI2)
  qed
  then show ?thesis using assms(2) ok homes members by (auto simp: on_course_def)
qed

lemma correlate_one_on_course:
  assumes "distinct (map al_id (cr_alerts x))" "on_course x db0 (fst st)" "a \<in> set (cr_alerts x)" "al_account a \<noteq> None"
  shows "on_course x db0 (fst (correlate_one x a st))"
proof -
  obtain db created attached where st: "st = (db, created, attached)" by (cases st)
  have on: "on_course x db0 db" using assms(2) by (simp add: st)
  show ?thesis
  proof (cases "first_by (cr_rank_incident x \<circ> in_id) (filter (joinable (cr_edges x) (cr_alerts x) db a) (ic_incidents db))")
    case (Some y)
    from first_by_Some [OF Some] show ?thesis
      using Some join_on_course [OF assms(1) on assms(3)] by (simp add: st correlate_one_def)
  next
    case none: None
    show ?thesis
    proof (cases "first_by (cr_rank_alert x \<circ> al_id) (filter (partner_of (cr_edges x) db a) (cr_alerts x))")
      case None
      then show ?thesis using none on by (simp add: st correlate_one_def)
    next
      case (Some b)
      from first_by_Some [OF Some] show ?thesis
        using none Some seed_on_course [OF assms(1) on assms(3,4)] by (simp add: st correlate_one_def)
    qed
  qed
qed

lemma correlate_on_course:
  assumes "distinct (map al_id (cr_alerts x))" "incidents_ok (cr_alerts x) db"
  shows "on_course x db (fst (fold (correlate_one x) (loose_alerts x db) (db, [], 0)))"
proof -
  have "on_course x db (fst (fold (correlate_one x) as st))"
    if "on_course x db (fst st)" "\<And>a. a \<in> set as \<Longrightarrow> a \<in> set (cr_alerts x) \<and> al_account a \<noteq> None" for as st
    using that
  proof (induction as arbitrary: st)
    case (Cons a as)
    show ?case
      using Cons.IH [of "correlate_one x a st"] correlate_one_on_course [OF assms(1) Cons.prems(1)] Cons.prems(2) by auto
  qed simp
  moreover have "on_course x db db" using assms(2) by (simp add: on_course_def)
  moreover have "a \<in> set (cr_alerts x) \<and> al_account a \<noteq> None" if "a \<in> set (loose_alerts x db)" for a
    using that by (auto simp: loose_alerts_def loose_def)
  ultimately show ?thesis by simp
qed

text \<open>A whole run.\<close>

lemma close_on_course: "on_course x db0 db \<Longrightarrow> on_course x db0 (close_incidents now as db)"
proof -
  assume on: "on_course x db0 db"
  have keep: "in_id (y\<lparr>in_status := s, in_resolved_at := r\<rparr>) = in_id y \<and> in_account (y\<lparr>in_status := s, in_resolved_at := r\<rparr>) = in_account y"
    for y s r by simp
  have homes: "homes (close_incidents now as db) = homes db"
    unfolding close_incidents_def by (rule homes_update) (rule keep)
  have "incidents_ok (cr_alerts x) (close_incidents now as db)"
    unfolding close_incidents_def by (rule incidents_ok_update) (use on keep in \<open>simp_all add: on_course_def\<close>)
  moreover have "ic_members (close_incidents now as db) = ic_members db" by (simp add: close_incidents_def)
  moreover have "linked_in x (close_incidents now as db) i k" if "linked_in x db i k" for i k
    using that by (rule linked_in_mono) (simp add: homes, simp add: close_incidents_def)
  ultimately show ?thesis using on homes unfolding on_course_def by fastforce
qed

lemma close_leaves_open:
  "y \<in> set (ic_incidents (close_incidents now as db)) \<Longrightarrow> in_status y = IncActive \<Longrightarrow>
   has_open_member as (close_incidents now as db) y"
  by (auto simp: close_incidents_def set_update_where has_open_member_def)

lemma correlate_alerts_facts:
  assumes "distinct (map al_id (cr_alerts x))" "incidents_ok (cr_alerts x) db"
    and "correlate_alerts x db = (db', created, attached)"
  shows "on_course x db db'"
    and "y \<in> set (ic_incidents db') \<Longrightarrow> in_status y = IncActive \<Longrightarrow> has_open_member (cr_alerts x) db' y"
proof -
  obtain db1 where db1: "fst (fold (correlate_one x) (loose_alerts x db) (db, [], 0)) = db1"
      and db': "db' = close_incidents (cr_now x) (cr_alerts x) db1"
    using assms(3) by (auto simp: correlate_alerts_def split: prod.splits)
  show "on_course x db db'"
    using close_on_course correlate_on_course [OF assms(1,2)] unfolding db1 db' by blast
  show "y \<in> set (ic_incidents db') \<Longrightarrow> in_status y = IncActive \<Longrightarrow> has_open_member (cr_alerts x) db' y"
    unfolding db' by (rule close_leaves_open)
qed

text \<open>Nobody who has a partner is left alone: an alert a run has looked at is in an active incident or has no partner.\<close>

definition placed :: "incident_db \<Rightarrow> alert \<Rightarrow> bool" where
  "placed db a \<longleftrightarrow> list_ex (\<lambda>(i, k). k = al_id a \<and> active_incident db i) (ic_members db)"

definition alone :: "correlate_env \<Rightarrow> incident_db \<Rightarrow> alert \<Rightarrow> bool" where
  "alone x db a \<longleftrightarrow> \<not> list_ex (partner_of (cr_edges x) db a) (cr_alerts x)"

definition served :: "correlate_env \<Rightarrow> incident_db \<Rightarrow> alert \<Rightarrow> bool" where
  "served x db a \<longleftrightarrow> placed db a \<or> alone x db a"

definition grows :: "incident_db \<Rightarrow> incident_db \<Rightarrow> bool" where
  "grows db db' \<longleftrightarrow> set (ic_members db) \<subseteq> set (ic_members db') \<and> (\<forall>i. active_incident db i \<longrightarrow> active_incident db' i)"

lemma placed_iff: "placed db a \<longleftrightarrow> (\<exists>i. (i, al_id a) \<in> set (ic_members db) \<and> active_incident db i)"
  by (auto simp: placed_def list_ex_iff)

lemma grows_served: "grows db db' \<Longrightarrow> served x db a \<Longrightarrow> served x db' a"
  unfolding served_def placed_iff alone_def partner_of_def grows_def list_ex_iff by fastforce

lemma active_update:
  assumes "\<And>y. in_id (f y) = in_id y \<and> in_status (f y) = in_status y"
  shows "active_incident (db\<lparr>ic_incidents := update_where p f (ic_incidents db)\<rparr>) i = active_incident db i"
proof -
  have "(\<lambda>x. (in_id x, in_status x)) ` set (update_where p f (ic_incidents db)) = (\<lambda>x. (in_id x, in_status x)) ` set (ic_incidents db)"
    using map_update_where [of "\<lambda>x. (in_id x, in_status x)" f p "ic_incidents db"] assms by (simp flip: set_map)
  moreover have "active_incident d i \<longleftrightarrow> (i, IncActive) \<in> (\<lambda>x. (in_id x, in_status x)) ` set (ic_incidents d)" for d
    by (auto simp: active_incident_def list_ex_iff)
  ultimately show ?thesis by simp
qed

lemma active_add_member [simp]: "active_incident (add_member i k db) j = active_incident db j"
  by (simp add: active_incident_def)

lemma active_join: "active_incident (join_incident now a y db) i = active_incident db i"
  unfolding join_incident_def Let_def by (subst active_update) (simp_all add: refresh_incident_def)

lemma members_join: "set (ic_members (join_incident now a y db)) = insert (in_id y, al_id a) (set (ic_members db))"
  by (simp add: join_incident_def Let_def)

lemma correlate_one_serves: "grows (fst st) (fst (correlate_one x a st)) \<and> served x (fst (correlate_one x a st)) a"
proof -
  obtain db created attached where st: "st = (db, created, attached)" by (cases st)
  show ?thesis
  proof (cases "first_by (cr_rank_incident x \<circ> in_id) (filter (joinable (cr_edges x) (cr_alerts x) db a) (ic_incidents db))")
    case (Some y)
    from first_by_Some [OF Some] have "active_incident db (in_id y)"
      by (auto simp: active_incident_def list_ex_iff joinable_def)
    then show ?thesis
      using Some by (auto simp: st correlate_one_def grows_def served_def placed_iff active_join members_join)
  next
    case none: None
    show ?thesis
    proof (cases "first_by (cr_rank_alert x \<circ> al_id) (filter (partner_of (cr_edges x) db a) (cr_alerts x))")
      case None
      then have "correlate_one x a st = st" using none by (simp add: st correlate_one_def)
      moreover have "alone x db a" using None by (auto simp: alone_def first_by_None filter_empty_conv list_ex_iff)
      ultimately show ?thesis by (simp add: st grows_def served_def)
    next
      case (Some b)
      then show ?thesis
        using none by (auto simp: st correlate_one_def grows_def served_def placed_iff seed_incident_def Let_def active_incident_def)
    qed
  qed
qed

lemma correlate_serves:
  "grows (fst st) (fst (fold (correlate_one x) as st)) \<and> (\<forall>a\<in>set as. served x (fst (fold (correlate_one x) as st)) a)"
proof (induction as arbitrary: st)
  case (Cons a as)
  let ?st = "correlate_one x a st"
  have s: "grows (fst st) (fst ?st)" "served x (fst ?st) a" using correlate_one_serves by blast+
  have "grows (fst st) (fst (fold (correlate_one x) as ?st))"
    using s(1) Cons.IH [of ?st] unfolding grows_def by blast
  then show ?case using s(2) Cons.IH [of ?st] grows_served [of "fst ?st"] by auto
qed (simp add: grows_def)

lemma close_serves:
  assumes "served x db a" "a \<in> set (cr_alerts x)" "al_status a = Active"
  shows "served x (close_incidents now (cr_alerts x) db) a"
proof -
  have m [simp]: "ic_members (close_incidents now (cr_alerts x) db) = ic_members db" by (simp add: close_incidents_def)
  have "placed (close_incidents now (cr_alerts x) db) a" if pl: "placed db a"
  proof -
    obtain i y where y: "(i, al_id a) \<in> set (ic_members db)" "y \<in> set (ic_incidents db)" "in_id y = i" "in_status y = IncActive"
      using pl by (auto simp: placed_iff active_incident_def list_ex_iff)
    then have "has_open_member (cr_alerts x) db y"
      using assms(2,3) by (auto simp: has_open_member_def list_ex_iff is_open_def)
    then have "y \<in> set (ic_incidents (close_incidents now (cr_alerts x) db))"
      using y(2) by (force simp: close_incidents_def set_update_where)
    then show ?thesis using y by (auto simp: placed_iff active_incident_def list_ex_iff)
  qed
  then show ?thesis using assms(1) by (auto simp: served_def alone_def partner_of_def list_ex_iff)
qed

lemma correlate_alerts_serves:
  assumes "correlate_alerts x db = (db', created, attached)" "a \<in> set (loose_alerts x db)"
  shows "served x db' a"
proof -
  let ?db1 = "fst (fold (correlate_one x) (loose_alerts x db) (db, [], 0))"
  have "db' = close_incidents (cr_now x) (cr_alerts x) ?db1"
    using assms(1) by (auto simp: correlate_alerts_def split: prod.splits)
  moreover have "served x ?db1 a" using correlate_serves assms(2) by blast
  moreover have "a \<in> set (cr_alerts x)" "al_status a = Active" using assms(2) by (auto simp: loose_alerts_def loose_def)
  ultimately show ?thesis using close_serves by simp
qed

text \<open>Every attached alert is a new row.\<close>

lemma correlate_one_counts:
  assumes "\<forall>(i, k)\<in>set (ic_members (fst st)). i < ic_next (fst st)"
  shows "length (ic_members (fst (correlate_one x a st))) + snd (snd st) =
    length (ic_members (fst st)) + snd (snd (correlate_one x a st))"
proof -
  obtain db created attached where st: "st = (db, created, attached)" by (cases st)
  have "(ic_next db, k) \<notin> set (ic_members db)" for k using assms by (auto simp: st)
  then show ?thesis
    by (auto simp: st correlate_one_def join_incident_def seed_incident_def add_member_def Let_def partner_of_def
        split: option.splits dest!: first_by_Some)
qed

lemma on_course_refl: "incidents_ok (cr_alerts x) db \<Longrightarrow> on_course x db db"
  by (simp add: on_course_def)

lemma incidents_ok_ids: "incidents_ok as db \<Longrightarrow> \<forall>(i, k)\<in>set (ic_members db). i < ic_next db"
  by (fastforce simp: incidents_ok_def homes_def)

lemma correlate_counts:
  assumes "distinct (map al_id (cr_alerts x))" "\<And>a. a \<in> set as \<Longrightarrow> a \<in> set (cr_alerts x) \<and> al_account a \<noteq> None"
    and "incidents_ok (cr_alerts x) (fst st)"
  shows "length (ic_members (fst (fold (correlate_one x) as st))) + snd (snd st) =
    length (ic_members (fst st)) + snd (snd (fold (correlate_one x) as st))"
  using assms(2,3)
proof (induction as arbitrary: st)
  case (Cons a as)
  have "on_course x (fst st) (fst (correlate_one x a st))"
    using correlate_one_on_course [OF assms(1) on_course_refl] Cons.prems by auto
  then have "incidents_ok (cr_alerts x) (fst (correlate_one x a st))" by (simp add: on_course_def)
  then show ?case
    using Cons.IH [of "correlate_one x a st"] Cons.prems correlate_one_counts [OF incidents_ok_ids, of "cr_alerts x" st x a] by auto
qed simp

lemma correlate_alerts_count:
  assumes "distinct (map al_id (cr_alerts x))" "incidents_ok (cr_alerts x) db"
    and "correlate_alerts x db = (db', created, attached)"
  shows "length (ic_members db') = length (ic_members db) + attached"
proof -
  have "\<And>a. a \<in> set (loose_alerts x db) \<Longrightarrow> a \<in> set (cr_alerts x) \<and> al_account a \<noteq> None"
    by (auto simp: loose_alerts_def loose_def)
  from correlate_counts [OF assms(1) this, of "loose_alerts x db" "(db, [], 0)"] show ?thesis
    using assms(2,3) by (auto simp: correlate_alerts_def close_incidents_def split: prod.splits)
qed

subsection \<open>An alert in two incidents\<close>

text \<open>
  The loose alerts are read before the first of them is looked at, so an alert taken as a partner is looked at again, and
  then joins any open incident it is linked to.
\<close>

definition demo_breach :: "nat \<Rightarrow> string \<Rightarrow> secs \<Rightarrow> alert" where
  "demo_breach i r t =
     \<lparr>al_id = i, al_account = Some 4, al_resource = r, al_metric = ''CPUUtilization'', al_severity = WARNING,
      al_environment = Prod, al_group_key = (4, r, ''CPUUtilization''), al_status = Active, al_triggered_at = t,
      al_last_seen_at = Some t, al_cycle_at = None, al_healthy_streak = 0, al_current_value = None, al_threshold = None,
      al_breach_value = None, al_breach_threshold = None, al_silenced = False, al_silenced_reason = None,
      al_muted_until = None, al_acked = False, al_acked_by = None, al_acked_at = None, al_resolved_at = None,
      al_resolution_reason = None, al_resolved_by = None, al_escalated_at = None, al_escalated_group = None\<rparr>"

definition demo_correlation :: correlate_env where
  "demo_correlation = \<lparr>cr_now = 1200, cr_alerts = [demo_breach 10 ''lb'' 0, demo_breach 11 ''vol'' 600, demo_breach 12 ''vm'' 900],
     cr_edges = [\<lparr>rl_account = 4, rl_source = ''lb'', rl_target = ''vm''\<rparr>, \<lparr>rl_account = 4, rl_source = ''vm'', rl_target = ''vol''\<rparr>],
     cr_rank_alert = id, cr_rank_incident = id\<rparr>"

definition demo_incident :: incident where
  "demo_incident = \<lparr>in_id = 1, in_account = 4, in_title = ''lb'', in_severity = WARNING, in_status = IncActive,
     in_created = 0, in_started = 0, in_last_seen = 0, in_resolved_at = None\<rparr>"

definition demo_incidents :: incident_db where
  "demo_incidents = \<lparr>ic_incidents = [demo_incident], ic_members = [(1, 10)], ic_next = 2\<rparr>"

lemma an_alert_in_two_incidents:
  "(case correlate_alerts demo_correlation demo_incidents of (db, created, attached) \<Rightarrow>
      ic_members db = [(1, 10), (2, 11), (2, 12), (1, 12)] \<and> created = [2] \<and> attached = 3 \<and>
      active_incident db 1 \<and> active_incident db 2)"
  by code_simp

end
