(* ===== verification/Mail_Worker.thy ===== *)
theory Mail_Worker
  imports Alert_Evaluator Mail_Limits Incidents
begin

text \<open>
  The other half of \<open>app/email/rule_dispatch.py\<close>: the sweep over resolved alerts and incidents, the hooks the collector
  calls and the bounded queue with its one worker thread.
\<close>

subsection \<open>The sweep\<close>

definition SWEEP_LIMIT :: nat where
  "SWEEP_LIMIT = 500"

definition sweep_minutes :: "environ \<Rightarrow> int" where
  "sweep_minutes osenv = knob osenv ''EMAIL_RULE_SWEEP_MINUTES'' (30, 5, 1440)"

definition wanted_events :: "mail_rule list \<Rightarrow> string list" where
  "wanted_events rules = concat (map (\<lambda>r. map strip (split_ch (CHR '','') (text_or (mr_events r) []))) rules)"

definition alert_item :: "alert \<Rightarrow> string \<times> mail_ctx" where
  "alert_item a =
     (''alert_resolved'', \<lparr>mc_kind = AboutAlert, mc_object = al_id a, mc_account = al_account a, mc_resource = Some (al_resource a),
        mc_metric = Some (al_metric a), mc_severity = Some (severity_text (al_severity a)), mc_group = None, mc_silenced = False\<rparr>)"

definition incident_item :: "string \<Rightarrow> incident \<Rightarrow> string \<times> mail_ctx" where
  "incident_item event x =
     (event, \<lparr>mc_kind = AboutIncident, mc_object = in_id x, mc_account = Some (in_account x), mc_resource = None,
        mc_metric = None, mc_severity = Some (severity_text (in_severity x)), mc_group = None, mc_silenced = False\<rparr>)"

text \<open>Alerts are timed by \<open>UTC_TIMESTAMP()\<close>, incidents by \<open>NOW()\<close>.\<close>

definition just_resolved :: "secs \<Rightarrow> int \<Rightarrow> alert \<Rightarrow> bool" where
  "just_resolved utc minutes a \<longleftrightarrow>
     al_status a = Resolved \<and> (case al_resolved_at a of None \<Rightarrow> False | Some t \<Rightarrow> utc - minutes * 60 \<le> t) \<and> \<not> al_silenced a"

definition just_closed :: "secs \<Rightarrow> int \<Rightarrow> incident \<Rightarrow> bool" where
  "just_closed now minutes x \<longleftrightarrow>
     in_status x = IncResolved \<and> (case in_resolved_at x of None \<Rightarrow> False | Some t \<Rightarrow> now - minutes * 60 \<le> t)"

definition first_rows :: "('r \<Rightarrow> nat) \<Rightarrow> ('r \<Rightarrow> bool) \<Rightarrow> 'r list \<Rightarrow> 'r list" where
  "first_rows idf p rows = take SWEEP_LIMIT (sort_key idf (filter p rows))"

definition sweep_items :: "secs \<Rightarrow> secs \<Rightarrow> int \<Rightarrow> mail_rule list \<Rightarrow> alert list \<Rightarrow> incident list \<Rightarrow> (string \<times> mail_ctx) list" where
  "sweep_items utc now minutes rules as xs =
     (let wanted = wanted_events rules in
      (if ''alert_resolved'' \<in> set wanted then map alert_item (first_rows al_id (just_resolved utc minutes) as) else []) @
      (if ''incident_opened'' \<in> set wanted
       then map (incident_item ''incident_opened'') (first_rows in_id (\<lambda>x. now - minutes * 60 \<le> in_created x) xs) else []) @
      (if ''incident_resolved'' \<in> set wanted
       then map (incident_item ''incident_resolved'') (first_rows in_id (just_closed now minutes) xs) else []))"

text \<open>\<open>clk\<close>: the instants the items are handled at.\<close>

definition mail_sweep ::
  "bool \<Rightarrow> mail_io \<Rightarrow> mail_db \<Rightarrow> secs \<Rightarrow> secs \<Rightarrow> alert list \<Rightarrow> incident list \<Rightarrow> (nat \<Rightarrow> secs \<times> secs) \<Rightarrow> mail_world \<Rightarrow> mail_world \<times> nat" where
  "mail_sweep smtp io db utc now as xs clk w =
     (if \<not> email_center_enabled (io_osenv io) then (w, 0)
      else (let items = sweep_items utc now (sweep_minutes (io_osenv io)) (load_rules db) as xs in
            dispatch_many smtp io db (zip items (map clk [0..<length items])) w))"

subsection \<open>The queue\<close>

definition QUEUE_MAX :: nat where
  "QUEUE_MAX = 500"

datatype job = SweepJob | EventJob string mail_ctx

text \<open>
  \<open>wk_claims\<close>: callers between setting the flag and putting their sweep on the queue; \<open>wk_refused\<close>: callers
  whose sweep found the queue full and who have not cleared the flag yet.
\<close>

record worker =
  wk_queue :: "job list"
  wk_running :: "job option"
  wk_sweep_pending :: bool
  wk_claims :: nat
  wk_refused :: nat

definition idle_worker :: worker where
  "idle_worker = \<lparr>wk_queue = [], wk_running = None, wk_sweep_pending = False, wk_claims = 0, wk_refused = 0\<rparr>"

definition submit_job :: "job \<Rightarrow> worker \<Rightarrow> worker \<times> bool" where
  "submit_job j w =
     (if length (wk_queue w) < QUEUE_MAX then (w\<lparr>wk_queue := wk_queue w @ [j]\<rparr>, True) else (w, False))"

text \<open>\<open>submit_sweep\<close>, in the steps between which other threads may run.\<close>

definition claim_sweep :: "worker \<Rightarrow> worker \<times> bool" where
  "claim_sweep w =
     (if wk_sweep_pending w then (w, False) else (w\<lparr>wk_sweep_pending := True, wk_claims := wk_claims w + 1\<rparr>, True))"

definition put_sweep :: "worker \<Rightarrow> worker \<times> bool" where
  "put_sweep w =
     (case submit_job SweepJob (w\<lparr>wk_claims := wk_claims w - 1\<rparr>) of
        (w', True) \<Rightarrow> (w', True)
      | (w', False) \<Rightarrow> (w'\<lparr>wk_refused := wk_refused w' + 1\<rparr>, False))"

definition release_sweep :: "worker \<Rightarrow> worker" where
  "release_sweep w = w\<lparr>wk_refused := wk_refused w - 1, wk_sweep_pending := False\<rparr>"

text \<open>The thread: it takes a job, and clears the flag after a sweep however that ended.\<close>

definition take_job :: "worker \<Rightarrow> worker" where
  "take_job w =
     (case (wk_running w, wk_queue w) of
        (None, j # q) \<Rightarrow> w\<lparr>wk_queue := q, wk_running := Some j\<rparr>
      | _ \<Rightarrow> w)"

definition finish_job :: "worker \<Rightarrow> worker" where
  "finish_job w =
     (case wk_running w of
        None \<Rightarrow> w
      | Some j \<Rightarrow> w\<lparr>wk_running := None, wk_sweep_pending := (if j = SweepJob then False else wk_sweep_pending w)\<rparr>)"

definition handle_job ::
  "bool \<Rightarrow> mail_io \<Rightarrow> mail_db \<Rightarrow> secs \<Rightarrow> secs \<Rightarrow> alert list \<Rightarrow> incident list \<Rightarrow> (nat \<Rightarrow> secs \<times> secs) \<Rightarrow> job
   \<Rightarrow> mail_world \<Rightarrow> mail_world \<times> nat" where
  "handle_job smtp io db utc now as xs clk j w =
     (case j of
        SweepJob \<Rightarrow> mail_sweep smtp io db utc now as xs clk w
      | EventJob event cx \<Rightarrow> dispatch_many smtp io db [((event, cx), clk 0)] w)"

text \<open>The hooks.\<close>

definition enqueue_alert_event :: "environ \<Rightarrow> string \<Rightarrow> mail_ctx \<Rightarrow> worker \<Rightarrow> worker \<times> bool" where
  "enqueue_alert_event osenv event cx w =
     (if \<not> email_center_enabled osenv \<or> event \<notin> {''alert_opened'', ''alert_escalated'', ''alert_resolved''} \<or> mc_silenced cx
      then (w, False)
      else if mc_object cx = 0 then (w, False)
      else submit_job (EventJob event (cx\<lparr>mc_kind := AboutAlert\<rparr>)) w)"

definition enqueue_channel_event :: "environ \<Rightarrow> string \<Rightarrow> mail_ctx \<Rightarrow> worker \<Rightarrow> worker \<times> bool" where
  "enqueue_channel_event osenv k cx w =
     (if k = ''opened'' then enqueue_alert_event osenv ''alert_opened'' cx w
      else if k = ''escalated'' then enqueue_alert_event osenv ''alert_escalated'' cx w
      else (w, False))"

inductive worker_steps :: "environ \<Rightarrow> worker \<Rightarrow> bool" for osenv where
  start: "worker_steps osenv idle_worker"
| event: "worker_steps osenv w \<Longrightarrow> worker_steps osenv (fst (enqueue_alert_event osenv event cx w))"
| claim: "worker_steps osenv w \<Longrightarrow> email_center_enabled osenv \<Longrightarrow> worker_steps osenv (fst (claim_sweep w))"
| put: "worker_steps osenv w \<Longrightarrow> wk_claims w > 0 \<Longrightarrow> worker_steps osenv (fst (put_sweep w))"
| release: "worker_steps osenv w \<Longrightarrow> wk_refused w > 0 \<Longrightarrow> worker_steps osenv (release_sweep w)"
| take: "worker_steps osenv w \<Longrightarrow> worker_steps osenv (take_job w)"
| finish: "worker_steps osenv w \<Longrightarrow> worker_steps osenv (finish_job w)"

subsection \<open>One sweep at a time\<close>

definition sweeps :: "worker \<Rightarrow> nat" where
  "sweeps w = wk_claims w + wk_refused w + length (filter (\<lambda>j. j = SweepJob) (wk_queue w)) +
     (if wk_running w = Some SweepJob then 1 else 0)"

definition worker_ok :: "worker \<Rightarrow> bool" where
  "worker_ok w \<longleftrightarrow> length (wk_queue w) \<le> QUEUE_MAX \<and> sweeps w = (if wk_sweep_pending w then 1 else 0)"

lemma worker_invariant: "worker_steps osenv w \<Longrightarrow> worker_ok w"
proof (induction rule: worker_steps.induct)
  case (take w)
  then show ?case by (auto simp: worker_ok_def sweeps_def take_job_def split: list.split option.split if_splits)
next
  case (finish w)
  then show ?case by (auto simp: worker_ok_def sweeps_def finish_job_def split: option.split if_splits)
qed (auto simp: worker_ok_def sweeps_def idle_worker_def enqueue_alert_event_def submit_job_def claim_sweep_def put_sweep_def
    release_sweep_def split: if_splits)

end
