(* ===== verification/Spec2Isabelle.thy ===== *)
theory Spec2Isabelle
  imports Alert_System Rate_Limit Leader Rbac Env_Suggest Health Mail_Worker
begin

text \<open>
  The monitoring hub collects metrics of AWS, Azure and GCP accounts into a MySQL database,
  decides which readings are alerts, and lets people with different rights look at and act on
  them. This development models the part of the Python backend under \<open>src/app\<close> that decides:
  what environment and priority a resource has, how often a metric is polled, which line a
  reading is compared with, when an alert opens, closes, is silenced, swept or escalated, who may
  see or change what, how logins are limited, and which worker process leads. Calls to cloud
  providers, the web server, mail and rendering are outside it.

  Conventions. A row of a table is a record whose fields are the columns the code names; a table
  is a list in the order of the primary key; a SQL query is a filter or a join of such lists, in
  the order its \<open>ORDER BY\<close> gives. A function that writes the database takes the tables and
  returns them. Time is an integer of seconds and is an argument. Python floats are rationals:
  the code's comparisons, products and roundings are exact here. A missing value is \<open>None\<close>; a
  raise is \<open>Inl\<close> of an error. Python dicts are association lists in insertion order
  (\<open>Prelude\<close>, with the interface \<open>keyed_store\<close> and its interpretation).

  Theories, in the order they import one another:
  \<^item> \<open>Prelude\<close>: characters and strings, dicts, row updates (\<open>update_where\<close>, \<open>rowcount\<close>), and the
    lemmas the components share.
  \<^item> \<open>Env_Tiers\<close> (\<open>env_tiers.py\<close>), \<open>Env_Scan\<close>, \<open>Env_Classifier\<close>, \<open>Env_Tags\<close> and \<open>Env_Suggest\<close>
    (\<open>environment_classifier.py\<close>): the vocabulary of the two environments, the scanner that
    finds it in free text, the order of evidence, the tag state with the mismatch warnings, and the
    suggestions made from siblings with their index. The interface \<open>fail_safe_tier\<close> says that
    what is not recognised counts as production; every reader of a tier uses its lemmas.
  \<^item> \<open>Threshold_Defaults\<close> (\<open>threshold_defaults.py\<close>): default lines, size floors, static-only
    metrics, metric names, rounding of limits.
  \<^item> \<open>Provider_Tiers\<close> (\<open>providers/azure\<close> and \<open>providers/gcp\<close> \<open>severity_tiers.py\<close>),
    \<open>Polling_Model\<close> (\<open>collector/polling_model.py\<close>) and \<open>Env_Polling\<close>
    (\<open>collector/env_polling.py\<close>): how often each metric is polled and how far back it is asked for.
    The curated metric catalogues are arguments: the theorems hold for any catalogue.
  \<^item> \<open>Priority\<close> (\<open>priority.py\<close>): P1 to P4.
  \<^item> \<open>Alert_Tables\<close> (rows of \<open>alerts\<close>, \<open>alert_pending\<close>, \<open>resources\<close>, \<open>aws_accounts\<close>),
    \<open>Alert_Rules\<close> (\<open>alert_rules.py\<close>: states, staleness, counts), \<open>Alert_Lines\<close> (the arithmetic of
    \<open>collector/alert_evaluator.py\<close>), \<open>Cycle_Gate\<close> (its clock, with the interface \<open>cycle_gate\<close>
    interpreted once for healthy and once for breaching readings), \<open>Alert_Evaluator\<close> (its state
    machine and loop), \<open>Alert_Sweep\<close> (its sweep).
  \<^item> \<open>Maintenance\<close> (\<open>collector/maintenance.py\<close>), \<open>Authorization\<close> (\<open>auth/authorization.py\<close> and the
    granting half of \<open>api/admin/users.py\<close>), \<open>Escalation\<close> (\<open>collector/escalation.py\<close>),
    \<open>Alert_Actions\<close> (the endpoints of \<open>api/alerts.py\<close> that write).
  \<^item> \<open>Rbac\<close> (\<open>auth/rbac.py\<close>): version 2 of access control over the same groups and tables:
    decisions, their explanations, the list filter, the grant gate and the cache, whose requests
    are steps of a transition system.
  \<^item> \<open>Synth_Guard\<close> (the address guard of \<open>collector/synthetic.py\<close>, on words), \<open>Synth_Probe\<close> (what a
    probe makes of an answer) and \<open>Synthetic\<close> (due checks, the writes of a probe, and the step
    relation of one check under its editors; \<open>PATCH\<close> and \<open>DELETE\<close> of \<open>api/synthetic.py\<close>).
  \<^item> \<open>Alert_Writer\<close>: how a part that raises its own alerts finds, refreshes, opens and resolves
    them, with the interface \<open>alert_writer\<close>, interpreted by the synthetic checks (outage and certificate),
    by \<open>Watchdog\<close> (\<open>collector/host_agent_watchdog.py\<close>), by \<open>Cost_Jump\<close> (\<open>collector/cost_jump_alert.py\<close>)
    and by \<open>Anomaly\<close> (\<open>collector/multivariate_anomaly.py\<close>).
  \<^item> \<open>Json\<close> (values of a request body) and \<open>Cost_Settings\<close> (\<open>cost_jump_settings.py\<close>): the settings of
    the cost alert, validated, stored, read back and resolved per account.
  \<^item> \<open>Retention\<close> (\<open>collector/retention.py\<close> and the removal of an account): what deletes rows.
  \<^item> \<open>Incidents\<close> (\<open>collector/correlate.py\<close>): active alerts of linked resources become incidents;
    \<open>Health\<close> (\<open>collector/health_score.py\<close>): the table of health scores and its recomputation.
  \<^item> \<open>Mail_Rules\<close> (\<open>email/alert_rules.py\<close>, \<open>email/recipients.py\<close>, the channels of
    \<open>notifications/sender.py\<close> and the dispatch of \<open>email/rule_dispatch.py\<close>), \<open>Mail_Limits\<close> (what a dispatch
    keeps) and \<open>Mail_Worker\<close> (the sweep, the hooks and the queue with its thread as a step relation).
  \<^item> \<open>Alert_System\<close>: all writers of the alert tables as one step relation, and the invariants of
    every reachable store; \<open>kept_writer\<close> extends \<open>alert_writer\<close> with what a row may become.
  \<^item> \<open>Rate_Limit\<close> (\<open>auth/rate_limit.py\<close>) over a model of the Redis commands it uses, and \<open>Leader\<close>
    (\<open>collector/leader.py\<close>), a transition system with dropped sessions, failing queries and
    crashes.

  How the parts meet. The classifier gives the environment that the priority, the polling interval
  and the severity of a warning depend on. The polling model gives the cadence that staleness,
  evaluation windows and required confirmations depend on. The evaluator, the sweep, synthetic probes,
  the watchdog, the cost check, anomaly detection, maintenance, escalation, retention and people all write \<open>alerts\<close>; \<open>Alert_System\<close> shows that their writes in any order
  keep the tables consistent and delete only what is old and resolved or belongs to a removed account. Authorization decides who may act and whom an escalation reaches.

  Bounds. \<open>downstream\<close> in \<open>Maintenance\<close> counts down \<open>MAX_CASCADE_DEPTH\<close>, as the recursive query
  does. \<open>group_chain\<close> and
  \<open>parent_walk\<close> end because every step adds to the groups seen. Chunked updates
  (500 ids at a time) recurse on the rest of the list. Pruning counts down its \<open>MAX_BATCHES\<close>, as the
  code does. Nothing else needs fuel.

  Not modelled. Collectors, discovery, reports, mail texts, LLM calls, caches and the read-only
  endpoints of the browser; logging; the SQL text caches; concurrency inside one statement (a
  statement or a committed transaction is one step). \<open>json.loads\<close> and the regular expression
  engine are represented by what they return for the inputs of this code: parsed values are
  arguments, the patterns are written out as functions.

  The properties C1 to C40 below are the claims of the development; each is preceded by its
  statement in words, and those with hypotheses are followed by an instance.
\<close>


section \<open>The alert tables\<close>

text \<open>
  C1: Whatever cycles, sweeps, maintenance runs, escalation runs, synthetic probes, watchdog passes, cost
  checks, anomaly runs, prunings, account removals and human actions have happened in whatever order, at most one alert is open per account, resource and metric, alert ids are
  distinct, and every row's acknowledgement, resolution, silencing and escalation columns agree
  with its status: an active alert is not acknowledged, a resolved one says when, why and by
  whom, a silenced one says why, an escalated one to which group.
\<close>

theorem alert_tables_consistent:
  assumes "alert_run (t, db)"
  shows "one_open_per_key (st_alerts db) \<and> distinct (map al_id (st_alerts db)) \<and>
         filter (\<lambda>a. \<not> row_ok a) (st_alerts db) = []"
  using run_ok [OF assms] by (auto simp: store_ok_def ids_ok_def filter_empty_conv)

text \<open>A row whose first breach is confirmed at once (an extended-cadence metric) and its alert.\<close>

definition demo_cfg :: poll_cfg where
  "demo_cfg = \<lparr>cfg_on = False, cfg_interval = 3600, cfg_critical_interval = 600, cfg_off = False,
     cfg_critical_only = True\<rparr>"

definition demo_flags :: flags where
  "demo_flags = \<lparr>fl_env_aware = False, fl_priority = False, fl_poll = demo_cfg, fl_p1 = [], fl_overrides = []\<rparr>"

definition demo_row :: eval_row where
  "demo_row = \<lparr>er_account = 1, er_resource = ''q-1'', er_rtype = ''sqs'', er_tags = TagsNull,
     er_env_resolved = None, er_provider = None, er_cadence = ExtendedC, er_unit = None, er_service = None,
     er_metric = ''queue_depth'', er_value = Some 90, er_threshold_id = 1, er_warning = Some 50,
     er_critical = Some 80, er_comparison = Gt, er_evaluation_period = None, er_use_dynamic = False,
     er_dynamic_k = None\<rparr>"

definition demo_store :: store where
  "demo_store = fst (evaluate_cycle demo_flags [] (\<lambda>_. None) (\<lambda>_. False) False 1000 [demo_row] empty_store)"

text \<open>The store in full, for the evaluations below.\<close>

lemma demo_store_value [code]:
  "demo_store =
     \<lparr>st_alerts =
        [\<lparr>al_id = 1, al_account = Some 1, al_resource = ''q-1'', al_metric = ''queue_depth'', al_severity = CRITICAL,
          al_environment = Prod, al_group_key = (1, ''sqs'', ''queue_depth''), al_status = Active, al_triggered_at = 1000,
          al_last_seen_at = Some 1000, al_cycle_at = Some 1000, al_healthy_streak = 0, al_current_value = Some 90,
          al_threshold = Some 80, al_breach_value = Some 90, al_breach_threshold = Some 80, al_silenced = False,
          al_silenced_reason = None, al_muted_until = None, al_acked = False, al_acked_by = None, al_acked_at = None,
          al_resolved_at = None, al_resolution_reason = None, al_resolved_by = None, al_escalated_at = None,
          al_escalated_group = None\<rparr>],
      st_pending = [], st_next_id = 2\<rparr>"
  by code_simp

lemma demo_run: "alert_run (1000, demo_store)"
  unfolding demo_store_def
  by (rule alert_run.Step [OF alert_run.Start [of 1000]]) (rule alert_step.Evaluate, simp)

lemma demo_opens: "map al_status (st_alerts demo_store) = [Active] \<and> map al_severity (st_alerts demo_store) = [CRITICAL]"
  by code_simp

lemma demo_store_ok: "store_ok 1000 demo_store"
  using run_ok [OF demo_run] by simp

theorem alert_tables_consistent_witness:
  "map al_status (st_alerts demo_store) = [Active] \<and>
   one_open_per_key (st_alerts demo_store) \<and> distinct (map al_id (st_alerts demo_store)) \<and>
   filter (\<lambda>a. \<not> row_ok a) (st_alerts demo_store) = []"
  using alert_tables_consistent [OF demo_run] demo_opens by simp



text \<open>
  C3: An alert is opened only after its condition has held long enough: a breach that needs
  \<open>n\<close> confirmations opens an alert no earlier than \<open>(n - 1) * MIN_CYCLE_SECONDS\<close> after the first
  breach, the time the alert then reports as its trigger, however often readings arrive.
\<close>

theorem new_alert_is_confirmed:
  assumes ok: "store_ok t db" and t: "t \<le> now"
    and r: "evaluate_row fl bls silenced now row db sx = Inr (db', sx', msgs)"
    and a: "a \<in> set (st_alerts db')" "al_id a = st_next_id db"
  shows "key_matches (row_key row) a \<and> al_status a = Active \<and>
     MIN_CYCLE_SECONDS * (row_required fl row - 1) \<le> now - al_triggered_at a"
proof -
  have a1: "a \<in> set (st_alerts (fst (db', sx', msgs)))" using a(1) by simp
  obtain v p thr where req: "vd_required v = row_required fl row" and p: "pending_ok now p"
    and n: "vd_required v \<le> int (pd_breach_cycles p)"
    and av: "a = new_alert now row v (row_environment fl row) p thr
       (silenced (er_account row, er_resource row)) (st_next_id db)"
    by (rule opened_alert [OF ok t r a1 a(2)]) blast
  have "MIN_CYCLE_SECONDS * (row_required fl row - 1) \<le> MIN_CYCLE_SECONDS * (int (pd_breach_cycles p) - 1)"
    using req n by (intro mult_left_mono) (simp_all add: MIN_CYCLE_SECONDS_def)
  also have "\<dots> \<le> now - pd_first_breach_at p" using p by (simp add: pending_ok_def)
  finally show ?thesis by (simp add: av new_alert_def key_matches_def row_key_def)
qed

theorem new_alert_is_confirmed_witness:
  "\<exists>db' sx' msgs. evaluate_row demo_flags [] (\<lambda>_. None) 1000 demo_row empty_store no_stats = Inr (db', sx', msgs) \<and>
     map al_id (st_alerts db') = [1] \<and>
     MIN_CYCLE_SECONDS * (row_required demo_flags demo_row - 1) \<le> 1000 - al_triggered_at (hd (st_alerts db'))"
proof -
  have ids: "(case evaluate_row demo_flags [] (\<lambda>_. None) 1000 demo_row empty_store no_stats of
      Inr (db', sx', msgs) \<Rightarrow> map al_id (st_alerts db') = [1] | _ \<Rightarrow> False)"
    by code_simp
  then obtain db' sx' msgs
    where e: "evaluate_row demo_flags [] (\<lambda>_. None) 1000 demo_row empty_store no_stats = Inr (db', sx', msgs)"
      and one: "map al_id (st_alerts db') = [1]"
    by (auto split: sum.splits prod.splits)
  have ok: "store_ok 1000 empty_store"
    by (simp add: store_ok_def ids_ok_def empty_store_def one_open_per_key_def)
  have h: "hd (st_alerts db') \<in> set (st_alerts db')" "al_id (hd (st_alerts db')) = st_next_id empty_store"
    using one by (cases "st_alerts db'", auto simp: empty_store_def)+
  from new_alert_is_confirmed [OF ok order_refl e h] e one show ?thesis
    by (intro exI [of _ db'] exI [of _ sx'] exI [of _ msgs]) simp
qed

text \<open>
  C4: An open alert is closed by a healthy reading only when readings have been healthy for the
  required number of counted cycles, and the reason recorded says so.
\<close>

theorem recovery_is_confirmed:
  assumes ok: "store_ok now db"
    and r: "evaluate_row fl bls silenced now row db sx = Inr (db', sx', msgs)"
    and a: "a \<in> set (st_alerts db)" "is_open a"
    and b: "b \<in> set (st_alerts db')" "al_id b = al_id a" "\<not> is_open b"
  shows "key_matches (row_key row) a \<and> row_required fl row \<le> int (gated_streak now a) \<and>
     al_resolved_at b = Some now \<and>
     (al_resolution_reason b = Some ''recovered'' \<or> al_resolution_reason b = Some ''placeholder_threshold'')"
proof -
  note ids = store_okD(1) [OF ok]
  have b1: "b \<in> set (st_alerts (fst (db', sx', msgs)))" using b(1) by simp
  obtain ex v where v: "vd_required v = row_required fl row"
    and ex: "find_open (row_key row) (st_alerts db) = Some ex" and h: "b = healed now row v ex"
    and res: "vd_required v \<le> int (gated_streak now ex)"
    by (rule resolved_by_row [OF ok r a b1 b(2,3)]) blast
  have "ex = a" using unique_by_id [OF ids find_open_Some(1) [OF ex] a(1)] b(2) h by simp
  then show ?thesis
    using find_open_Some(2) [OF ex] v res by (auto simp: h healed_def resolve_alert_def)
qed

definition demo_healthy :: eval_row where
  "demo_healthy = demo_row\<lparr>er_value := Some 10\<rparr>"

theorem recovery_is_confirmed_witness:
  "\<exists>db' sx' msgs. evaluate_row demo_flags [] (\<lambda>_. None) 2000 demo_healthy demo_store no_stats = Inr (db', sx', msgs) \<and>
     map al_status (st_alerts db') = [Resolved] \<and>
     row_required demo_flags demo_healthy \<le> int (gated_streak 2000 (hd (st_alerts demo_store)))"
proof -
  have run: "(case evaluate_row demo_flags [] (\<lambda>_. None) 2000 demo_healthy demo_store no_stats of
      Inr (db', sx', msgs) \<Rightarrow> map al_status (st_alerts db') = [Resolved] \<and> map al_id (st_alerts db') = [1]
    | _ \<Rightarrow> False)" by code_simp
  then obtain db' sx' msgs
    where e: "evaluate_row demo_flags [] (\<lambda>_. None) 2000 demo_healthy demo_store no_stats = Inr (db', sx', msgs)"
      and st: "map al_status (st_alerts db') = [Resolved]" "map al_id (st_alerts db') = [1]"
    by (auto split: sum.splits prod.splits)
  have one: "map al_id (st_alerts demo_store) = [1]" by code_simp
  obtain a where a: "st_alerts demo_store = [a]" "al_id a = 1" "al_status a = Active"
    using one demo_opens by (cases "st_alerts demo_store") auto
  obtain b where b: "st_alerts db' = [b]" "al_id b = 1" "al_status b = Resolved"
    using st by (cases "st_alerts db'") auto
  have ok: "store_ok 2000 demo_store" by (rule store_ok_mono [OF demo_store_ok]) simp
  have "key_matches (row_key demo_healthy) a \<and> row_required demo_flags demo_healthy \<le> int (gated_streak 2000 a) \<and>
     al_resolved_at b = Some 2000 \<and>
     (al_resolution_reason b = Some ''recovered'' \<or> al_resolution_reason b = Some ''placeholder_threshold'')"
    by (rule recovery_is_confirmed [OF ok e]) (simp_all add: a b is_open_def)
  with e st a show ?thesis by simp
qed

text \<open>
  Evaluating a reading touches only the alert and the candidate of its own account, resource
  and metric: every other alert row and every other candidate is as before.
\<close>

lemma evaluation_is_local:
  assumes "ids_ok db" and "evaluate_row fl bls silenced now row db sx = Inr (db', sx', msgs)"
  shows "filter (\<lambda>a. \<not> key_matches (row_key row) a \<and> a \<notin> set (st_alerts db')) (st_alerts db) = [] \<and>
     (k = row_key row \<or> pending_get (st_pending db') k = pending_get (st_pending db) k)"
  using assms(2)
proof (cases rule: evaluate_row_cases)
  case (Healthy v)
  then have db': "db' = fst (healthy_step now row v db sx)" by (metis fst_conv)
  have "a \<in> set (st_alerts db')" if "a \<in> set (st_alerts db)" "\<not> key_matches (row_key row) a" for a
    unfolding db' by (rule step_other_alerts(1) [OF assms(1) that])
  moreover have "k = row_key row \<or> pending_get (st_pending db') k = pending_get (st_pending db) k"
    unfolding db' using step_other_pending(1) by blast
  ultimately show ?thesis by (simp add: filter_empty_conv) blast
next
  case (Breach v)
  then have db': "db' = fst (breach_step fl silenced now row v db sx)" by (metis fst_conv)
  have "a \<in> set (st_alerts db')" if "a \<in> set (st_alerts db)" "\<not> key_matches (row_key row) a" for a
    unfolding db' by (rule step_other_alerts(2) [OF assms(1) that])
  moreover have "k = row_key row \<or> pending_get (st_pending db') k = pending_get (st_pending db) k"
    unfolding db' using step_other_pending(2) by blast
  ultimately show ?thesis by (simp add: filter_empty_conv) blast
qed

text \<open>
  C5: A reading whose evaluation raises or whose transaction is refused has no effect on the
  tables or on the messages: the cycle does exactly what it does on the other readings, in
  their order.
\<close>

theorem failing_rows_are_isolated:
  "fst (evaluate_rows fl bls silenced cf now rows db sx) =
     fst (evaluate_rows fl bls silenced (\<lambda>_. False) now
            (filter (\<lambda>row. \<not> cf row \<and> \<not> row_raises fl bls now row) rows) db sx') \<and>
   snd (snd (evaluate_rows fl bls silenced cf now rows db sx)) =
     snd (snd (evaluate_rows fl bls silenced (\<lambda>_. False) now
            (filter (\<lambda>row. \<not> cf row \<and> \<not> row_raises fl bls now row) rows) db sx'))"
  by (rule evaluate_rows_failing)

text \<open>
  An alert that opens on a resource under maintenance is born silenced with the window's
  text, and nothing is announced for it: no push, no notification, no mail.
\<close>

lemma maintenance_alert_is_silent:
  assumes ok: "store_ok t db" and t: "t \<le> now"
    and r: "evaluate_row fl bls silenced now row db sx = Inr (db', sx', msgs)"
    and s: "silenced (er_account row, er_resource row) = Some reason"
  shows "filter (\<lambda>m. case m of PublishResolved i acct \<Rightarrow> False | _ \<Rightarrow> True) msgs = [] \<and>
     filter (\<lambda>a. al_id a = st_next_id db \<and> \<not> (al_silenced a \<and> al_silenced_reason a = Some reason))
       (st_alerts db') = []"
proof -
  have msgs: "filter (\<lambda>m. case m of PublishResolved i acct \<Rightarrow> False | _ \<Rightarrow> True) msgs = []"
    using silenced_row_messages [OF r] s by (fastforce simp: filter_empty_conv)
  have "al_silenced a \<and> al_silenced_reason a = Some reason"
    if a: "a \<in> set (st_alerts db')" "al_id a = st_next_id db" for a
  proof -
    have a1: "a \<in> set (st_alerts (fst (db', sx', msgs)))" using a(1) by simp
    obtain v p thr where "a = new_alert now row v (row_environment fl row) p thr
       (silenced (er_account row, er_resource row)) (st_next_id db)"
      by (rule opened_alert [OF ok t r a1 a(2)]) blast
    then show ?thesis using s by (simp add: new_alert_def)
  qed
  with msgs show ?thesis by (auto simp: filter_empty_conv)
qed

section \<open>Lines and verdicts\<close>

text \<open>
  C6: The guard rails of a learned line. Upward: the critical line is never below the configured
  one, the warning line never below half of its own and never above the critical line, and on a
  percentage neither is above 99.9 unless the configured critical line already is. Downward (free
  memory, credit balances): the critical line is never above the configured one or the warning
  line, and a positive warning line is never raised above twice the configured one.
\<close>

theorem learned_lines_are_railed:
  assumes "0 \<le> sw" and "sw \<le> sc"
  shows "if upward op
     then sc \<le> snd (clamp_dynamic_bounds dw dc sw sc op unit) \<and>
       sw / 2 \<le> fst (clamp_dynamic_bounds dw dc sw sc op unit) \<and>
       fst (clamp_dynamic_bounds dw dc sw sc op unit) \<le> snd (clamp_dynamic_bounds dw dc sw sc op unit) \<and>
       \<not> (is_percent unit \<and> sc \<le> 100 \<and>
          max PERCENT_CAP sc < snd (clamp_dynamic_bounds dw dc sw sc op unit))
     else snd (clamp_dynamic_bounds dw dc sw' sc' op unit) \<le> sc' \<and>
       snd (clamp_dynamic_bounds dw dc sw' sc' op unit) \<le> fst (clamp_dynamic_bounds dw dc sw' sc' op unit) \<and>
       fst (clamp_dynamic_bounds dw dc sw' sc' op unit) \<le> (if sw' > 0 then 2 * sw' else sw')"
  using assms
  by (auto simp: clamp_dynamic_bounds_def Let_def MAX_TIGHTEN_FACTOR_def PERCENT_CAP_def max_def min_def)

theorem learned_lines_are_railed_witness:
  "80 \<le> snd (clamp_dynamic_bounds 20 300 60 80 Ge (Some ''Percent'')) \<and>
   snd (clamp_dynamic_bounds 900 700 100 50 Lt None) \<le> 50 \<and> fst (clamp_dynamic_bounds 900 700 100 50 Lt None) \<le> 200"
  using learned_lines_are_railed [of 60 80 Ge 20 300 "Some ''Percent''"]
    learned_lines_are_railed [of 0 0 Lt 900 700 None 100 50]
  by (simp add: upward_def)

text \<open>
  Rounding a learned limit of a whole-number metric to a whole number never changes the
  verdict on a whole-number reading, for each of the four comparisons, when the limit is a whole
  number or at least a billionth away from one.
\<close>

lemma integer_limits_keep_verdicts:
  assumes "off_grid v"
  shows "compare (Some (of_int n)) (integerize_limit (Some v) op) op = compare (Some (of_int n)) (Some v) op"
  using assms by (rule integerize_same_verdict)

lemma integer_limits_keep_verdicts_instance:
  "compare (Some (of_int 8)) (integerize_limit (Some (15 / 2)) Gt) Gt = compare (Some (of_int 8)) (Some (15 / 2)) Gt"
proof -
  have "\<lfloor>15 / 2 :: rat\<rfloor> = 7" by (simp add: floor_eq_iff)
  then have "frac (15 / 2 :: rat) = 1 / 2" by (simp add: frac_def)
  then have "off_grid (15 / 2)" by (simp add: off_grid_def EPS_def)
  then show ?thesis by (rule integer_limits_keep_verdicts)
qed

text \<open>
  Of several thresholds configured for one account, resource and metric, exactly one
  governs: the one with the lowest id among those for the right kind of load balancer.
\<close>

lemma one_threshold_governs:
  "distinct (map sel_key (select_threshold_rows rows)) \<and>
   set (map sel_key (select_threshold_rows rows)) = sel_key ` {r \<in> set rows. \<not> wrong_balancer r} \<and>
   list_all (\<lambda>m. m \<in> set rows \<and> \<not> wrong_balancer m \<and>
      list_all (\<lambda>r. er_threshold_id m \<le> er_threshold_id r)
        (filter (\<lambda>r. \<not> wrong_balancer r \<and> sel_key r = sel_key m) rows))
     (select_threshold_rows rows)"
proof (intro conjI)
  show "distinct (map sel_key (select_threshold_rows rows))"
    using select_loop_wf [of "[]" rows] select_rows_keys [of rows]
    by (simp add: dict_wf_def dict_keys_def)
  show "set (map sel_key (select_threshold_rows rows)) = sel_key ` {r \<in> set rows. \<not> wrong_balancer r}"
    using select_rows_keys [of rows] by (simp add: dict_keys_def select_loop_keys)
  show "list_all (\<lambda>m. m \<in> set rows \<and> \<not> wrong_balancer m \<and>
      list_all (\<lambda>r. er_threshold_id m \<le> er_threshold_id r)
        (filter (\<lambda>r. \<not> wrong_balancer r \<and> sel_key r = sel_key m) rows)) (select_threshold_rows rows)"
    using select_rows_least [of _ rows] by (auto simp: list_all_iff)
qed

section \<open>Environments, priorities and polling\<close>

text \<open>
  Where an environment comes from: a recognised override wins over everything, then the
  first tag that names a tier; otherwise nothing weaker claims to be an override or a tag, an
  environment inherited from a parent is that of a parent resting on its own evidence, and
  without evidence or with conflicting evidence the resource counts as production.
\<close>

lemma environment_resolution_order:
  "(case manual_choice ov of
      Some t \<Rightarrow> resolve_environment ov tags n i d rel = \<lparr>env = t, src = SManual, why = RSetByUser\<rparr>
    | None \<Rightarrow>
        (case from_tags tags of
           Some hit \<Rightarrow> resolve_environment ov tags n i d rel = hit \<and> src hit = STag
         | None \<Rightarrow>
             (case src (resolve_environment ov tags n i d rel) of
                SManual \<Rightarrow> False
              | STag \<Rightarrow> False
              | SUnknown \<Rightarrow> env (resolve_environment ov tags n i d rel) = Prod
              | SRelated \<Rightarrow> (\<exists>p lbl. (p, lbl) \<in> set rel \<and> env p = env (resolve_environment ov tags n i d rel) \<and>
                   src p \<in> set RELATED_PARENT_SOURCES)
              | SName \<Rightarrow> from_name n i = Some (resolve_environment ov tags n i d rel)
              | SAccount \<Rightarrow> from_name n i = None \<and> from_related rel = None)))"
proof (cases "manual_choice ov")
  case (Some t)
  then show ?thesis by (simp add: resolve_manual)
next
  case m: None
  show ?thesis
  proof (cases "from_tags tags")
    case (Some hit)
    then show ?thesis using m by (simp add: resolve_tag from_tags_src)
  next
    case None
    show ?thesis using resolve_untagged [OF m None, of n i d rel] m None by (simp split: source.split)
  qed
qed

text \<open>
  A priority is one of P1 to P4; a critical alert and a resource tagged critical are never
  less urgent for it, and an alert whose environment is missing or unknown is exactly as urgent
  as in production, which no other environment exceeds.
\<close>

lemma priorities_are_fail_safe:
  "compute_priority e sev tags \<in> {1, 2, 3, 4} \<and>
   compute_priority e ''CRITICAL'' tags \<le> compute_priority e sev tags \<and>
   compute_priority e sev tags \<le> compute_priority e sev TagsNull \<and>
   compute_priority None sev tags \<le> compute_priority e sev tags \<and>
   compute_priority None sev tags = compute_priority (Some ''prod'') sev tags"
proof -
  have "recognized_tier (Some ''prod'') = Some Prod" by code_simp
  then have p: "to_tier (Some ''prod'') = Prod" by (rule tiers.recognised_tier)
  have n: "\<not> is_critical_resource TagsNull" by (simp add: is_critical_resource_def tags_dict_def)
  have u: "upper (strip ''CRITICAL'') = ''CRITICAL''" by code_simp
  show ?thesis
    using compute_priority_range [of e sev tags] p n u
    by (simp add: compute_priority_cases Let_def split: tier.split)
qed

text \<open>
  After a refresh every open alert carries the priority its environment, severity and tags
  ask for, no other alert is written, and only priorities that change are written.
\<close>

lemma refresh_stores_priorities:
  assumes "distinct (map pq_id rows)"
    and "list_all (\<lambda>r. col (pq_id r) = pq_priority r) rows"
  shows "list_all (\<lambda>r. apply_changes (priority_changes u rows) col (pq_id r) = Some (new_priority u r)) rows \<and>
     (i \<in> pq_id ` set rows \<or> apply_changes (priority_changes u rows) col i = col i) \<and>
     length (priority_changes u rows) = length (filter (\<lambda>r. col (pq_id r) \<noteq> Some (new_priority u r)) rows)"
  using refresh_row [OF assms(1), of _ col u] assms(2) refresh_other [of i rows u col]
  by (auto simp: list_all_iff priority_changes_def intro!: arg_cong [where f = length] filter_cong)

definition demo_prio :: prio_row where
  "demo_prio = \<lparr>pq_id = 7, pq_severity = ''WARNING'', pq_environment = Some ''dev'', pq_priority = Some 1,
     pq_tags = TagsNull, pq_env_resolved = None\<rparr>"

text \<open>
  Slowing down only ever lengthens an interval, and only for a recognised non-production
  resource whose type is not exempt and whose interval is below a day; collection stops entirely
  only for a non-critical metric when the settings say so.
\<close>

lemma only_nonprod_is_slowed:
  "case effective_interval cfg e base critical rtype of
     None \<Rightarrow> cfg_on cfg \<and> recognized_tier e = Some Nonprod \<and> \<not> critical \<and> cfg_off cfg
   | Some eff \<Rightarrow> base \<le> eff \<and>
       (eff = base \<or> (cfg_on cfg \<and> recognized_tier e = Some Nonprod \<and> base < NEVER_SLOW_AT_OR_ABOVE_SECONDS \<and>
         rtype \<notin> set EXEMPT_RESOURCE_TYPES))"
proof -
  have "recognized_tier e = Some Nonprod" if "to_tier e \<noteq> Prod"
    using that tiers.nonprod_recognised [of e] by (cases "to_tier e") auto
  then show ?thesis by (auto simp: effective_interval_def)
qed

text \<open>
  C7: On every tick each resource is either collected or counted as skipped, and the production
  resources are all collected, in their order and with their look-back unchanged.
\<close>

theorem every_prod_resource_is_collected:
  assumes "select_due cfg tr base now critical recd rs st = (due, skipped, st')"
  shows "length due + skipped = length rs \<and>
     filter (\<lambda>r. to_tier (pr_env r) = Prod) due = filter (\<lambda>r. to_tier (pr_env r) = Prod) rs"
proof (cases "cfg_on cfg")
  case True
  then have l: "select_due_loop (cfg\<lparr>cfg_on := True\<rparr>) tr base now critical recd rs st = (due, skipped, st')"
    using assms by (simp add: select_due_def)
  show ?thesis using select_due_loop_count [OF l] select_due_loop_prod [OF l] by simp
next
  case False
  then show ?thesis using assms by (simp add: select_due_def)
qed

definition demo_res :: "int \<Rightarrow> string \<Rightarrow> poll_res" where
  "demo_res i e = \<lparr>pr_id = i, pr_type = ''ec2'', pr_env = Some e, pr_extra_min = None\<rparr>"

theorem every_prod_resource_is_collected_witness:
  "\<exists>due skipped st'.
     select_due (demo_cfg\<lparr>cfg_on := True\<rparr>) ''core'' 300 1000 False True
       [demo_res 1 ''prod'', demo_res 2 ''dev''] [((2, ''core'', False), 900)] = (due, skipped, st') \<and>
     skipped = 1 \<and> length due + skipped = 2"
proof -
  have s: "fst (snd (select_due (demo_cfg\<lparr>cfg_on := True\<rparr>) ''core'' 300 1000 False True
       [demo_res 1 ''prod'', demo_res 2 ''dev''] [((2, ''core'', False), 900)])) = 1" by code_simp
  obtain due skipped st' where e: "select_due (demo_cfg\<lparr>cfg_on := True\<rparr>) ''core'' 300 1000 False True
       [demo_res 1 ''prod'', demo_res 2 ''dev''] [((2, ''core'', False), 900)] = (due, skipped, st')"
    by (metis prod_cases3)
  from every_prod_resource_is_collected [OF e] s e show ?thesis by simp
qed



section \<open>States, counts and names\<close>





section \<open>Sweep and maintenance\<close>

text \<open>
  C11: The sweep closes an alert exactly when it is open and one of the rules applies, with the
  reason of the first rule that does; every other row is untouched. Running the queries one
  after the other and updating by id in chunks makes no difference. Its report is right: the total
  is the number of alerts it closed, and the count under each reason the number closed for it.
\<close>

theorem sweep_is_first_matching_rule:
  assumes "distinct (map al_id (st_alerts db))"
  shows "st_alerts (fst (auto_resolve_stale_alerts w db)) =
     map (\<lambda>a. if is_open a
              then (case find (\<lambda>rl. snd rl a) (sweep_rules w) of
                      Some rl \<Rightarrow> sweep_resolve (fst rl) (sw_now w) a | None \<Rightarrow> a)
              else a) (st_alerts db) \<and>
    fst (snd (auto_resolve_stale_alerts w db)) =
      length (filter (\<lambda>a. is_open a \<and> first_rule (sweep_rules w) a \<noteq> None) (st_alerts db)) \<and>
    dict_count (snd (snd (auto_resolve_stale_alerts w db))) reason =
      length (filter (\<lambda>a. is_open a \<and> first_rule (sweep_rules w) a = Some reason) (st_alerts db))"
  using run_rules_alerts [OF assms, of "sw_now w" "sweep_rules w" "[]"]
    run_rules_total [OF assms, of "sw_now w" "sweep_rules w" "[]"]
    run_rules_count [OF assms, of "sw_now w" "sweep_rules w" "[]" reason]
  by (simp add: sweep_defs swept_find closed_by_def dict_count_def dict_total_def)

definition demo_sweep :: sweep_env where
  "demo_sweep = \<lparr>sw_now = 2000, sw_session_now = 2000, sw_resources = [], sw_accounts = [], sw_thresholds = [],
     sw_history = [], sw_traffic_ok = True\<rparr>"

theorem sweep_is_first_matching_rule_witness:
  "map al_resolution_reason (st_alerts (fst (auto_resolve_stale_alerts demo_sweep demo_store))) = [Some ''resource_gone'']"
proof -
  have d: "distinct (map al_id (st_alerts demo_store))" by code_simp
  have "map al_resolution_reason (map (\<lambda>a. if is_open a
              then (case find (\<lambda>rl. snd rl a) (sweep_rules demo_sweep) of
                      Some rl \<Rightarrow> sweep_resolve (fst rl) (sw_now demo_sweep) a | None \<Rightarrow> a)
              else a) (st_alerts demo_store)) = [Some ''resource_gone'']" by code_simp
  then show ?thesis using sweep_is_first_matching_rule [OF d, of demo_sweep] by simp
qed


definition demo_resource :: resource where
  "demo_resource = \<lparr>rs_id = 1, rs_account = 1, rs_resource_id = ''q-1'', rs_type = ''sqs'', rs_tags = TagsNull,
     rs_env_resolved = None, rs_last_seen_at = Some 1500, rs_instance_state = Some ''running''\<rparr>"

definition demo_account :: account where
  "demo_account = \<lparr>ac_id = 1, ac_active = True, ac_provider = ''aws'', ac_name = ''main''\<rparr>"



text \<open>
  C13: After a maintenance reconciliation an open alert is silenced exactly when a window
  covers its resource in its own account; resolved alerts are untouched, nothing but the two
  silencing columns is written, and reconciling again at once changes nothing.
\<close>

theorem maintenance_silences_what_is_covered:
  assumes "distinct (map al_id as)"
  shows "fst (sync_maintenance_silencing es ws now as) = map (reconciled (active_silenced_map es ws now)) as \<and>
     list_all (\<lambda>a. al_silenced a = is_covered (active_silenced_map es ws now) a)
       (filter is_open (fst (sync_maintenance_silencing es ws now as))) \<and>
     map (\<lambda>a. a\<lparr>al_silenced := False, al_silenced_reason := None\<rparr>) (fst (sync_maintenance_silencing es ws now as)) =
       map (\<lambda>a. a\<lparr>al_silenced := False, al_silenced_reason := None\<rparr>) as \<and>
     fst (sync_maintenance_silencing es ws now (fst (sync_maintenance_silencing es ws now as))) =
       fst (sync_maintenance_silencing es ws now as)"
proof -
  let ?c = "active_silenced_map es ws now"
  have d: "distinct (map al_id (map (reconciled ?c) as))" using assms by (simp add: o_def)
  show ?thesis
    by (simp add: sync_alerts [OF assms] sync_alerts [OF d] o_def reconciled_only list_all_iff)
       (auto simp: reconciled_covered)
qed

theorem maintenance_silences_what_is_covered_witness:
  "map al_silenced (fst (sync_maintenance_silencing []
     [\<lparr>mw_id = 1, mw_account = 1, mw_resource = ''q-1'', mw_reason = ''patch'', mw_downstream = False,
       mw_starts_at = 0, mw_ends_at = 5000\<rparr>] 2000 (st_alerts demo_store))) = [True]"
proof -
  let ?ws = "[\<lparr>mw_id = 1, mw_account = 1, mw_resource = ''q-1'', mw_reason = ''patch'', mw_downstream = False,
       mw_starts_at = 0, mw_ends_at = 5000\<rparr>]"
  have d: "distinct (map al_id (st_alerts demo_store))" by code_simp
  have "map al_silenced (map (reconciled (active_silenced_map [] ?ws 2000)) (st_alerts demo_store)) = [True]"
    by code_simp
  with maintenance_silences_what_is_covered [OF d, of "[]" ?ws 2000] show ?thesis by simp
qed

text \<open>
  A window covers exactly its own resource and, when it asks for it, the resources of the
  same account that depend on it through at most ten edges: cycles in the graph cannot make the
  walk run on, and edges of another account are never followed.
\<close>

lemma window_covers_dependents:
  "dict_get (active_silenced_map es [w] now) (acct, rid) =
     (if mw_starts_at w \<le> now \<and> now \<le> mw_ends_at w \<and> acct = mw_account w \<and>
         (if mw_downstream w
          then (\<exists>k\<le>10. depends (filter (\<lambda>e. rl_account e = acct) es) None k (mw_resource w) rid)
          else rid = mw_resource w)
      then Some (take 500 (''Maintenance window: '' @ mw_reason w)) else None)"
  by (auto simp: get_silenced_map covers_def is_active_window_def window_ids_def set_affected
      window_text_def MAX_CASCADE_DEPTH_def depends_scoped split: if_splits)

section \<open>Escalation, access and limits\<close>

text \<open>
  C14: An alert is escalated to the group of a policy that is due for it, an account policy
  before a global one; one run escalates no alert twice, and a later run (whatever the policies
  and the settings have become) escalates none of them again.
\<close>

theorem escalation_claims_once:
  assumes "a \<in> set as" and "al_escalated_at a = None"
    and "c \<in> set (candidates fl db now as)" and "cand_id c = al_id a"
  shows "(\<exists>d. d \<in> set (candidates fl db now as) \<and> cand_id d = al_id a \<and> global_rank d \<le> global_rank c \<and>
        policy_due now (fst d) (fst (snd d)) \<and> claim now d a \<in> set (fst (evaluate_escalations fl db now as))) \<and>
     distinct (map cand_id (snd (evaluate_escalations fl db now as))) \<and>
     set (map cand_id (snd (evaluate_escalations fl db now as))) \<inter>
       set (map cand_id (snd (evaluate_escalations fl' db' later (fst (evaluate_escalations fl db now as))))) = {}"
proof -
  let ?cs = "candidates fl db now as"
  obtain d where d: "chosen ?cs (al_id a) = Some d"
    using assms(3,4) chosen_None [of ?cs "al_id a"] by (cases "chosen ?cs (al_id a)") auto
  have "claim now d a \<in> set (fst (evaluate_escalations fl db now as))"
    using assms(1,2) d by (force simp: evaluate_escalations_alerts)
  moreover have "policy_due now (fst d) (fst (snd d))"
    using candidates_alert chosen_Some(1) [OF d] by blast
  ultimately show ?thesis
    using chosen_Some [OF d] assms(3,4) escalations_distinct escalations_disjoint by blast
qed

definition demo_policies :: esc_db where
  "demo_policies = \<lparr>ed_resources = [demo_resource], ed_accounts = [demo_account],
     ed_policies = [\<lparr>ep_id = 1, ep_account = None, ep_severity = CRITICAL, ep_enabled = True, ep_sla_minutes = 5, ep_group = 8\<rparr>,
                    \<lparr>ep_id = 2, ep_account = Some 1, ep_severity = CRITICAL, ep_enabled = True, ep_sla_minutes = 10, ep_group = 9\<rparr>],
     ed_groups = [\<lparr>og_id = 8, og_name = ''noc'', og_level = ''L1'', og_parent = None\<rparr>,
                  \<lparr>og_id = 9, og_name = ''own'', og_level = ''L1'', og_parent = None\<rparr>]\<rparr>"

lemma demo_stale: "16 \<le> stale_minutes demo_cfg [] ''aws'' ''sqs'' None ''queue_depth''"
  by (simp add: stale_minutes_def env_poll_extra_def demo_cfg_def metric_case_def group_seconds_def
      PREFIX_INTERVAL_OVERRIDES_def by_class_def cadence_class_def STALE_MINUTES_def SLOW_AWS_RESOURCE_TYPES_def CORE_AWS_RESOURCE_TYPES_def)

lemma demo_pageable: "filter (pageable demo_flags 1700) (alert_base_from (st_alerts demo_store) [demo_resource] [demo_account]) =
    [(hd (st_alerts demo_store), demo_resource, demo_account)]"
proof -
  let ?a = "hd (st_alerts demo_store)"
  have base: "alert_base_from (st_alerts demo_store) [demo_resource] [demo_account] = [(?a, demo_resource, demo_account)]"
    by code_simp
  have a: "al_status ?a = Active" "\<not> al_silenced ?a" "al_muted_until ?a = None" "seen_at ?a = 1000" "\<not> al_acked ?a"
    "al_escalated_at ?a = None" "al_metric ?a = ''queue_depth''" by code_simp+
  show ?thesis using a demo_stale unfolding base
    by (simp add: pageable_def firing_where_def is_suppressed_def is_stale_def base_where_def stale_of_def
        demo_flags_def demo_resource_def demo_account_def HIDDEN_FROM_ALERTS_UI_METRICS_def)
qed

lemma demo_candidates:
  "candidates demo_flags demo_policies 1700 (st_alerts demo_store) = candidates_of demo_policies 1700 (hd (st_alerts demo_store))"
  using demo_pageable by (simp add: candidates_def demo_policies_def)

theorem escalation_claims_once_witness:
  "\<exists>d. claim 1700 d (hd (st_alerts demo_store)) \<in>
       set (fst (evaluate_escalations demo_flags demo_policies 1700 (st_alerts demo_store))) \<and> global_rank d = 0"
proof -
  let ?cs = "candidates_of demo_policies 1700 (hd (st_alerts demo_store))" and ?a = "hd (st_alerts demo_store)"
  have n: "length ?cs = 2 \<and> cand_id (?cs ! 1) = al_id ?a \<and> global_rank (?cs ! 1) = 0" by code_simp
  have a: "?a \<in> set (st_alerts demo_store)" using demo_opens by (cases "st_alerts demo_store") auto
  have e: "al_escalated_at ?a = None" by code_simp
  have c: "?cs ! 1 \<in> set (candidates demo_flags demo_policies 1700 (st_alerts demo_store))" "cand_id (?cs ! 1) = al_id ?a"
    using n by (auto simp: demo_candidates intro: nth_mem)
  have g: "global_rank (?cs ! 1) = 0" using n by blast
  show ?thesis using escalation_claims_once [OF a e c] unfolding g le_zero_eq by blast
qed

text \<open>
  C15: An escalation mail goes, once each, only to addresses of active members of the group, and
  when the alert belongs to an account only to members whose scope could be read and shows that
  account.
\<close>

theorem escalation_mail_stays_in_the_tenant:
  "distinct (snd (notify_escalation smtp send adb fails ms gid (Some i))) \<and>
   list_all (\<lambda>e. list_ex (\<lambda>m. me_group m = gid \<and> me_email m = Some e \<and> me_active m \<noteq> Some False \<and>
        \<not> fails (me_user m) \<and>
        (case get_accessible_account_ids adb \<lparr>us_id = me_user m, us_role = me_role m\<rparr> of
           None \<Rightarrow> me_role m = ''admin'' | Some ids \<Rightarrow> i \<in> set ids)) ms)
     (snd (notify_escalation smtp send adb fails ms gid (Some i)))"
  using recipients_in [of _ adb fails ms gid i]
  by (auto simp: notify_escalation_def Let_def list_all_iff list_ex_iff recipients_distinct distinct_filter)

text \<open>
  C16: Granting is no way to gain access: when a user who is not an administrator is allowed to
  grant scopes, the accounts and the regions the new grants show are all shown by the user's own
  scope.
\<close>

theorem granting_is_no_escalation:
  assumes "distinct (map ca_id (db_accounts db))"
    and "validate_and_insert_scopes db i uid reqs actor (Grants gs) = Inr db'"
    and "us_role actor \<noteq> ''admin''"
  shows "list_all (\<lambda>j. shows_account db gs j)
       (filter (shows_account db (map own_grant (insert_scopes i uid (us_id actor) reqs []))) (map ca_id (db_accounts db))) \<and>
     {region. shows_region (map own_grant (insert_scopes i uid (us_id actor) reqs [])) j region}
       \<subseteq> {region. shows_region gs j region}"
  using granted_within [OF assms] by (auto simp: list_all_iff)

definition demo_scope :: "nat option \<Rightarrow> string list \<Rightarrow> scope_req" where
  "demo_scope acct regions = \<lparr>rq_cloud = Some ''aws'', rq_account = acct, rq_regions = FList regions,
     rq_resource_groups = FNull, rq_resource_types = FNull, rq_resource_ids = FNull\<rparr>"

definition demo_auth :: auth_db where
  "demo_auth = \<lparr>db_groups = [\<lparr>og_id = 1, og_name = ''org'', og_level = ''L1'', og_parent = None\<rparr>,
       \<lparr>og_id = 2, og_name = ''india'', og_level = ''L2'', og_parent = Some 1\<rparr>],
     db_memberships = [(5, 2)],
     db_access_scopes = [stored_scope 1 5 9 (demo_scope (Some 1) [''ap-south-1'', ''us-east-1''])],
     db_group_policies = [], db_bindings =
       Some [\<lparr>rb_id = 3, rb_principal = PGroup 1, rb_role = 1, rb_scope = 4, rb_granted_by = 9, rb_expires_at = Some 500\<rparr>],
     db_roles = [(1, ''viewer'')],
     db_scopes = [\<lparr>sc_id = 4, sc_label = ''azure'', sc_cloud = Some ''azure'', sc_account = None, sc_regions = ColNull,
        sc_services = ColNull, sc_resource_groups = ColNull, sc_resource_ids = ColNull, sc_tag_selector = TagColNull\<rparr>],
     db_accounts = [\<lparr>ca_id = 1, ca_provider = Some ''aws''\<rparr>, \<lparr>ca_id = 2, ca_provider = Some ''azure''\<rparr>],
     db_now = 400\<rparr>"

theorem granting_is_no_escalation_witness:
  "\<exists>gs db'. get_effective_scope demo_auth \<lparr>us_id = 5, us_role = ''editor''\<rparr> = Grants gs \<and>
     validate_and_insert_scopes demo_auth 2 6 [demo_scope (Some 1) [''us-east-1'']] \<lparr>us_id = 5, us_role = ''editor''\<rparr> (Grants gs)
       = Inr db' \<and>
     shows_region (map own_grant (insert_scopes 2 6 5 [demo_scope (Some 1) [''us-east-1'']] [])) 1 ''us-east-1'' \<and>
     shows_region gs 1 ''us-east-1''"
proof -
  let ?u = "\<lparr>us_id = 5, us_role = ''editor''\<rparr>" and ?rq = "[demo_scope (Some 1) [''us-east-1'']]"
  have ids: "distinct (map ca_id (db_accounts demo_auth))" by code_simp
  have role: "us_role ?u \<noteq> ''admin''" by simp
  have "(case get_effective_scope demo_auth ?u of FullAccess \<Rightarrow> False | Grants gs \<Rightarrow>
      (case validate_and_insert_scopes demo_auth 2 6 ?rq ?u (Grants gs) of Inl _ \<Rightarrow> False | Inr _ \<Rightarrow> True))" by code_simp
  then obtain gs db' where s: "get_effective_scope demo_auth ?u = Grants gs"
    and ok: "validate_and_insert_scopes demo_auth 2 6 ?rq ?u (Grants gs) = Inr db'"
    by (auto split: access.splits sum.splits)
  have new: "shows_region (map own_grant (insert_scopes 2 6 5 ?rq [])) 1 ''us-east-1''" by code_simp
  from granting_is_no_escalation [OF ids ok role, of 1] have "shows_region gs 1 ''us-east-1''"
    using new by auto
  with s ok new show ?thesis by blast
qed



text \<open>
  C18: Walking up from a group always ends, meets no group twice, and under the rule checked when
  groups are created meets at most three, each of a level above the one before.
\<close>

theorem group_chains_are_short:
  assumes "list_all (level_ok gs) gs"
  shows "distinct (map og_id (get_group_chain gs i)) \<and> length (get_group_chain gs i) \<le> length GROUP_LEVELS"
proof (cases "get_group gs i")
  case None
  then show ?thesis by (simp add: get_group_chain_def group_chain.simps)
next
  case (Some g)
  have "length (get_group_chain gs i) \<le> level_rank (og_level g)"
    using chain_length [OF _ Some] assms by (simp add: get_group_chain_def list_all_iff)
  then show ?thesis using group_chain_ids [of gs "[]" "Some i"] level_rank_le [of "og_level g"]
    by (simp add: get_group_chain_def GROUP_LEVELS_def)
qed

theorem group_chains_are_short_witness:
  "length (get_group_chain (db_groups demo_auth) 2) = 2 \<and> distinct (map og_id (get_group_chain (db_groups demo_auth) 2))"
proof -
  have ok: "list_all (level_ok (db_groups demo_auth)) (db_groups demo_auth)" by code_simp
  have "length (get_group_chain (db_groups demo_auth) 2) = 2" by code_simp
  with group_chains_are_short [OF ok, of 2] show ?thesis by blast
qed

section \<open>People, limits and leadership\<close>



text \<open>
  C20: However the attempts on one key are spread over a window, exactly the first
  \<open>max_attempts\<close> of them are allowed; the window starts with the first attempt and attempts that
  are refused do not prolong it.
\<close>

theorem rate_limit_allows_exactly_the_maximum:
  assumes "0 < win" and "r_get r t0 (rate_key key) = None" and "list_all (\<lambda>t. t < t0 + win) ts"
  shows "int (n_allowed (snd (attempts key m win (t0 # ts) r))) = min (int (length (t0 # ts))) (max 0 m)"
  using attempts_fresh [OF assms(1,2)] assms(3) by (simp add: list_all_iff)

theorem rate_limit_allows_exactly_the_maximum_witness:
  "n_allowed (snd (attempts ''login:ip:10.0.0.1'' 3 300 [0, 10, 20, 30, 299] [])) = 3"
  using rate_limit_allows_exactly_the_maximum [of 300 "[]" 0 "''login:ip:10.0.0.1''" "[10, 20, 30, 299]" 3]
  by (simp add: r_get_def dict_get_def)



text \<open>
  C22: Split leadership ends: in any reachable world, whatever sessions were dropped and whatever
  queries fail, once each of the processes has polled again at most one of them runs its
  collectors, and it is the one whose session holds the lock.
\<close>

theorem one_leader_after_a_round:
  assumes "leader_run owner w" and "own_sessions owner ps"
  shows "(\<forall>p q. p \<in> fst ` set ps \<and> q \<in> fst ` set ps \<and> running (round_of ps w) p \<and> running (round_of ps w) q \<longrightarrow> p = q) \<and>
     (\<forall>p. p \<in> fst ` set ps \<and> running (round_of ps w) p \<longrightarrow>
        (\<exists>c. lw_holder (round_of ps w) = Some c \<and> owner c = p))"
proof -
  note inv = run_inv [OF assms(1)]
  from round_settles [OF inv assms(2)]
  have i: "leader_inv owner (round_of ps w)" and s: "\<And>q. q \<in> fst ` set ps \<Longrightarrow> settled (round_of ps w) q" by blast+
  then show ?thesis
    using confirmed_unique [OF i] confirmed_holder [OF i] by (auto simp: settled_def)
qed

theorem one_leader_after_a_round_witness:
  "running (round_of [(0, \<lparr>po_conn = Some 10, po_query = True, po_start = True, po_release = True\<rparr>),
        (1, \<lparr>po_conn = Some 11, po_query = True, po_start = True, po_release = True\<rparr>)] initial_world) 0 \<and>
   \<not> running (round_of [(0, \<lparr>po_conn = Some 10, po_query = True, po_start = True, po_release = True\<rparr>),
        (1, \<lparr>po_conn = Some 11, po_query = True, po_start = True, po_release = True\<rparr>)] initial_world) 1"
proof -
  let ?ps = "[(0, \<lparr>po_conn = Some 10, po_query = True, po_start = True, po_release = True\<rparr>),
        (1, \<lparr>po_conn = Some 11, po_query = True, po_start = True, po_release = True\<rparr>)]"
  have own: "own_sessions (\<lambda>c. c - 10) ?ps" by (simp add: own_sessions_def)
  have "running (round_of ?ps initial_world) 0" by code_simp
  moreover have "0 \<in> fst ` set ?ps" "1 \<in> fst ` set ?ps" by simp_all
  ultimately show ?thesis
    using one_leader_after_a_round [OF leader_run.Start own] zero_neq_one by blast
qed

text \<open>
  A scope survives storage: what an accepted request asked for is what is read back from the
  row it was stored in, in every dimension, an empty list and null both being no restriction;
  and the stored scope, requested again, is one that a covering scope covers.
\<close>

lemma granted_scope_reads_back:
  assumes "validate_scope_shape req (account_ids_by_cloud accs) = None"
  shows "rq_cloud req = Some (sg_cloud (own_grant (stored_scope i uid aid req))) \<and>
     sg_account (own_grant (stored_scope i uid aid req)) = rq_account req \<and>
     map (\<lambda>f. f (own_grant (stored_scope i uid aid req))) [sg_regions, sg_resource_groups, sg_resource_types, sg_resource_ids] =
       map (\<lambda>f. if field_items f = [] then None else Some (field_items f))
         [rq_regions req, rq_resource_groups req, rq_resource_types req, rq_resource_ids req] \<and>
     (single_scope_within req gs \<longrightarrow> single_scope_within (grant_request (own_grant (stored_scope i uid aid req))) gs)"
  using stored_scope_reads_back [OF assms] by blast

lemma granted_scope_reads_back_instance:
  "sg_regions (own_grant (stored_scope 2 6 5 (demo_scope (Some 1) [''us-east-1'']))) = Some [''us-east-1'']"
proof -
  have "validate_scope_shape (demo_scope (Some 1) [''us-east-1'']) (account_ids_by_cloud (db_accounts demo_auth)) = None"
    by code_simp
  from granted_scope_reads_back [OF this, of 2 6 5 "[]"] show ?thesis
    by (simp add: demo_scope_def field_items_def)
qed

section \<open>Role-based access control, version 2\<close>

text \<open>
  The reason shown for a decision is the decision: \<open>explain\<close> allows exactly what \<open>can\<close>
  allows; a refusal it calls an explicit deny is one that applies to the target; the binding it
  names is one of the principal's, holds the permission and covers the target; and whatever \<open>can\<close>
  allows on some target passes the coarse check of the route.
\<close>

lemma explanations_match_decisions:
  "fst (explain ra perm t) = can ra perm t \<and>
   (case snd (explain ra perm t) of
      ExplicitDeny \<Rightarrow> denied ra perm t
    | ByBinding b \<Rightarrow> \<not> denied ra perm t \<and> b \<in> set (ra_bindings ra) \<and> granted perm t b
    | OutOfScope \<Rightarrow> \<not> can ra perm t \<and> perm \<in> set (all_permissions ra)
    | NoPermission \<Rightarrow> \<not> can ra perm t \<and> perm \<notin> set (all_permissions ra)) \<and>
   {t. can ra perm t} \<subseteq> {t. require_permission_v2 ra perm}"
  using explain_can explain_reason can_route_gate by blast

text \<open>
  C23: The filter a list query is narrowed with never shows a row on which the permission is
  denied, however partial the denial; and when no denial of the permission exists it shows every
  row the principal has the permission on.
\<close>

theorem list_filter_brackets_decisions:
  assumes "distinct (map ca_id accs)" and "access_wf ra" and "is_row accs row t"
  shows "(denied ra perm t \<longrightarrow> \<not> filter_sql (accessible_filter accs ra (Some perm)) row) \<and>
     (applicable_denials ra (Some perm) = [] \<and> can ra perm t \<longrightarrow>
        filter_sql (accessible_filter accs ra (Some perm)) row)"
  using denied_rows_hidden [OF assms] allowed_rows_shown [OF assms] by blast

definition demo_rbac :: rbac_db where
  "demo_rbac = \<lparr>rd_v1 = demo_auth,
     rd_bindings = [\<lparr>rb_id = 3, rb_principal = PGroup 1, rb_role = 1, rb_scope = 4, rb_granted_by = 9, rb_expires_at = Some 500\<rparr>],
     rd_roles = [\<lparr>ro_id = 1, ro_key = ''editor'', ro_rank = 20\<rparr>],
     rd_role_permissions = [(1, 1), (1, 2)],
     rd_permissions = [(1, ''alert.read''), (2, ''rbac.binding.manage'')],
     rd_overrides = [\<lparr>po_permission = 1, po_deny = True, po_principal = PUser 6, po_scope = Some 4, po_expires_at = None\<rparr>],
     rd_now = 400\<rparr>"

definition demo_viewer :: user where
  "demo_viewer = \<lparr>us_id = 5, us_role = ''viewer''\<rparr>"

definition demo_row_az :: res_row where
  "demo_row_az = \<lparr>rr_account = 2, rr_region = Some ''westeurope'', rr_type = ''vm''\<rparr>"

definition demo_target_az :: target where
  "demo_target_az = any_target\<lparr>tg_cloud := Some ''azure'', tg_account := Some 2, tg_region := Some ''westeurope'',
     tg_service := Some ''vm''\<rparr>"

theorem list_filter_brackets_decisions_witness:
  "filter_sql (accessible_filter (db_accounts demo_auth) (load_access demo_rbac demo_viewer) (Some ''alert.read'')) demo_row_az \<and>
   \<not> filter_sql (accessible_filter (db_accounts demo_auth) (load_access demo_rbac (demo_viewer\<lparr>us_id := 6\<rparr>)) (Some ''alert.read'')) demo_row_az"
proof -
  have a: "distinct (map ca_id (db_accounts demo_auth))" by code_simp
  have w: "access_wf (load_access demo_rbac demo_viewer)" "access_wf (load_access demo_rbac (demo_viewer\<lparr>us_id := 6\<rparr>))"
    by code_simp+
  have r: "is_row (db_accounts demo_auth) demo_row_az demo_target_az" by code_simp
  have "length (applicable_denials (load_access demo_rbac demo_viewer) (Some ''alert.read'')) = 0 \<and>
      can (load_access demo_rbac demo_viewer) ''alert.read'' demo_target_az" by code_simp
  moreover have "denied (load_access demo_rbac (demo_viewer\<lparr>us_id := 6\<rparr>)) ''alert.read'' demo_target_az" by code_simp
  ultimately show ?thesis
    using list_filter_brackets_decisions [OF a w(1) r] list_filter_brackets_decisions [OF a w(2) r] by simp
qed




text \<open>
  C25: However requests, their slow loads and invalidations interleave, an access list served from
  the cache is what the tables held for that user at some moment less than 60 seconds ago.
\<close>

theorem cached_access_is_fresh:
  assumes "cache_run hist (now, c, inflight)" and "now \<le> t"
  shows "case cache_hit c t uid of
      None \<Rightarrow> cache_hit c t uid = None
    | Some ra \<Rightarrow> (\<exists>u t'. us_id u = uid \<and> t - CACHE_TTL_SECONDS < t' \<and> t' \<le> t \<and> ra = load_access (hist t') u)"
  using cache_hit_fresh [OF assms] by (cases "cache_hit c t uid") auto

theorem cached_access_is_fresh_witness:
  "\<exists>c ra. cache_hit c 130 5 = Some ra \<and>
     (\<exists>u t'. us_id u = 5 \<and> 130 - CACHE_TTL_SECONDS < t' \<and> t' \<le> 130 \<and> ra = load_access demo_rbac u)"
proof -
  let ?h = "\<lambda>_. demo_rbac" and ?ra = "load_access demo_rbac demo_viewer"
  have id: "us_id demo_viewer = 5" by (simp add: demo_viewer_def)
  have "cache_run ?h (100, [], [])" by (rule cache_run.Start)
  moreover have "cache_step ?h (100, [], []) (103, [], [(101, demo_viewer, ?ra)])"
    by (rule cache_step.Load) (simp_all add: cache_hit_def)
  moreover have "cache_step ?h (103, [], [(101, demo_viewer, ?ra)]) (104, cache_store [] 101 5 ?ra, [])"
    using cache_step.Store [of 101 demo_viewer ?ra "[(101, demo_viewer, ?ra)]" 103 104 ?h "[]"] by (simp add: id)
  ultimately have run: "cache_run ?h (104, cache_store [] 101 5 ?ra, [])"
    by (blast intro: cache_run.Step)
  have hit: "cache_hit (cache_store [] 101 5 ?ra) 130 5 = Some ?ra"
    by (simp add: cache_hit_def cache_store_def CACHE_TTL_SECONDS_def)
  have "\<exists>u t'. us_id u = 5 \<and> 130 - CACHE_TTL_SECONDS < t' \<and> t' \<le> 130 \<and> ?ra = load_access demo_rbac u"
    using cached_access_is_fresh [OF run, of 130 5] by (simp add: hit)
  with hit show ?thesis by blast
qed

section \<open>Tags, warnings and suggestions\<close>

text \<open>
  The tag state shown for a resource tells what its tags do to its environment: it is left
  unchecked exactly when the stored tags are not the resource's own, "missing" and "invalid" mean
  that the tags decide nothing (no environment key at all, or one that says nothing), "nonstandard"
  that they decide in another spelling, and "ok" that the standard key holds a standard value, which
  then is the environment unless another key folds to the same one.
\<close>

lemma tag_state_tells_the_environment:
  "let d = effective_tags rtype tags synced in
   case tag_state rtype tags synced provider of
      TsNotChecked \<Rightarrow> \<not> tags_known rtype tags synced provider
    | TsMissing \<Rightarrow> tag_environment (TagsDict d) = None \<and> filter (\<lambda>kv. fold_key (fst kv) \<in> set TAG_KEYS) d = []
    | TsInvalid \<Rightarrow> tag_environment (TagsDict d) = None \<and> filter (\<lambda>kv. fold_key (fst kv) \<in> set TAG_KEYS) d \<noteq> []
    | TsNonstandard \<Rightarrow> tag_environment (TagsDict d) \<noteq> None \<and>
        (\<nexists>t. standard_value d (standard_key provider) = tier_value t)
    | TsOk \<Rightarrow> (\<exists>t. standard_value d (standard_key provider) = tier_value t \<and>
        tag_environment (TagsDict d) \<in> (if length (filter (\<lambda>kv. fold_key (fst kv) = ''environment'') d) = 1
          then {Some t} else UNIV))"
proof (cases "tags_known rtype tags synced provider")
  case False
  then show ?thesis by (simp add: tag_state_def)
next
  case True
  let ?d = "effective_tags rtype tags synced"
  have ok: "tag_environment (TagsDict ?d) = Some t"
    if v: "standard_value ?d (standard_key provider) = tier_value t"
      and l: "length (filter (\<lambda>kv. fold_key (fst kv) = ''environment'') ?d) = 1" for t
  proof -
    obtain kv where "filter (\<lambda>kv. fold_key (fst kv) = ''environment'') ?d = [kv]"
      using l by (auto simp: length_Suc_conv)
    with v show ?thesis by (rule standard_tag_decides)
  qed
  have t: "tag_environment (TagsDict ?d) \<in>
      (if length (filter (\<lambda>kv. fold_key (fst kv) = ''environment'') ?d) = 1 then {Some t} else UNIV)"
    if "standard_value ?d (standard_key provider) = tier_value t" for t
    using ok [OF that] by simp
  note cases = tag_state_cases [OF True]
  show ?thesis
  proof (cases "tag_state rtype tags synced provider")
    case TsOk
    then obtain u where "standard_value ?d (standard_key provider) = tier_value u" using cases by auto
    then show ?thesis using TsOk t by (auto simp: Let_def)
  qed (use cases in \<open>simp_all add: Let_def filter_empty_conv\<close>)
qed

text \<open>
  A mismatch warning names two pieces of evidence that really say different things (override
  against tag, tag against name, override against name, or the environment against that of a parent
  that rests on evidence of its own), and its kind can be read back from the stored message.
\<close>

lemma warnings_are_disagreements:
  "case detect_warning e s ov tags n i rt att of
     None \<Rightarrow> \<not> disagree (manual_tier ov) (tag_environment tags) \<and>
       \<not> disagree (tag_environment tags) (name_environment n i) \<and>
       \<not> disagree (manual_tier ov) (name_environment n i)
   | Some (k, msg) \<Rightarrow> warning_kind (Some msg) = Some k \<and> length msg \<le> REASON_MAX \<and>
       (case k of
          ManualVsTag \<Rightarrow> disagree (manual_tier ov) (tag_environment tags)
        | TagVsName \<Rightarrow> disagree (tag_environment tags) (name_environment n i)
        | ManualVsName \<Rightarrow> disagree (manual_tier ov) (name_environment n i)
        | VolumeVsInstance \<Rightarrow> s \<noteq> SUnknown \<and> s \<noteq> SRelated \<and>
            (\<exists>(r, lbl)\<in>set att. src r \<in> set RELATED_PARENT_SOURCES \<and> disagree e (Some (env r))))"
proof (cases "detect_warning e s ov tags n i rt att")
  case None
  then show ?thesis by (simp add: no_warning)
next
  case (Some w)
  obtain k msg where w: "w = (k, msg)" by (cases w)
  with Some have d: "detect_warning e s ov tags n i rt att = Some (k, msg)" by simp
  show ?thesis
    using warning_kind_read_back [OF d] detect_warning_evidence [OF d] warning_length [OF d] by (simp add: d)
qed

text \<open>
  Looking siblings up in the index of \<open>SuggestionIndex\<close> finds, in the same order, what a scan
  over all of them finds: those decided by their own evidence that share the application, the stack
  or the first two or three words of the name.
\<close>

lemma suggestion_index_is_a_scan:
  "sharing (by_app (build_index sibs)) v =
     filter (\<lambda>s. counts_as_evidence s \<and> tag_value (sb_tags s) APPLICATION_TAG_KEYS = Some v) sibs \<and>
   sharing (by_stack (build_index sibs)) v =
     filter (\<lambda>s. counts_as_evidence s \<and> tag_value (sb_tags s) STACK_TAG_KEYS = Some v) sibs \<and>
   map (\<lambda>len. sharing (by_prefix (build_index sibs)) (len, head)) [2, 3] =
     map (\<lambda>len. filter (\<lambda>s. counts_as_evidence s \<and> len \<le> length (shared_name s) \<and> head = take len (shared_name s)) sibs)
       [2, 3] \<and>
   ix_size (build_index sibs) = length (filter counts_as_evidence sibs)"
  by (simp add: index_lookup)

text \<open>
  A suggestion is unanimous: it rests on other resources, decided by their own evidence, that
  share its basis with the target and all have the suggested environment (with a tag, all that share
  the tag are among them); its evidence count is their number, volumes counted with their instance;
  and the target's own name and id do not say otherwise.
\<close>

lemma suggestions_are_unanimous:
  assumes "suggest_environment target sibs = Some s"
  shows "(\<exists>cs. cs \<noteq> [] \<and> set cs \<subseteq> set (peers (sg_basis s) target sibs) \<and>
       (sg_basis s = ByPrefix \<or> cs = peers (sg_basis s) target sibs) \<and>
       map sb_env cs = replicate (length cs) (Some (sg_env s)) \<and>
       sg_evidence s = card (evidence_unit ` set cs)) \<and>
     (let own = set (scan_tiers (sb_name target) @ scan_tiers (sb_resource_id target)) in
      own = {} \<or> sg_env s \<in> own)"
proof -
  obtain cs where cs: "rests_on s target sibs cs" using suggestion_facts(1) [OF assms] by blast
  then have "map sb_env cs = replicate (length cs) (Some (sg_env s))"
    by (intro replicate_eqI) (auto simp: rests_on_def)
  then show ?thesis using cs suggestion_facts(3) [OF assms] unfolding rests_on_def Let_def by blast
qed

definition demo_sibling :: "string \<Rightarrow> sibling" where
  "demo_sibling i = \<lparr>sb_resource_id = Some i, sb_id = i, sb_name = None,
     sb_tags = TagsDict [(''App'', JStr ''Shop'')], sb_env = Some Nonprod, sb_source = STag\<rparr>"

section \<open>Synthetic monitoring\<close>










section \<open>Agents, costs, anomalies, retention\<close>


definition demo_host :: wd_host where
  "demo_host = \<lparr>wh_id = 7, wh_account = 1, wh_hostname = ''web-1'', wh_instance = None, wh_resource = Some ''web-1'',
     wh_seen = Some 0, wh_enrolled = None, wh_active = True\<rparr>"

definition demo_target :: resource where
  "demo_target = \<lparr>rs_id = 3, rs_account = 1, rs_resource_id = ''web-1'', rs_type = ''ec2'', rs_tags = TagsNull,
     rs_env_resolved = None, rs_last_seen_at = None, rs_instance_state = None\<rparr>"

definition demo_watch :: wd_world where
  "demo_watch = \<lparr>ww_states = [], ww_resources = [demo_target], ww_store = empty_store, ww_stats = no_wd_stats, ww_events = []\<rparr>"

definition demo_osenv :: environ where
  "demo_osenv = (\<lambda>n. if n = ''HOST_AGENT_ENABLED'' then Some ''true'' else None)"



lemma demo_empty_ok: "store_ok t empty_store"
  by (simp add: store_ok_def ids_ok_def empty_store_def one_open_per_key_def)


text \<open>
  C30: With the names that the classifier defines, the watchdog cannot raise an alert: when the first host
  of a resource is silent, not known to be stopped and without an open alert, the pass fails with
  an import error, changes nothing and announces nothing, whatever the other hosts do.
\<close>

theorem silent_host_stops_the_watchdog:
  assumes "watchdog_enabled osenv"
    and "(g, ms) \<in> set (host_groups (ww_resources w) (active_hosts now accounts hosts))" and "by_age ms = (h, age) # twins"
    and "needs_alert (context_of osenv classifier_names metrics silenced now) w (h, age)" and "host_alert w h = None"
  shows "run_watchdog osenv classifier_names metrics silenced now accounts hosts w = (w, [], Some ImportError)"
  by (rule run_watchdog_raises [OF assms(1) classifier_imports assms(2-5)])

theorem silent_host_stops_the_watchdog_witness:
  "run_watchdog demo_osenv classifier_names [] (\<lambda>_. None) 3600 [1] [demo_host] demo_watch = (demo_watch, [], Some ImportError)"
proof (rule silent_host_stops_the_watchdog)
  show "watchdog_enabled demo_osenv" by code_simp
  have "host_groups (ww_resources demo_watch) (active_hosts 3600 [1] [demo_host]) = [((1, ''web-1''), [(demo_host, 3600)])]"
    by code_simp
  then show "((1, ''web-1''), [(demo_host, 3600)]) \<in> set (host_groups (ww_resources demo_watch) (active_hosts 3600 [1] [demo_host]))"
    by simp
  show "by_age [(demo_host, 3600)] = [(demo_host, 3600)]" by (simp add: by_age_def)
  show "needs_alert (context_of demo_osenv classifier_names [] (\<lambda>_. None) 3600) demo_watch (demo_host, 3600)" by code_simp
  show "host_alert demo_watch demo_host = None" by code_simp
qed

text \<open>
  C31: A cost check leaves an account for which the alert is on with exactly one open alert, showing the
  day's cost and the limit, when the settled day is above the limit and the smallest increase; with
  none when it is not; and as it was when too few days are known. An alert that was open stays the
  same row. An account for which it is off has no open alert afterwards.
\<close>

theorem cost_alerts_follow_the_bill:
  assumes "store_ok now (cw_store w)" and "distinct (map fst (loaded_accounts loads))" and "(pk, name, d) \<in> set (loaded_accounts loads)"
  shows "let before = open_alerts (cost_key pk) (st_alerts (cw_store w));
           after = open_alerts (cost_key pk) (st_alerts (cw_store (cost_pass base s now today silenced loads w)))
         in if effective_enabled base s (Some pk)
            then cost_outcome (evaluate_cost d today (effective_pct base s (Some pk)) (effective_min base s (Some pk))) before after
            else after = []"
  using cost_pass_own [OF assms, of base s today silenced] cost_pass_off [OF assms(1), of base s pk] by (simp add: Let_def)

definition demo_daily :: daily where
  "demo_daily = (10, 5) # map (\<lambda>k. (10 - k, 1)) [1, 2, 3, 4, 5, 6, 7]"

definition demo_costs :: cost_world where
  "demo_costs = \<lparr>cw_resources = [], cw_store = empty_store, cw_stats = no_cost_stats, cw_opened = []\<rparr>"

definition demo_cost_scope :: cj_scope where
  "demo_cost_scope = no_scope\<lparr>sc_enabled := Some True\<rparr>"

theorem cost_alerts_follow_the_bill_witness:
  "\<exists>a. open_alerts (cost_key 3) (st_alerts (cw_store
       (cost_pass (env_defaults (\<lambda>_. None) (\<lambda>_. None)) \<lparr>cs_global = demo_cost_scope, cs_accounts = []\<rparr> 500 12 (\<lambda>_. None)
          [Some [(3, ''shop'', demo_daily)]] demo_costs))) = [a] \<and>
     al_current_value a = Some 5 \<and> al_threshold a = Some (13 / 10)"
proof -
  let ?b = "env_defaults (\<lambda>_. None) (\<lambda>_. None)" and ?s = "\<lparr>cs_global = demo_cost_scope, cs_accounts = []\<rparr>"
  have ok: "store_ok 500 (cw_store demo_costs)" by (simp add: demo_costs_def demo_empty_ok)
  have l: "loaded_accounts [Some [(3, ''shop'', demo_daily)]] = [(3, ''shop'', demo_daily)]" by (simp add: loaded_accounts_def)
  have e: "effective_enabled ?b ?s (Some 3)" by code_simp
  have "evaluate_cost demo_daily 12 (effective_pct ?b ?s (Some 3)) (effective_min ?b ?s (Some 3)) = CostJump 5 (13 / 10)"
    by code_simp
  with cost_alerts_follow_the_bill [OF ok, of "[Some [(3, ''shop'', demo_daily)]]" 3 "''shop''" demo_daily ?b ?s 12 "\<lambda>_. None"] e l
  show ?thesis by (auto simp: cost_outcome_def Let_def)
qed

text \<open>
  C32: What is validated and saved for all accounts or for one is what is read back: every field of the
  request has its new value, recipients included, a field that was not sent keeps the old one,
  and every other scope is untouched.
\<close>

theorem saved_settings_read_back:
  assumes "\<And>ids. loads (dump_ids ids) = Some (JsonList (map JsonInt ids))" and "validate_settings raw = Inr p"
  shows "scope_at loads (save_settings key p tbl) key' =
    (if key' = key then assigned_scope p (scope_at loads tbl key) else scope_at loads tbl key')"
proof -
  note v = validated_recipients [OF assms(2)]
  have "read_row loads (patched_row p r) = assigned_scope p (read_row loads r)" for r
    by (rule patched_reads_back [OF assms(1)]) (use v(1,2) in blast)+
  moreover have "scope_at loads tbl key = read_row loads (case dict_get tbl key of None \<Rightarrow> no_row | Some r \<Rightarrow> r)"
    by (simp add: scope_at_def read_no_row split: option.split)
  ultimately show ?thesis using v(5) unfolding scope_at_save by simp
qed

text \<open>A reader of lists of integers.\<close>

definition demo_loads :: "string \<Rightarrow> json option" where
  "demo_loads t = (if t = ''[]'' then Some (JsonList [])
     else Some (JsonList (map (\<lambda>x. JsonInt (case py_int x of Some n \<Rightarrow> n | None \<Rightarrow> 0)) (split_ch (CHR '','') (butlast (tl t))))))"

lemma py_int_space: "py_int (CHR '' '' # s) = py_int s"
  by (simp add: py_int_def strip_def is_space_ch_def ch_code_def)

lemma demo_loads: "demo_loads (dump_ids ids) = Some (JsonList (map JsonInt ids))"
proof (cases ids)
  case Nil
  then show ?thesis by (simp add: demo_loads_def dump_ids_def)
next
  case (Cons i js)
  have no: "\<forall>w\<in>set (map int_text ids). CHR '','' \<notin> set w"
  proof
    fix w assume "w \<in> set (map int_text ids)"
    then obtain k where "w = int_text k" by auto
    moreover have "CHR '','' \<notin> set (nat_text n)" for n
      using nat_text_digits [of n] by (auto simp: list_all_iff is_digit_ch_def ch_code_def)
    ultimately show "CHR '','' \<notin> set w" by (simp add: int_text_def)
  qed
  have ne: "dump_ids ids \<noteq> ''[]''"
    using nat_text_digits by (cases js) (auto simp: dump_ids_def Cons int_text_def)
  have "split_ch (CHR '','') (butlast (tl (dump_ids ids))) = int_text i # map (\<lambda>w. '' '' @ w) (map int_text js)"
    using comma_pieces [OF _ no] by (simp add: dump_ids_def Cons butlast_append)
  then show ?thesis
    using ne by (simp add: demo_loads_def Cons py_int_text py_int_space o_def)
qed

definition demo_request :: json where
  "demo_request = JsonObject [(''threshold_pct'', JsonInt 25), (''notify_user_ids'', JsonList [JsonInt 9, JsonInt 4]),
     (''notify_emails'', JsonText ''Ops@shop.example; ops@shop.example'')]"

theorem saved_settings_read_back_witness:
  "\<exists>p. validate_settings demo_request = Inr p \<and>
     scope_at demo_loads (save_settings 5 p []) 5 =
       \<lparr>sc_enabled = None, sc_pct = Some 25, sc_min = None, sc_users = [4, 9], sc_emails = [''ops@shop.example'']\<rparr> \<and>
     scope_at demo_loads (save_settings 5 p []) 0 = no_scope"
proof -
  let ?p = "\<lparr>pj_enabled = None, pj_pct = Some (Some 25), pj_min = None, pj_users = Some (Some [4, 9]),
    pj_emails = Some (Some [''ops@shop.example''])\<rparr>"
  have v: "validate_settings demo_request = Inr ?p" by code_simp
  show ?thesis
    using v saved_settings_read_back [OF demo_loads v, of 5 "[]" 5] saved_settings_read_back [OF demo_loads v, of 5 "[]" 0]
    by (simp add: assigned_scope_def assign_def scope_at_def no_scope_def)
qed

text \<open>
  C33: The percentage and the amount in force for an account, whatever was saved and whatever the server's
  environment says, lie between 1 and 1000 and between 0 and 100000, and saving a validated
  request keeps the table of settings so.
\<close>

theorem settings_stay_in_their_limits:
  assumes "validate_settings raw = Inr p" and "rows_in_limits tbl" and "pk \<noteq> Some GLOBAL_KEY"
  shows "rows_in_limits (save_settings key p tbl) \<and>
     (let base = env_defaults py_float osenv; s = load_settings loads (save_settings key p tbl);
          pct = effective_pct base s pk; least = effective_min base s pk
      in 1 \<le> pct \<and> pct \<le> 1000 \<and> 0 \<le> least \<and> least \<le> 100000)"
proof -
  note ok = save_in_limits [OF assms(1,2), of key]
  show ?thesis
    using ok effective_in_limits [OF ok assms(3)] by (simp add: in_limits_def PCT_LIMITS_def MIN_LIMITS_def Let_def)
qed

theorem settings_stay_in_their_limits_witness:
  "\<exists>p. validate_settings demo_request = Inr p \<and>
     effective_pct (env_defaults (\<lambda>_. None) (\<lambda>_. None)) (load_settings demo_loads (save_settings 5 p [])) (Some 5) = 25 \<and>
     effective_pct (env_defaults (\<lambda>_. None) (\<lambda>_. None)) (load_settings demo_loads (save_settings 5 p [])) (Some 5) \<le> 1000"
proof -
  let ?p = "\<lparr>pj_enabled = None, pj_pct = Some (Some 25), pj_min = None, pj_users = Some (Some [4, 9]),
    pj_emails = Some (Some [''ops@shop.example''])\<rparr>"
  have v: "validate_settings demo_request = Inr ?p" by code_simp
  have e: "effective_pct (env_defaults (\<lambda>_. None) (\<lambda>_. None)) (load_settings demo_loads (save_settings 5 ?p [])) (Some 5) = 25"
    by code_simp
  have "rows_in_limits []" by (simp add: rows_in_limits_def)
  from settings_stay_in_their_limits [OF v this, of "Some 5" 5] v e show ?thesis
    by (simp add: Let_def GLOBAL_KEY_def)
qed

text \<open>
  C34: A run of anomaly detection that finishes leaves an open anomaly alert, with the score, for exactly
  the resources whose whole recent window the model calls unusual with enough metrics moved far
  enough; the open alerts of all others are resolved.
\<close>

theorem anomaly_alerts_are_the_found:
  assumes "store_ok (ai_now x) db" and "anomaly_enabled (ai_osenv x)"
    and "\<not> too_soon (min_interval_seconds (ai_float x) (ai_osenv x)) last_run (ai_clock x)"
    and "detect_anomalies x (last_run, db) = ((last_run', db'), Inr n, opened)"
  shows "map al_current_value (open_alerts (anomaly_key ar) (st_alerts db')) =
    (case verdict_of x ar of None \<Rightarrow> [] | Some score \<Rightarrow> [Some score])"
  by (rule detect_alerts [OF assms])

text \<open>Three metrics, sixty buckets, the last one far from the others.\<close>

definition demo_detector :: detector where
  "demo_detector = \<lparr>dt_pivot = (\<lambda>rs. ([''a'', ''b'', ''c''],
       map (\<lambda>i. (int i, map (\<lambda>m. (m, if i < 60 then 1 else 50)) [''a'', ''b'', ''c''])) [0..<61])),
     dt_model = (\<lambda>contamination history recent. (map (\<lambda>(t, d). dict_get d ''a'' = Some 50) recent, - 1 / 10)),
     dt_median = (\<lambda>xs. hd xs), dt_std = (\<lambda>xs. 0)\<rparr>"

definition demo_readings :: "reading list" where
  "demo_readings = map (\<lambda>m. \<lparr>rd_account = 1, rd_resource = ''web-1'', rd_metric = m, rd_at = 0, rd_value = Some 1\<rparr>) [''a'', ''b'', ''c'']"

definition demo_input :: "resource list \<Rightarrow> anomaly_input" where
  "demo_input rs = \<lparr>ai_osenv = (\<lambda>_. None), ai_float = (\<lambda>_. None), ai_cfg = \<lparr>ay_contamination = 1 / 100, ay_buckets = 1, ay_min_z = 7 / 2, ay_min_moved = 2\<rparr>,
     ai_detector = demo_detector, ai_env_aware = False, ai_resources = rs, ai_history = demo_readings,
     ai_now = 100, ai_session_now = 100, ai_clock = 5\<rparr>"

theorem anomaly_alerts_are_the_found_witness:
  "\<exists>st' opened. detect_anomalies (demo_input [demo_target]) (None, empty_store) = (st', Inr 1, opened) \<and>
     map al_current_value (open_alerts (anomaly_key (1, ''web-1'')) (st_alerts (snd st'))) = [Some (- 1 / 10)]"
proof -
  let ?x = "demo_input [demo_target]"
  have d: "fst (snd (detect_anomalies ?x (None, empty_store))) = Inr 1" by code_simp
  have v: "verdict_of ?x (1, ''web-1'') = Some (- 1 / 10)" by code_simp
  have a: "anomaly_enabled (ai_osenv ?x)" "\<not> too_soon (min_interval_seconds (ai_float ?x) (ai_osenv ?x)) None (ai_clock ?x)"
    by code_simp+
  obtain l' db' r o' where e: "detect_anomalies ?x (None, empty_store) = ((l', db'), r, o')" by (metis prod_cases3 surj_pair)
  with d have "detect_anomalies ?x (None, empty_store) = ((l', db'), Inr 1, o')" by simp
  from anomaly_alerts_are_the_found [OF demo_empty_ok a this, of "(1, ''web-1'')"] this v show ?thesis by auto
qed

text \<open>
  One unusual resource without an open alert whose tags are stored as a JSON text that is no object (such as
  \<open>null\<close>) stops the whole run, rolled back: no other resource is flagged and no alert resolved.
\<close>

lemma bad_tags_stop_the_detection:
  assumes "store_ok (ai_now x) db" and "anomaly_enabled (ai_osenv x)"
    and "\<not> too_soon (min_interval_seconds (ai_float x) (ai_osenv x)) last_run (ai_clock x)"
    and "verdict_of x ar = Some score" and "open_alerts (anomaly_key ar) (st_alerts db) = []"
    and "find (\<lambda>r. rs_account r = fst ar \<and> rs_resource_id r = snd ar) (ai_resources x) = Some r"
    and "rs_tags r = TagsText LNonObject" and "\<not> (ai_env_aware x \<and> truthy_str (rs_env_resolved r))"
  shows "detect_anomalies x (last_run, db) = ((Some (ai_clock x), db), Inl AttributeError, [])"
proof -
  have ar: "ar \<in> set (anomaly_candidates (ai_session_now x) (ai_history x))"
    and sc: "score_of (ai_cfg x) (ai_detector x) (ai_session_now x) (ai_history x) ar = Some score"
    using assms(4) by (simp_all add: verdict_of_def split: if_splits)
  have "scan_candidates (ai_cfg x) (ai_detector x) (ai_env_aware x) (ai_resources x) (ai_now x) (ai_session_now x)
      (ai_history x) (anomaly_candidates (ai_session_now x) (ai_history x)) \<lparr>ar_store = db, ar_found = [], ar_opened = []\<rparr> = Inl AttributeError"
    by (rule scan_stops [OF ar sc _ assms(6-8)]) (simp_all add: assms(1,5))
  then show ?thesis using assms(2,3) by (simp add: detect_anomalies_def)
qed

text \<open>
  C35: Pruning deletes exactly the alerts that were resolved longer ago than the retention time, which is
  never less than ninety days, and reports their number, when there are fewer than fifty thousand of
  them and the database answers; otherwise it deletes a part of them and nothing else.
\<close>

theorem pruning_takes_old_resolved_alerts:
  assumes "distinct as" and "prune_resolved_alerts osenv now answers rank as = (as', res)"
    and "alert_retention_days osenv \<noteq> 0"
  shows "90 \<le> alert_retention_days osenv \<and>
     (\<exists>D. as' = filter (\<lambda>a. a \<notin> D) as \<and> D \<subseteq> {a. expired_alert now (alert_retention_days osenv) a}) \<and>
     ((\<forall>i<50. answers i) \<and> length (filter (expired_alert now (alert_retention_days osenv)) as) < 50000 \<longrightarrow>
        as' = filter (\<lambda>a. \<not> expired_alert now (alert_retention_days osenv) a) as \<and>
        res = Some (length (filter (expired_alert now (alert_retention_days osenv)) as)))"
proof -
  have d: "delete_in_batches answers (\<lambda>a. rank (al_id a)) (expired_alert now (alert_retention_days osenv)) MAX_BATCHES 0 as = (as', res)"
    using assms(2,3) by (simp add: prune_resolved_alerts_def Let_def)
  note b = batches_rows [OF assms(1) d]
  show ?thesis
    using retention_floor [of osenv] assms(3) b(1) b(3) by (auto simp: MAX_BATCHES_def BATCH_SIZE_def)
qed

definition demo_old_alert :: alert where
  "demo_old_alert = resolve_alert ''recovered'' 0 (cost_alert 0 1 5 1 None 1)"

theorem pruning_takes_old_resolved_alerts_witness:
  "prune_resolved_alerts (\<lambda>_. Some ''30'') (91 * 86400) (\<lambda>_. True) (\<lambda>i. i) [demo_old_alert, cost_alert 0 2 5 1 None 2] =
     ([cost_alert 0 2 5 1 None 2], Some 1)"
proof -
  let ?as = "[demo_old_alert, cost_alert 0 2 5 1 None 2]" and ?e = "\<lambda>_. Some ''30''"
  obtain as' res where r: "prune_resolved_alerts ?e (91 * 86400) (\<lambda>_. True) (\<lambda>i. i) ?as = (as', res)" by fastforce
  have days: "alert_retention_days ?e = 90" by code_simp
  have d: "distinct ?as" by (simp add: demo_old_alert_def resolve_alert_def cost_alert_def)
  have "expired_alert (91 * 86400) 90 demo_old_alert" "\<not> expired_alert (91 * 86400) 90 (cost_alert 0 2 5 1 None 2)"
    by code_simp+
  with pruning_takes_old_resolved_alerts [OF d r] r days show ?thesis by simp
qed

section \<open>Incidents, health and mail\<close>

text \<open>
  C36: After a correlation run each member of an incident belongs to the incident's account, every member the run
  added is linked in that account to another member of its incident, every loose alert that was looked at is in an
  active incident or has no partner it could form one with, each active incident still has an open member, and the
  reported number of attached alerts is the number of new rows.
\<close>

theorem correlation_joins_what_is_linked:
  assumes "distinct (map al_id (cr_alerts x))" and "incidents_ok (cr_alerts x) db"
    and "correlate_alerts x db = (db', created, attached)"
  shows "incidents_ok (cr_alerts x) db' \<and> set (ic_members db) \<subseteq> set (ic_members db') \<and>
    (\<forall>(i, k)\<in>set (ic_members db') - set (ic_members db). linked_in x db' i k) \<and>
    (\<forall>a\<in>set (loose_alerts x db). placed db' a \<or> alone x db' a) \<and>
    (\<forall>y\<in>set (ic_incidents db'). in_status y = IncActive \<longrightarrow> has_open_member (cr_alerts x) db' y) \<and>
    length (ic_members db') = length (ic_members db) + attached"
  using correlate_alerts_facts [OF assms] correlate_alerts_serves [OF assms(3)] correlate_alerts_count [OF assms]
  by (auto simp: on_course_def served_def)

lemma demo_incidents_ok: "incidents_ok (cr_alerts demo_correlation) demo_incidents"
  by (simp add: incidents_ok_def homes_def demo_incidents_def demo_incident_def demo_correlation_def demo_breach_def)

theorem correlation_joins_what_is_linked_witness:
  "(case correlate_alerts demo_correlation demo_incidents of (db, created, attached) \<Rightarrow>
     linked_in demo_correlation db 2 11 \<and> linked_in demo_correlation db 2 12 \<and> length (ic_members db) = 4)"
proof -
  obtain db created attached where r: "correlate_alerts demo_correlation demo_incidents = (db, created, attached)"
    by (metis prod_cases3)
  have d: "distinct (map al_id (cr_alerts demo_correlation))" by code_simp
  have m: "ic_members db = [(1, 10), (2, 11), (2, 12), (1, 12)]" "attached = 3"
    using an_alert_in_two_incidents by (simp_all add: r)
  have m0: "ic_members demo_incidents = [(1, 10)]" by (simp add: demo_incidents_def)
  from correlation_joins_what_is_linked [OF d demo_incidents_ok r] show ?thesis by (simp add: r m m0)
qed

text \<open>
  C37: A recomputation of the health scores either fails with the error of an attempt, the last one if a
  deadlock or lock timeout was the reason, and then changes nothing, or it leaves exactly the table of
  scores that the firing alerts and the topology ask for, whatever the table held before: a row for each resource
  with a firing critical or warning alert, with a score from 0 to 85, and no other row.
\<close>

theorem health_table_follows_alerts:
  assumes "dict_wf tbl" and "recompute_health_scores fails x tbl = (tbl', res)"
  shows "(\<exists>i e. 1 \<le> i \<and> i \<le> MAX_ATTEMPTS \<and> fails i = Some e \<and> (is_retryable e \<longrightarrow> i = MAX_ATTEMPTS) \<and> res = Inl e \<and> tbl' = tbl) \<or>
    (res = Inr (length tbl') \<and> dict_wf tbl' \<and>
     (\<forall>k. dict_get tbl' k = health_of x k \<and>
       (\<forall>h. dict_get tbl' k = Some h \<longrightarrow> 0 \<le> he_score h \<and> he_score h \<le> 85)))"
proof -
  have range: "0 \<le> he_score h \<and> he_score h \<le> 85" if "health_of x k = Some h" for k h
    using that health_row_of_bounds [of "severity_count CRITICAL k x" "severity_count WARNING k x" "hi_edges x" k]
    by (simp add: health_of_def Let_def split: if_splits)
  show ?thesis
    using health_attempts [OF assms(2)] recompute_once_table [OF assms(1)] range by fastforce
qed

definition demo_health :: health_input where
  "demo_health = \<lparr>hi_now = 60, hi_stale = (\<lambda>a r ac. 30), hi_alerts = [demo_breach 1 ''vm'' 0, demo_breach 2 ''vm'' 0],
     hi_resources = [\<lparr>rs_id = 3, rs_account = 4, rs_resource_id = ''vm'', rs_type = ''ec2'', rs_tags = TagsNull,
       rs_env_resolved = None, rs_last_seen_at = None, rs_instance_state = None\<rparr>],
     hi_accounts = [\<lparr>ac_id = 4, ac_active = True, ac_provider = ''aws'', ac_name = ''main''\<rparr>],
     hi_edges = [\<lparr>rl_account = 4, rl_source = ''vm'', rl_target = ''vol''\<rparr>]\<rparr>"

definition demo_old_health :: "(health_key, health_row) dict" where
  "demo_old_health = [((4, ''gone''), health_row_of [] ((4, ''gone''), 1, 0))]"

theorem health_table_follows_alerts_witness:
  "\<exists>tbl'. recompute_health_scores (\<lambda>i. if i < 4 then Some (Some 1213) else None) demo_health demo_old_health = (tbl', Inr 1) \<and>
     map_option he_score (dict_get tbl' (4, ''vm'')) = Some 69 \<and> dict_get tbl' (4, ''gone'') = None"
proof -
  let ?f = "\<lambda>i. if i < 4 then Some (Some 1213) else (None :: int option option)"
  obtain tbl' res where r: "recompute_health_scores ?f demo_health demo_old_health = (tbl', res)" by (metis surj_pair)
  have "map_sum id id (snd (recompute_health_scores ?f demo_health demo_old_health)) = Inr 1" by code_simp
  then have res: "res = Inr 1" using r by (cases res) simp_all
  have wf: "dict_wf demo_old_health" by (simp add: demo_old_health_def dict_wf_def dict_keys_def)
  have h: "map_option he_score (health_of demo_health (4, ''vm'')) = Some 69" "health_of demo_health (4, ''gone'') = None"
    by code_simp+
  from health_table_follows_alerts [OF wf r] show ?thesis using res h r by auto
qed

text \<open>
  C38: When every sent mail can be recorded, a dispatch of events keeps the limits of rule mails: the table holds at most
  one mail per person and event of an alert or incident, at most the hourly cap per rule and person in any hour, and
  mails of a rule to a person about one resource and event at least the throttle time apart, or an hour when that is
  less; and the table grows by exactly the mails that went out.
\<close>

theorem rule_mails_stay_in_their_limits:
  assumes "sends_ok (io_osenv io) now (ds_sends w)" and "sorted (now # map (\<lambda>x. snd (snd x)) items)"
    and "\<forall>r. \<not> io_record_fails io r" and "dispatch_many smtp io db items w = (w', n)"
  shows "\<exists>mails. ds_outbox w' = ds_outbox w @ mails \<and> ds_sends w' = ds_sends w @ map (send_row_of io) mails \<and>
    distinct (map once_key (ds_sends w')) \<and>
    (\<forall>rule k t. int (hour_count (ds_sends w') rule k t) \<le> max_per_hour (io_osenv io)) \<and>
    sorted_wrt (mail_spaced (min (throttle_seconds (io_osenv io)) 3600)) (ds_sends w')"
  using dispatch_many_mails [OF assms(2,1,4)] assms(3)
  by (auto simp: within_limits_def recorded_def mail_gap_def)

lemma demo_first_addresses:
  "map sm_address (ds_outbox (fst (dispatch_many True (demo_io ''7200'') demo_mail_db
      [((''alert_opened'', demo_ctx 1), 0, 0)] \<lparr>ds_sends = [], ds_outbox = []\<rparr>))) =
    [''ann@x.io'', ''ops@x.io'']"
  by code_simp

theorem rule_mails_stay_in_their_limits_witness:
  "\<exists>mails. length mails = 2 \<and> distinct (map once_key (map (send_row_of (demo_io ''7200'')) mails)) \<and>
     map sm_address mails = [''ann@x.io'', ''ops@x.io'']"
proof -
  let ?io = "demo_io ''7200''" and ?w = "\<lparr>ds_sends = [], ds_outbox = []\<rparr>" and ?items = "[((''alert_opened'', demo_ctx 1), 0, 0)]"
  obtain w' n where r: "dispatch_many True ?io demo_mail_db ?items ?w = (w', n)" by (metis surj_pair)
  have a: "map sm_address (ds_outbox w') = [''ann@x.io'', ''ops@x.io'']"
    using demo_first_addresses unfolding r fst_conv .
  have f: "\<forall>r. \<not> io_record_fails ?io r" by (simp add: demo_io_def)
  have s: "sends_ok (io_osenv ?io) 0 (ds_sends ?w)" by (simp add: sends_ok_Nil)
  from rule_mails_stay_in_their_limits [OF s _ f r] obtain mails where m: "ds_outbox w' = mails"
      "ds_sends w' = map (send_row_of ?io) mails" "distinct (map once_key (ds_sends w'))"
    by auto
  then have "map sm_address mails = [''ann@x.io'', ''ops@x.io'']" using a by simp
  moreover from this have "length mails = 2" by (metis length_map list.size(3,4) numeral_2_eq_2 One_nat_def add_Suc_right add_0_right)
  ultimately show ?thesis using m by auto
qed

text \<open>
  C39: Every mail of a dispatch was asked for by an enabled rule that matches the event, its severity and its account,
  is not about a silenced alert, goes to an address that nobody else mails about the event, and
  goes to an address typed into the rule or its list or to an active user of the list who may see the account.
\<close>

theorem rule_mails_reach_only_who_may:
  assumes "sends_ok (io_osenv io) now (ds_sends w)" and "sorted (now # map (\<lambda>x. snd (snd x)) items)"
    and "dispatch_many smtp io db items w = (w', n)"
  shows "\<exists>mails. ds_outbox w' = ds_outbox w @ mails \<and>
    (\<forall>m\<in>set mails. \<not> mc_silenced (sm_ctx m) \<and>
      (\<exists>r\<in>set (md_rules db). mr_id r = sm_rule m \<and> rule_matches r (sm_event m) (mc_severity (sm_ctx m)) (mc_account (sm_ctx m)) \<and>
        (typed_on db r (sm_address m) \<or>
         (\<exists>u. user_on io db r u \<and> mu_active u \<noteq> Some False \<and> sm_address m = strip (text_or (mu_email u) []) \<and>
            mail_visible (md_auth db) (io_lookup_fails io) (mc_account (sm_ctx m)) u))) \<and>
      (\<exists>ex. excluded_addresses (io_loads io) db (sm_event m) (sm_ctx m) = Inr ex \<and> lower (sm_address m) \<notin> set ex))"
  using dispatch_many_mails(2) [OF assms(2,1,3)] unfolding recorded_def proper_def may_mail_def by blast

theorem rule_mails_reach_only_who_may_witness:
  "\<exists>mails :: sent_mail list. map sm_address mails = [''ann@x.io'', ''ops@x.io''] \<and>
     (\<forall>m\<in>set mails. \<exists>r\<in>set (md_rules demo_mail_db). mr_id r = sm_rule m)"
proof -
  let ?io = "demo_io ''7200''" and ?w = "\<lparr>ds_sends = [], ds_outbox = []\<rparr>" and ?items = "[((''alert_opened'', demo_ctx 1), 0, 0)]"
  obtain w' n where r: "dispatch_many True ?io demo_mail_db ?items ?w = (w', n)" by (metis surj_pair)
  have a: "map sm_address (ds_outbox w') = [''ann@x.io'', ''ops@x.io'']"
    using demo_first_addresses unfolding r fst_conv .
  have s: "sends_ok (io_osenv ?io) 0 (ds_sends ?w)" by (simp add: sends_ok_Nil)
  from rule_mails_reach_only_who_may [OF s _ r] obtain mails where m: "ds_outbox w' = mails"
      "\<forall>m\<in>set mails. \<exists>r\<in>set (md_rules demo_mail_db). mr_id r = sm_rule m"
    by auto
  moreover have "map sm_address mails = [''ann@x.io'', ''ops@x.io'']" using a m(1) by simp
  ultimately show ?thesis by (intro exI [of _ mails] conjI)
qed

text \<open>
  C40: However the hooks of the collector and the mail thread interleave, the queue holds at most five hundred jobs, at
  most one sweep is being queued, queued or running, and the flag that refuses further sweeps is set exactly while there is one,
  so it can never be left behind.
\<close>

theorem one_sweep_at_a_time:
  assumes "worker_steps osenv w"
  shows "length (wk_queue w) \<le> QUEUE_MAX \<and> sweeps w \<le> 1 \<and> (wk_sweep_pending w \<longleftrightarrow> sweeps w = 1) \<and>
    (snd (claim_sweep w) \<longleftrightarrow> sweeps w = 0)"
  using worker_invariant [OF assms] by (auto simp: worker_ok_def claim_sweep_def split: if_splits)

theorem one_sweep_at_a_time_witness:
  "let w = take_job (fst (put_sweep (fst (claim_sweep idle_worker))))
   in wk_running w = Some SweepJob \<and> sweeps w = 1 \<and> \<not> snd (claim_sweep w) \<and> snd (claim_sweep (finish_job w))"
proof -
  let ?c = "fst (claim_sweep idle_worker)" and ?on = "demo_mail_env ''1800''"
  have on: "email_center_enabled ?on" by code_simp
  have "worker_steps ?on ?c" by (rule worker_steps.claim [OF worker_steps.start on])
  then have "worker_steps ?on (fst (put_sweep ?c))" by (rule worker_steps.put) code_simp
  then have w: "worker_steps ?on (take_job (fst (put_sweep ?c)))" by (rule worker_steps.take)
  have r: "wk_running (take_job (fst (put_sweep ?c))) = Some SweepJob" "wk_sweep_pending (take_job (fst (put_sweep ?c)))"
    by code_simp+
  have f: "sweeps (finish_job (take_job (fst (put_sweep ?c)))) = 0" by code_simp
  from one_sweep_at_a_time [OF w] one_sweep_at_a_time [OF worker_steps.finish [OF w]] show ?thesis
    using r f by (simp add: Let_def)
qed

end
